(* ===== verification/Prelude.thy ===== *)
theory Prelude
  imports Main
begin

text \<open>
  Shared vocabulary of the development: the Python errors the scripts can raise, a bind
  on the result type \<open>py_error + 'a\<close> (\<open>Inl\<close> is the exception), Python dictionary
  assignment on association lists (a dict keeps its keys in insertion order, which
  \<open>json.dump\<close> writes out), Python's \<open>xs[0] = v\<close> on lists, and JavaScript's
  \<open>Math.floor(Math.random() * n)\<close>, which the nodes of both workflow builders evaluate.
  The lemmas here are the
  ones the component theories share; they are collected in the named theorem sets
  \<open>store_simps\<close> (lead-table operations) and \<open>doc_simps\<close> (JSON document operations).
\<close>

named_theorems store_simps "simplification rules of the lead table operations"
named_theorems doc_simps "simplification rules of the JSON document operations"

section \<open>Python errors and the result type\<close>

datatype py_error =
    KeyError string
  | IndexError
  | TypeError
  | AttributeError

type_synonym 'a result = "py_error + 'a"

definition bind_res :: "'a result \<Rightarrow> ('a \<Rightarrow> 'b result) \<Rightarrow> 'b result" where
  "bind_res r f = (case r of Inl e \<Rightarrow> Inl e | Inr a \<Rightarrow> f a)"

definition map_res :: "('a \<Rightarrow> 'b) \<Rightarrow> 'a result \<Rightarrow> 'b result" where
  "map_res f r = bind_res r (\<lambda>a. Inr (f a))"

section \<open>Python dictionaries as association lists\<close>

text \<open>
  \<open>d[k] = v\<close>: an existing key keeps its position and gets the new value, a new key is
  appended at the end.
\<close>

fun dict_set :: "('k \<times> 'v) list \<Rightarrow> 'k \<Rightarrow> 'v \<Rightarrow> ('k \<times> 'v) list" where
  "dict_set [] k v = [(k, v)]"
| "dict_set ((k', v') # d) k v =
     (if k' = k then (k, v) # d else (k', v') # dict_set d k v)"

text \<open>\<open>d[k]\<close> and \<open>k in d\<close>.\<close>

definition dict_get :: "('k \<times> 'v) list \<Rightarrow> 'k \<Rightarrow> 'v option" where
  "dict_get d k = map_of d k"

definition dict_has :: "('k \<times> 'v) list \<Rightarrow> 'k \<Rightarrow> bool" where
  "dict_has d k \<longleftrightarrow> k \<in> fst ` set d"

section \<open>Lists\<close>

text \<open>Python \<open>xs[0] = v\<close>: an \<open>IndexError\<close> on the empty list.\<close>

definition list_set0 :: "'a list \<Rightarrow> 'a \<Rightarrow> 'a list result" where
  "list_set0 xs v = (case xs of [] \<Rightarrow> Inl IndexError | _ # ys \<Rightarrow> Inr (v # ys))"

section \<open>Random draws\<close>

text \<open>
  \<open>Math.floor(Math.random() * n)\<close> for the draw \<open>k / 2^p\<close> (\<open>k < 2^p\<close>): V8's
  \<open>Math.random()\<close> returns a multiple of \<open>2^-p\<close>, every one equally likely.
\<close>

definition floor_random :: "nat \<Rightarrow> nat \<Rightarrow> nat \<Rightarrow> nat" where
  "floor_random p k n = (n * k) div 2 ^ p"

section \<open>Lemmas\<close>

lemma bind_res_Inl [simp]: "bind_res (Inl e) f = Inl e"
  by (simp add: bind_res_def)

lemma bind_res_Inr [simp]: "bind_res (Inr a) f = f a"
  by (simp add: bind_res_def)

lemma bind_res_eq_Inr:
  "bind_res r f = Inr b \<longleftrightarrow> (\<exists>a. r = Inr a \<and> f a = Inr b)"
  by (cases r) auto

lemma map_res_Inr [simp]: "map_res f (Inr a) = Inr (f a)"
  by (simp add: map_res_def)

lemma map_res_Inl [simp]: "map_res f (Inl e) = Inl e"
  by (simp add: map_res_def)

lemma map_res_bind_res: "map_res f (bind_res r g) = bind_res r (\<lambda>a. map_res f (g a))"
  by (cases r) (simp_all add: map_res_def)

lemma map_res_map_res: "map_res f (map_res g r) = map_res (f \<circ> g) r"
  by (cases r) (simp_all add: map_res_def)

lemma map_res_id: "map_res (\<lambda>a. a) r = r"
  by (cases r) (simp_all add: map_res_def)

lemma bind_res_eq_Inl:
  "bind_res r f = Inl e \<longleftrightarrow> r = Inl e \<or> (\<exists>a. r = Inr a \<and> f a = Inl e)"
  by (cases r) auto

lemma dict_has_iff_get [doc_simps]: "dict_has d k \<longleftrightarrow> dict_get d k \<noteq> None"
  by (simp add: dict_has_def dict_get_def map_of_eq_None_iff)

lemma dict_get_literal [simp, doc_simps]:
  "dict_get [] k = None"
  "dict_get ((a, b) # d) k = (if k = a then Some b else dict_get d k)"
  by (simp_all add: dict_get_def)

lemma dict_get_set [simp, doc_simps]: "dict_get (dict_set d k v) = (dict_get d)(k \<mapsto> v)"
proof (induction d)
  case Nil
  then show ?case by (simp add: dict_get_def)
next
  case (Cons p d)
  then show ?case by (cases p) (auto simp: dict_get_def fun_eq_iff)
qed

lemma dict_keys_set: "map fst (dict_set d k v) =
    (if k \<in> fst ` set d then map fst d else map fst d @ [k])"
  by (induction d) force+

lemma dict_set_distinct [doc_simps]:
  "distinct (map fst d) \<Longrightarrow> distinct (map fst (dict_set d k v))"
  by (induction d) (auto simp: dict_keys_set)

lemma dict_set_idem [doc_simps]: "dict_set (dict_set d k v) k v = dict_set d k v"
  by (induction d) auto

lemma dict_set_other_get [doc_simps]:
  "k' \<noteq> k \<Longrightarrow> dict_get (dict_set d k v) k' = dict_get d k'"
  by simp

subsection \<open>Lists\<close>

lemma list_set0_Cons [simp, doc_simps]: "list_set0 (x # xs) v = Inr (v # xs)"
  by (simp add: list_set0_def)

lemma list_set0_Nil [simp, doc_simps]: "list_set0 [] v = Inl IndexError"
  by (simp add: list_set0_def)

text \<open>A map over a list that changes only the elements a predicate selects.\<close>

lemma map_if_id:
  "(\<forall>x \<in> set xs. \<not> P x) \<Longrightarrow> map (\<lambda>x. if P x then f x else x) xs = xs"
  by (induction xs) auto

subsection \<open>Random draws\<close>

text \<open>
  How many of the \<open>2^p\<close> draws give each value of \<open>Math.floor(Math.random() * n)\<close>:
  the draws of value \<open>m\<close> form an interval whose length is \<open>2^p div n\<close> or one more.
\<close>

lemma mult_less_iff_ceil: "0 < (n::nat) \<Longrightarrow> n * k < a \<longleftrightarrow> k < (a + n - 1) div n"
proof -
  assume n: "0 < n"
  have "k < (a + n - 1) div n \<longleftrightarrow> Suc k * n \<le> a + n - 1"
    using n by (simp add: less_eq_div_iff_mult_less_eq Suc_le_eq[symmetric] del: mult_Suc)
  also have "\<dots> \<longleftrightarrow> n * k < a" using n by (cases a) (auto simp: algebra_simps)
  finally show ?thesis by simp
qed

lemma ceil_div_step:
  assumes n: "0 < (n::nat)"
  shows "N div n \<le> (a + N + n - 1) div n - (a + n - 1) div n \<and>
         (a + N + n - 1) div n - (a + n - 1) div n \<le> N div n + 1"
proof -
  obtain q r where N: "N = q * n + r" "r < n" using n by (metis mod_div_decomp mod_less_divisor)
  define x where "x = a + r + n - 1"
  have "a + N + n - 1 = x + q * n" using N n by (simp add: x_def)
  then have "(a + N + n - 1) div n = q + x div n"
    using n div_mult_self1[of n x q] by simp
  moreover have "(a + n - 1) div n \<le> x div n" by (simp add: x_def div_le_mono)
  moreover have "x div n \<le> (a + n - 1) div n + 1"
  proof -
    have "x \<le> (a + n - 1) + n" using N(2) n by (simp add: x_def)
    then have "x div n \<le> ((a + n - 1) + n) div n" by (rule div_le_mono)
    moreover have "((a + n - 1) + n) div n = (a + n - 1) div n + 1"
      using n div_add_self2[of n "a + n - 1"] by (simp only: Suc_eq_plus1 neq0_conv)
    ultimately show ?thesis by simp
  qed
  moreover have "N div n = q" using N n by simp
  ultimately show ?thesis by linarith
qed

lemma div_eq_iff_range: "0 < (d::nat) \<Longrightarrow> k div d = j \<longleftrightarrow> j * d \<le> k \<and> k < Suc j * d"
  by (meson div_less_iff_less_mult div_times_less_eq_dividend le_less_Suc_eq
      less_eq_div_iff_mult_less_eq)

lemma draws_of_value:
  assumes n: "0 < (n::nat)" and m: "m < n" and N: "0 < N"
  shows "{k. k < N \<and> (n * k) div N = m} = {(m * N + n - 1) div n..<(m * N + N + n - 1) div n}"
proof -
  have "(n * k) div N = m \<longleftrightarrow> \<not> n * k < m * N \<and> n * k < m * N + N" for k
    using div_eq_iff_range[OF N] by (auto simp: algebra_simps)
  moreover have "n * k < m * N + N \<Longrightarrow> k < N" for k
  proof -
    assume "n * k < m * N + N"
    also have "m * N + N \<le> n * N" using m by (metis Suc_leI add.commute mult_Suc mult_le_mono1)
    finally show "k < N" by simp
  qed
  ultimately show ?thesis using mult_less_iff_ceil[OF n] by auto
qed

lemma floor_random_card:
  assumes "0 < n" and "m < n"
  shows "2 ^ p div n \<le> card {k. k < 2 ^ p \<and> floor_random p k n = m} \<and>
         card {k. k < 2 ^ p \<and> floor_random p k n = m} \<le> 2 ^ p div n + 1"
  using draws_of_value[OF assms, of "2 ^ p"] ceil_div_step[OF assms(1), of "2 ^ p" "m * 2 ^ p"]
  by (simp add: floor_random_def)

end
