(* ===== verification/LeadStore.thy ===== *)
theory LeadStore
  imports Prelude
begin

text \<open>
  The shared lead table (Supabase table \<open>leads\<close>) and the three workflow nodes that write it:
  \<^item> \<open>Lock Lead Status\<close> (src/execution/perfect_workflow.py, lines 216-232): an
    \<open>update\<close> of the rows whose \<open>airtable_id\<close> matches, setting \<open>status = IN_PROGRESS\<close>;
  \<^item> \<open>Supabase - Release Lock\<close> (same file, lines 103-127): the same update with
    \<open>status = READY_RETRY\<close>;
  \<^item> \<open>Supabase - Elite Upsert\<close> (src/execution/build_scraper_workflow.py, lines 93-114):
    an \<open>upsert\<close> matched on \<open>url\<close> that writes company name, score, sector and the
    status \<open>LeadScore > 7 ? 'PRIORITY' : 'READY_TO_PROCESS'\<close>.
  The table is a list of rows in insertion order. A Supabase \<open>update\<close> with a match column
  changes every row whose column equals the key and no other; it does not look at the
  current status. An upsert on a unique column conflicts only with a row holding the same
  non-null value (SQL \<open>NULL\<close> never conflicts), so a candidate without a url is inserted.
\<close>

section \<open>Rows\<close>

datatype lead_status =
    READY_TO_PROCESS
  | PRIORITY
  | IN_PROGRESS
  | READY_RETRY
  | FAILED
  | DONE

record lead =
  airtable_id :: "string option"
  url :: "string option"
  company_name :: string
  lead_score :: int
  sector :: string
  status :: lead_status

type_synonym leads = "lead list"

text \<open>
  The item the scraper's parser hands to the upsert: the fields its prompt extracts
  (build_scraper_workflow.py line 79: AgencyName, LeadScore, Sector, City, Phone) and the
  \<open>url\<close> field the upsert matches on, absent (\<open>None\<close>) when the item carries none.
\<close>

record candidate =
  AgencyName :: string
  LeadScore :: int
  Sector :: string
  City :: string
  Phone :: string
  cand_url :: "string option"

section \<open>Operations\<close>

text \<open>The status expression of the upsert node (build_scraper_workflow.py line 104).\<close>

definition classify :: "int \<Rightarrow> lead_status" where
  "classify score = (if score > 7 then PRIORITY else READY_TO_PROCESS)"

text \<open>A Supabase \<open>update\<close> of the \<open>status\<close> column matched on \<open>airtable_id\<close>.\<close>

definition set_status_where :: "string \<Rightarrow> lead_status \<Rightarrow> leads \<Rightarrow> leads" where
  "set_status_where key st rows =
     map (\<lambda>r. if airtable_id r = Some key then r\<lparr>status := st\<rparr> else r) rows"

definition lock_lead :: "string \<Rightarrow> leads \<Rightarrow> leads" where
  "lock_lead key rows = set_status_where key IN_PROGRESS rows"

definition release_lock :: "string \<Rightarrow> leads \<Rightarrow> leads" where
  "release_lock key rows = set_status_where key READY_RETRY rows"

text \<open>The values the upsert writes (lines 100-104) and the row it inserts.\<close>

definition upsert_fields :: "candidate \<Rightarrow> lead \<Rightarrow> lead" where
  "upsert_fields c r =
     r\<lparr>company_name := AgencyName c, lead_score := LeadScore c, sector := Sector c,
       status := classify (LeadScore c)\<rparr>"

definition new_lead :: "candidate \<Rightarrow> lead" where
  "new_lead c =
     \<lparr>airtable_id = None, url = cand_url c, company_name = AgencyName c,
      lead_score = LeadScore c, sector = Sector c, status = classify (LeadScore c)\<rparr>"

definition elite_upsert :: "candidate \<Rightarrow> leads \<Rightarrow> leads" where
  "elite_upsert c rows =
     (case cand_url c of
        None \<Rightarrow> rows @ [new_lead c]
      | Some u \<Rightarrow>
          (if list_ex (\<lambda>r. url r = Some u) rows
           then map (\<lambda>r. if url r = Some u then upsert_fields c r else r) rows
           else rows @ [new_lead c]))"

section \<open>Predicates on the table\<close>

text \<open>The statuses a batch run may claim (spec section 4.1).\<close>

definition eligible :: "lead_status \<Rightarrow> bool" where
  "eligible st \<longleftrightarrow> st \<in> {READY_TO_PROCESS, PRIORITY, READY_RETRY}"

definition rows_of :: "string \<Rightarrow> leads \<Rightarrow> lead list" where
  "rows_of key rows = filter (\<lambda>r. airtable_id r = Some key) rows"

text \<open>Each non-null url occurs in at most one row: the unique index the upsert relies on.\<close>

definition urls_unique :: "leads \<Rightarrow> bool" where
  "urls_unique rows \<longleftrightarrow> distinct (List.map_filter url rows)"

text \<open>
  A table update that leaves every row without \<open>airtable_id\<close> where it was, and the table's
  length: every update matched on \<open>airtable_id\<close> is one.
\<close>

definition keeps_unkeyed :: "leads \<Rightarrow> leads \<Rightarrow> bool" where
  "keeps_unkeyed rows rows' \<longleftrightarrow>
     length rows' = length rows \<and> (\<forall>i < length rows. airtable_id (rows ! i) = None \<longrightarrow> rows' ! i = rows ! i)"

section \<open>Lemmas\<close>

lemma set_status_where_length [simp, store_simps]:
  "length (set_status_where key st rows) = length rows"
  by (simp add: set_status_where_def)

lemma rows_of_set_status_where [store_simps]:
  "rows_of key (set_status_where key st rows) = map (\<lambda>r. r\<lparr>status := st\<rparr>) (rows_of key rows)"
  by (induction rows) (auto simp: rows_of_def set_status_where_def)

lemma rows_of_set_status_other [store_simps]:
  "key' \<noteq> key \<Longrightarrow> rows_of key' (set_status_where key st rows) = rows_of key' rows"
  by (induction rows) (auto simp: rows_of_def set_status_where_def)

lemma set_status_where_nth [store_simps]:
  "i < length rows \<Longrightarrow> set_status_where key st rows ! i =
     (if airtable_id (rows ! i) = Some key then (rows ! i)\<lparr>status := st\<rparr> else rows ! i)"
  by (simp add: set_status_where_def)

lemma set_status_where_idem [store_simps]:
  "set_status_where key st (set_status_where key st rows) = set_status_where key st rows"
  by (induction rows) (auto simp: set_status_where_def)

lemma url_set_status_where [store_simps]:
  "map url (set_status_where key st rows) = map url rows"
  by (induction rows) (auto simp: set_status_where_def)

lemma map_filter_url_set_status [store_simps]:
  "List.map_filter url (set_status_where key st rows) = List.map_filter url rows"
  by (induction rows) (auto simp: set_status_where_def List.map_filter_def)

lemma map_filter_url_upsert_map:
  "List.map_filter url (map (\<lambda>r. if P r then upsert_fields c r else r) rows) =
   List.map_filter url rows"
  by (induction rows) (auto simp: upsert_fields_def List.map_filter_def)

lemma map_filter_snoc:
  "List.map_filter f (xs @ [x]) = List.map_filter f xs @ (case f x of None \<Rightarrow> [] | Some y \<Rightarrow> [y])"
  by (induction xs) (auto simp: List.map_filter_def split: option.splits)

lemma Some_in_map_filter: "Some u = f r \<Longrightarrow> r \<in> set rows \<Longrightarrow> u \<in> set (List.map_filter f rows)"
  by (induction rows) (auto simp: List.map_filter_def)

lemma in_map_filter_url: "u \<in> set (List.map_filter url rows) \<longleftrightarrow> (\<exists>r \<in> set rows. url r = Some u)"
  by (induction rows) (auto simp: List.map_filter_def)

lemma list_ex_upsert_map [store_simps]:
  "list_ex (\<lambda>r. url r = Some u) (map (\<lambda>r. if url r = Some u then upsert_fields c r else r) rows) =
   list_ex (\<lambda>r. url r = Some u) rows"
  by (induction rows) (auto simp: upsert_fields_def)

lemma urls_unique_elite_upsert: "urls_unique rows \<Longrightarrow> urls_unique (elite_upsert c rows)"
  by (auto simp: urls_unique_def elite_upsert_def map_filter_snoc new_lead_def map_filter_url_upsert_map
      list_ex_iff in_map_filter_url split: option.splits)

lemma keeps_unkeyed_refl [simp]: "keeps_unkeyed rows rows"
  by (simp add: keeps_unkeyed_def)

lemma keeps_unkeyed_trans: "keeps_unkeyed r1 r2 \<Longrightarrow> keeps_unkeyed r2 r3 \<Longrightarrow> keeps_unkeyed r1 r3"
  by (auto simp: keeps_unkeyed_def)

lemma keeps_unkeyed_set_status [simp]: "keeps_unkeyed rows (set_status_where key st rows)"
  by (simp add: keeps_unkeyed_def set_status_where_nth)

lemma keeps_unkeyed_set_status_after [simp]:
  "keeps_unkeyed rows rows' \<Longrightarrow> keeps_unkeyed rows (set_status_where key st rows')"
  using keeps_unkeyed_trans keeps_unkeyed_set_status by blast

lemmas store_defs = lock_lead_def release_lock_def set_status_where_def
  elite_upsert_def upsert_fields_def new_lead_def classify_def


section \<open>Properties of the ingestion upsert\<close>

text \<open>
  C20. Classification at ingestion: a candidate whose url is not yet in the table is
  appended as one new row, whose status is \<open>PRIORITY\<close> when the score is greater than 7
  and \<open>READY_TO_PROCESS\<close> otherwise (spec P3: score 8 gives \<open>PRIORITY\<close>, score 7 gives
  \<open>READY_TO_PROCESS\<close>).
\<close>

theorem upsert_new_row_status:
  assumes "\<forall>r \<in> set rows. url r \<noteq> cand_url c"
  shows "elite_upsert c rows = rows @ [new_lead c] \<and>
         status (last (elite_upsert c rows)) =
           (if LeadScore c > 7 then PRIORITY else READY_TO_PROCESS)"
proof -
  have "\<not> list_ex (\<lambda>r. url r = Some u) rows" if "cand_url c = Some u" for u
    using assms that by (auto simp: list_ex_iff)
  then have "elite_upsert c rows = rows @ [new_lead c]"
    by (auto simp: elite_upsert_def split: option.splits)
  then show ?thesis by (simp add: new_lead_def classify_def)
qed

theorem upsert_new_row_status_witness:
  "status (last (elite_upsert \<lparr>AgencyName = ''A'', LeadScore = 8, Sector = ''Luxury'',
      City = ''Lugano'', Phone = ''1'', cand_url = Some ''a.ch/1''\<rparr> [])) = PRIORITY \<and>
   status (last (elite_upsert \<lparr>AgencyName = ''A'', LeadScore = 7, Sector = ''Luxury'',
      City = ''Lugano'', Phone = ''1'', cand_url = Some ''a.ch/1''\<rparr> [])) = READY_TO_PROCESS"
  using upsert_new_row_status[of "[]" "\<lparr>AgencyName = ''A'', LeadScore = 8, Sector = ''Luxury'',
      City = ''Lugano'', Phone = ''1'', cand_url = Some ''a.ch/1''\<rparr>"]
    upsert_new_row_status[of "[]" "\<lparr>AgencyName = ''A'', LeadScore = 7, Sector = ''Luxury'',
      City = ''Lugano'', Phone = ''1'', cand_url = Some ''a.ch/1''\<rparr>"]
  by (simp add: new_lead_def classify_def)

text \<open>
  C21. The upsert re-derives the status of a row it matches, whatever that status was: a
  lead already \<open>DONE\<close>, \<open>FAILED\<close> or \<open>IN_PROGRESS\<close> whose url is scraped again gets
  \<open>PRIORITY\<close> or \<open>READY_TO_PROCESS\<close> back, so it becomes claimable again.
\<close>

theorem elite_upsert_rederives_status:
  assumes "cand_url c = Some u" and "i < length rows" and "url (rows ! i) = Some u"
  shows "status (elite_upsert c rows ! i) =
           (if LeadScore c > 7 then PRIORITY else READY_TO_PROCESS)"
proof -
  from assms(2,3) have "list_ex (\<lambda>r. url r = Some u) rows"
    by (auto simp: list_ex_iff intro: nth_mem[of i rows, THEN bexI[rotated]])
  with assms show ?thesis by (simp add: elite_upsert_def upsert_fields_def classify_def)
qed

theorem elite_upsert_rederives_status_witness:
  "status (elite_upsert \<lparr>AgencyName = ''A'', LeadScore = 9, Sector = ''Luxury'',
      City = ''Lugano'', Phone = ''1'', cand_url = Some ''a.ch/1''\<rparr>
     [\<lparr>airtable_id = Some ''rec1'', url = Some ''a.ch/1'', company_name = ''A'', lead_score = 9,
       sector = ''Luxury'', status = DONE\<rparr>] ! 0) = PRIORITY"
  using elite_upsert_rederives_status[of "\<lparr>AgencyName = ''A'', LeadScore = 9, Sector = ''Luxury'',
      City = ''Lugano'', Phone = ''1'', cand_url = Some ''a.ch/1''\<rparr>" "''a.ch/1''" 0]
  by simp

text \<open>
  C22. With a url on the item, the upsert is idempotent: running the same candidate twice
  leaves the table as running it once.
\<close>

theorem elite_upsert_idem:
  assumes "cand_url c \<noteq> None"
  shows "elite_upsert c (elite_upsert c rows) = elite_upsert c rows"
proof -
  from assms obtain u where u: "cand_url c = Some u" by auto
  show ?thesis
  proof (cases "list_ex (\<lambda>r. url r = Some u) rows")
    case True
    with u show ?thesis
      by (simp add: elite_upsert_def list_ex_upsert_map upsert_fields_def)
  next
    case False
    have "list_ex (\<lambda>r. url r = Some u) (rows @ [new_lead c])"
      using u by (simp add: list_ex_iff new_lead_def)
    moreover have "map (\<lambda>r. if url r = Some u then upsert_fields c r else r) (rows @ [new_lead c])
        = rows @ [new_lead c]"
      using False u by (auto simp: list_ex_iff upsert_fields_def new_lead_def intro!: map_idI)
    ultimately show ?thesis using False u by (simp add: elite_upsert_def)
  qed
qed

theorem elite_upsert_idem_witness:
  "elite_upsert \<lparr>AgencyName = ''A'', LeadScore = 9, Sector = ''Luxury'', City = ''Lugano'',
      Phone = ''1'', cand_url = Some ''a.ch/1''\<rparr>
    (elite_upsert \<lparr>AgencyName = ''A'', LeadScore = 9, Sector = ''Luxury'', City = ''Lugano'',
      Phone = ''1'', cand_url = Some ''a.ch/1''\<rparr> []) =
   elite_upsert \<lparr>AgencyName = ''A'', LeadScore = 9, Sector = ''Luxury'', City = ''Lugano'',
      Phone = ''1'', cand_url = Some ''a.ch/1''\<rparr> []"
  by (rule elite_upsert_idem) simp

text \<open>
  C23. An item without a url (the parser's prompt extracts none) never conflicts: each
  upsert appends a new row, so the same candidate upserted twice is stored twice.
\<close>

theorem elite_upsert_no_url_duplicates:
  assumes "cand_url c = None"
  shows "elite_upsert c (elite_upsert c rows) = rows @ [new_lead c, new_lead c]"
  using assms by (simp add: elite_upsert_def)

theorem elite_upsert_no_url_duplicates_witness:
  "elite_upsert \<lparr>AgencyName = ''A'', LeadScore = 9, Sector = ''Luxury'', City = ''Lugano'',
      Phone = ''1'', cand_url = None\<rparr>
    (elite_upsert \<lparr>AgencyName = ''A'', LeadScore = 9, Sector = ''Luxury'', City = ''Lugano'',
      Phone = ''1'', cand_url = None\<rparr> []) =
   [new_lead \<lparr>AgencyName = ''A'', LeadScore = 9, Sector = ''Luxury'', City = ''Lugano'',
      Phone = ''1'', cand_url = None\<rparr>,
    new_lead \<lparr>AgencyName = ''A'', LeadScore = 9, Sector = ''Luxury'', City = ''Lugano'',
      Phone = ''1'', cand_url = None\<rparr>]"
  using elite_upsert_no_url_duplicates[of "\<lparr>AgencyName = ''A'', LeadScore = 9,
      Sector = ''Luxury'', City = ''Lugano'', Phone = ''1'', cand_url = None\<rparr>" "[]"]
  by simp

text \<open>
  Table invariant: every operation that writes the table (lock, release, upsert) keeps
  each non-null url in at most one row.
\<close>

lemma urls_unique_preserved:
  assumes "urls_unique rows"
  shows "urls_unique (lock_lead k rows) \<and> urls_unique (release_lock k rows) \<and>
         urls_unique (elite_upsert c rows)"
proof (intro conjI)
  show "urls_unique (lock_lead k rows)" "urls_unique (release_lock k rows)"
    using assms
    by (simp_all add: urls_unique_def lock_lead_def release_lock_def map_filter_url_set_status)
  show "urls_unique (elite_upsert c rows)" using assms by (rule urls_unique_elite_upsert)
qed

end
