(* ===== verification/Orchestrator.thy ===== *)
theory Orchestrator
  imports LeadStore
begin

text \<open>
  The batch run that src/execution/perfect_workflow.py wires into the legacy workflow, and
  the error path it adds. The script itself only builds a JSON document (theory
  \<open>PerfectWorkflow\<close>); this theory gives the nodes it adds their effect and composes them
  the way its connections do:
  \<^item> \<open>Batch Leads (Volume)\<close> (lines 189-214) keeps the first \<open>batchSize = 50\<close> fetched
    leads (\<open>batch_size\<close>). As a \<open>splitInBatches\<close> node of typeVersion 3 it emits them on
    its output 1 (\<open>split_in_batches_v3\<close>), while the script connects Split Leads1 to
    output 0; \<open>run_items\<close> and \<open>batch_run\<close> follow the script's comment and let the batch
    reach Split Leads1, and the root theory shows what the v3 node does instead;
  \<^item> per lead, \<open>Split Leads1 \<rightarrow> Lock Lead Status \<rightarrow> Anti-Rate Limit Wait \<rightarrow>
    Check if Mobile Number\<close> (lines 249-258): the blind lock of \<open>LeadStore.lock_lead\<close>,
    a wait of \<open>Math.floor(Math.random() * 4) + 2\<close> seconds (line 238, \<open>wait_amount\<close>),
    then the legacy contact flow, an external collaborator whose result is an \<open>outcome\<close>;
  \<^item> on an error, \<open>Error Trigger \<rightarrow> Airtable - Mark Failed \<rightarrow> Supabase - Release Lock\<close>
    (lines 62-142): an Airtable \<open>update\<close> of the record whose id is the execution id
    (line 83), then, only if that node succeeded, the Supabase update to \<open>READY_RETRY\<close>
    matched with the identifier the error item carries, which is the execution id: the
    error execution knows nothing of the lead in flight.
  \<open>Math.random()\<close> is modelled as \<open>k / 2^p\<close> with \<open>k < 2^p\<close> (V8 draws \<open>p = 52\<close> or
  \<open>53\<close> bits); multiplying by 4 is exact in floating point, so the wait is \<open>4k div 2^p + 2\<close>.
  Runs are sequential inside (\<open>run_items\<close>) and interleave with each other
  (\<open>sys_step\<close>): the lock is the only synchronisation between runs.
\<close>

section \<open>Random draws and the anti-rate-limit wait\<close>

definition wait_amount :: "nat \<Rightarrow> nat \<Rightarrow> nat" where
  "wait_amount p k = floor_random p k 4 + 2"

definition batch_size :: nat where
  "batch_size = 50"

text \<open>
  What Batch Leads (Volume), an n8n \<open>splitInBatches\<close> node of typeVersion 3 (line 199), emits
  the first time it runs in an execution, as the pair of its outputs (\<open>done\<close>, \<open>loop\<close>):
  the node returns the first \<open>n\<close> items on \<open>loop\<close> (output 1) and the items processed
  so far, none yet, on \<open>done\<close> (output 0) only when no item is left to return.
\<close>

definition split_in_batches_v3 :: "nat \<Rightarrow> 'a list \<Rightarrow> 'a list \<times> 'a list" where
  "split_in_batches_v3 n items =
     (let returned = take n items; processed = [] in
      if returned = [] then (processed, []) else ([], returned))"

section \<open>The tracking table and the compensation path\<close>

record track_row =
  track_status :: string
  error_log :: string

type_synonym tracking = "(string \<times> track_row) list"

text \<open>
  \<open>Airtable - Mark Failed\<close>: an update matched on the record id; Airtable refuses an update
  of a record that does not exist, and the node fails (\<open>None\<close>).
\<close>

definition mark_failed :: "string \<Rightarrow> string \<Rightarrow> tracking \<Rightarrow> tracking option" where
  "mark_failed exec msg t =
     (case dict_get t exec of
        None \<Rightarrow> None
      | Some row \<Rightarrow> Some (dict_set t exec (row\<lparr>track_status := ''FAILED'', error_log := msg\<rparr>)))"

record orch =
  leads :: leads
  tracking :: tracking
  waited :: nat
  handed :: "string list"

text \<open>
  The error workflow: the release runs after the audit write and only when it succeeded,
  matched with the execution id.
\<close>

definition compensate :: "string \<Rightarrow> string \<Rightarrow> orch \<Rightarrow> orch" where
  "compensate exec msg s =
     (case mark_failed exec msg (tracking s) of
        None \<Rightarrow> s
      | Some t \<Rightarrow> s\<lparr>tracking := t, leads := release_lock exec (leads s)\<rparr>)"

section \<open>One run\<close>

text \<open>What happens to one lead after the wait: the contact flow delivers, or a node fails.\<close>

datatype outcome =
    Delivered
  | ProcessingFailed string
  | LockFailed string

datatype config_fetch =
    Fetched
  | FetchError string

text \<open>
  One lead: lock, wait, hand over. \<open>Inl\<close> is an execution stopped by an error, after the
  error workflow ran.
\<close>

definition process_item :: "string \<Rightarrow> nat \<Rightarrow> string \<Rightarrow> nat \<Rightarrow> outcome \<Rightarrow> orch \<Rightarrow> orch + orch" where
  "process_item exec p key k out s =
     (case out of
        LockFailed msg \<Rightarrow> Inl (compensate exec msg s)
      | _ \<Rightarrow>
         (let s1 = s\<lparr>leads := lock_lead key (leads s)\<rparr>;
              s2 = s1\<lparr>waited := waited s1 + wait_amount p k\<rparr>
          in case out of
               ProcessingFailed msg \<Rightarrow> Inl (compensate exec msg s2)
             | _ \<Rightarrow> Inr (s2\<lparr>handed := handed s2 @ [key]\<rparr>)))"

text \<open>The items of one batch in order; the second component is \<open>False\<close> when an error stopped the execution.\<close>

fun run_items :: "string \<Rightarrow> nat \<Rightarrow> (string \<times> nat \<times> outcome) list \<Rightarrow> orch \<Rightarrow> orch \<times> bool" where
  "run_items exec p [] s = (s, True)"
| "run_items exec p ((key, k, out) # xs) s =
     (case process_item exec p key k out s of
        Inl s' \<Rightarrow> (s', False)
      | Inr s' \<Rightarrow> run_items exec p xs s')"

text \<open>
  A run: \<open>Fetch Dynamic Config\<close> first (lines 163-187); its failure is an error of the
  execution and goes to the error workflow before any lead is locked. Then the first
  \<open>batch_size\<close> fetched leads.
\<close>

definition batch_run ::
  "string \<Rightarrow> nat \<Rightarrow> config_fetch \<Rightarrow> (string \<times> nat \<times> outcome) list \<Rightarrow> orch \<Rightarrow> orch \<times> bool" where
  "batch_run exec p cfg items s =
     (case cfg of
        FetchError msg \<Rightarrow> (compensate exec msg s, False)
      | Fetched \<Rightarrow> run_items exec p (take batch_size items) s)"

section \<open>Concurrent runs\<close>

text \<open>
  Several scheduled runs at once, each at a point of its per-lead sequence; each has its
  own queue (its batch) and its own execution id. The three lease operations are
  parameters, so that the code's and a conditional-update variant share the machine.
\<close>

datatype run_pc =
    Ready
  | Holding string
  | Gated string
  | Stopped

record sys =
  store :: leads
  pcs :: "nat \<Rightarrow> run_pc"
  queue :: "nat \<Rightarrow> string list"
  delivered :: "(nat \<times> string) list"

record lease_ops =
  op_claim :: "string \<Rightarrow> leads \<Rightarrow> leads option"
  op_resolve :: "nat \<Rightarrow> string \<Rightarrow> leads \<Rightarrow> leads"
  op_compensate :: "nat \<Rightarrow> string \<Rightarrow> leads \<Rightarrow> leads list"

inductive sys_step :: "lease_ops \<Rightarrow> sys \<Rightarrow> sys \<Rightarrow> bool" for ops where
  claim: "pcs s r = Ready \<Longrightarrow> queue s r = k # ks \<Longrightarrow> op_claim ops k (store s) = Some st \<Longrightarrow>
    sys_step ops s (s\<lparr>store := st, pcs := (pcs s)(r := Holding k), queue := (queue s)(r := ks)\<rparr>)"
| skip: "pcs s r = Ready \<Longrightarrow> queue s r = k # ks \<Longrightarrow> op_claim ops k (store s) = None \<Longrightarrow>
    sys_step ops s (s\<lparr>queue := (queue s)(r := ks)\<rparr>)"
| gate: "pcs s r = Holding k \<Longrightarrow> sys_step ops s (s\<lparr>pcs := (pcs s)(r := Gated k)\<rparr>)"
| deliver: "pcs s r = Gated k \<Longrightarrow>
    sys_step ops s (s\<lparr>store := op_resolve ops r k (store s), pcs := (pcs s)(r := Ready),
                      delivered := (r, k) # delivered s\<rparr>)"
| fail: "pcs s r = Holding k \<or> pcs s r = Gated k \<Longrightarrow> st \<in> set (op_compensate ops r k (store s)) \<Longrightarrow>
    sys_step ops s (s\<lparr>store := st, pcs := (pcs s)(r := Stopped)\<rparr>)"

definition init_sys :: "leads \<Rightarrow> (nat \<Rightarrow> string list) \<Rightarrow> sys" where
  "init_sys rows qs = \<lparr>store = rows, pcs = (\<lambda>_. Ready), queue = qs, delivered = []\<rparr>"

text \<open>
  The code's operations: the blind lock always succeeds, a delivered lead is not written
  back (no node of the repository sets \<open>DONE\<close>), and the error workflow either releases
  the rows keyed by the execution id or, when the audit write failed, nothing.
\<close>

definition code_ops :: "(nat \<Rightarrow> string) \<Rightarrow> lease_ops" where
  "code_ops ex =
     \<lparr>op_claim = (\<lambda>k rows. Some (lock_lead k rows)),
      op_resolve = (\<lambda>r k rows. rows),
      op_compensate = (\<lambda>r k rows. [release_lock (ex r) rows, rows])\<rparr>"

text \<open>
  The lease contract of spec section 4.1, \<open>tryClaim\<close>: a conditional update that moves the
  eligible rows of the lead to \<open>IN_PROGRESS\<close> and fails when there is none.
\<close>

definition claimable :: "string \<Rightarrow> leads \<Rightarrow> bool" where
  "claimable k rows \<longleftrightarrow> list_ex (\<lambda>x. airtable_id x = Some k \<and> eligible (status x)) rows"

definition try_claim :: "string \<Rightarrow> leads \<Rightarrow> leads option" where
  "try_claim k rows =
     (if claimable k rows
      then Some (map (\<lambda>x. if airtable_id x = Some k \<and> eligible (status x)
                         then x\<lparr>status := IN_PROGRESS\<rparr> else x) rows)
      else None)"

text \<open>The code's operations with the lock replaced by the conditional claim.\<close>

definition conditional_ops :: "(nat \<Rightarrow> string) \<Rightarrow> lease_ops" where
  "conditional_ops ex = (code_ops ex)\<lparr>op_claim := try_claim\<rparr>"

text \<open>
  What the mutual-exclusion argument needs of the operations, for the leads of a key set
  \<open>K\<close>: a claim succeeds only on a claimable lead and leaves it unclaimable, and no
  operation on one lead makes another lead of \<open>K\<close> claimable.
\<close>

definition lease_contract :: "string set \<Rightarrow> lease_ops \<Rightarrow> bool" where
  "lease_contract K ops \<longleftrightarrow>
     (\<forall>k rows rows'. op_claim ops k rows = Some rows' \<longrightarrow> claimable k rows \<and> \<not> claimable k rows') \<and>
     (\<forall>k j rows rows'. op_claim ops k rows = Some rows' \<longrightarrow> j \<noteq> k \<longrightarrow>
        \<not> claimable j rows \<longrightarrow> \<not> claimable j rows') \<and>
     (\<forall>r k j rows. j \<noteq> k \<longrightarrow> j \<in> K \<longrightarrow> \<not> claimable j rows \<longrightarrow>
        \<not> claimable j (op_resolve ops r k rows)) \<and>
     (\<forall>r k j rows st. st \<in> set (op_compensate ops r k rows) \<longrightarrow> j \<noteq> k \<longrightarrow> j \<in> K \<longrightarrow>
        \<not> claimable j rows \<longrightarrow> \<not> claimable j st)"

definition holds :: "sys \<Rightarrow> nat \<Rightarrow> string \<Rightarrow> bool" where
  "holds s r k \<longleftrightarrow> pcs s r = Holding k \<or> pcs s r = Gated k"

definition lease_inv :: "string set \<Rightarrow> sys \<Rightarrow> bool" where
  "lease_inv K s \<longleftrightarrow>
     (\<forall>r. set (queue s r) \<subseteq> K) \<and>
     (\<forall>r k. holds s r k \<longrightarrow> k \<in> K \<and> \<not> claimable k (store s)) \<and>
     (\<forall>r r' k. holds s r k \<longrightarrow> holds s r' k \<longrightarrow> r = r')"

section \<open>Lemmas\<close>

subsection \<open>The lease invariant\<close>


lemma lease_inv_init: "(\<forall>r. set (qs r) \<subseteq> K) \<Longrightarrow> lease_inv K (init_sys rows qs)"
  by (simp add: lease_inv_def init_sys_def holds_def)

lemma holds_upd [simp]:
  "holds (s\<lparr>pcs := (pcs s)(r := pc)\<rparr>) r' k \<longleftrightarrow>
     (if r' = r then pc = Holding k \<or> pc = Gated k else holds s r' k)"
  by (simp add: holds_def)

lemma holds_store [simp]: "holds (s\<lparr>store := st\<rparr>) = holds s"
  by (simp add: holds_def fun_eq_iff)

lemma holds_queue [simp]: "holds (s\<lparr>queue := q\<rparr>) = holds s"
  by (simp add: holds_def fun_eq_iff)

lemma holds_delivered [simp]: "holds (s\<lparr>delivered := d\<rparr>) = holds s"
  by (simp add: holds_def fun_eq_iff)

lemma queue_pop_subset:
  "queue s r = k # ks \<Longrightarrow> \<forall>r. set (queue s r) \<subseteq> K \<Longrightarrow> set (((queue s)(r := ks)) r') \<subseteq> K"
  by (metis fun_upd_apply set_subset_Cons subset_trans)

text \<open>A holder's release: the run gives its lead up, the store changes only for its lead.\<close>

lemma lease_inv_release:
  assumes inv: "lease_inv K s" and hr: "holds s r k"
    and frame: "\<And>j. j \<noteq> k \<Longrightarrow> j \<in> K \<Longrightarrow> \<not> claimable j (store s) \<Longrightarrow> \<not> claimable j st"
    and pc: "pc = Ready \<or> pc = Stopped"
  shows "lease_inv K (s\<lparr>store := st, pcs := (pcs s)(r := pc), delivered := d\<rparr>)"
proof -
  let ?t = "s\<lparr>store := st, pcs := (pcs s)(r := pc), delivered := d\<rparr>"
  have uniq: "r' = r" if "holds s r' k" for r' using inv hr that by (auto simp: lease_inv_def)
  have "k' \<in> K \<and> \<not> claimable k' st" if "holds ?t r' k'" for r' k'
  proof -
    from that pc have r': "r' \<noteq> r" and h: "holds s r' k'"
      by (auto simp: holds_def split: if_splits)
    from h r' uniq have "k' \<noteq> k" by auto
    moreover from inv h have "k' \<in> K" "\<not> claimable k' (store s)" by (auto simp: lease_inv_def)
    ultimately show ?thesis using frame by auto
  qed
  moreover have "r1 = r2" if "holds ?t r1 k'" "holds ?t r2 k'" for r1 r2 k'
    using that inv pc by (auto simp: lease_inv_def holds_def split: if_splits)
  ultimately show ?thesis using inv by (auto simp: lease_inv_def)
qed

text \<open>A claim by a ready run: it takes a lead of its queue that nobody holds.\<close>

lemma lease_inv_claim:
  assumes inv: "lease_inv K s" and c: "lease_contract K ops"
    and claim: "pcs s r = Ready" "queue s r = k # ks" "op_claim ops k (store s) = Some st"
  shows "lease_inv K (s\<lparr>store := st, pcs := (pcs s)(r := Holding k), queue := (queue s)(r := ks)\<rparr>)"
proof -
  let ?t = "s\<lparr>store := st, pcs := (pcs s)(r := Holding k), queue := (queue s)(r := ks)\<rparr>"
  from c claim(3) have cl: "claimable k (store s)" and ncl: "\<not> claimable k st"
    by (auto simp: lease_contract_def)
  from inv have "set (queue s r) \<subseteq> K" by (simp add: lease_inv_def)
  with claim(2) have kK: "k \<in> K" by simp
  have other: "\<not> holds s r' k" for r'
    using inv cl by (auto simp: lease_inv_def)
  have nr: "\<not> holds s r j" for j using claim(1) by (simp add: holds_def)
  have held: "j \<in> K \<and> \<not> claimable j st" if "holds ?t r' j" for r' j
  proof (cases "r' = r")
    case True
    with that have "j = k" by (simp add: holds_def)
    with kK ncl show ?thesis by simp
  next
    case False
    with that have h: "holds s r' j" by (simp add: holds_def)
    with inv have "j \<in> K" "\<not> claimable j (store s)" by (auto simp: lease_inv_def)
    moreover from h other have "j \<noteq> k" by auto
    ultimately show ?thesis using c claim(3) by (auto simp: lease_contract_def)
  qed
  have uniq: "r1 = r2" if "holds ?t r1 j" "holds ?t r2 j" for r1 r2 j
    using that inv other nr by (auto simp: lease_inv_def holds_def split: if_splits)
  have "set (queue ?t r') \<subseteq> K" for r'
    using queue_pop_subset[OF claim(2)] inv by (simp add: lease_inv_def)
  with held uniq show ?thesis by (auto simp: lease_inv_def)
qed

lemma sys_step_lease_inv:
  assumes step: "sys_step ops s t" and c: "lease_contract K ops" and inv: "lease_inv K s"
  shows "lease_inv K t"
  using step
proof cases
  case (claim r k ks st)
  then show ?thesis using lease_inv_claim[OF inv c] by blast
next
  case (skip r k ks)
  have "set (queue t r') \<subseteq> K" for r'
    using queue_pop_subset[OF skip(3)] inv skip(1) by (simp add: lease_inv_def)
  then show ?thesis using inv skip(1) by (simp add: lease_inv_def)
next
  case (gate r k)
  then show ?thesis using inv by (auto simp: lease_inv_def holds_def)
next
  case (deliver r k)
  have "holds s r k" using deliver(2) by (simp add: holds_def)
  moreover have "\<not> claimable j (op_resolve ops r k (store s))"
    if "j \<noteq> k" "j \<in> K" "\<not> claimable j (store s)" for j
    using c that by (simp add: lease_contract_def)
  ultimately show ?thesis using deliver(1) lease_inv_release[OF inv] by simp
next
  case (fail r k st)
  have "holds s r k" using fail(2) by (simp add: holds_def)
  moreover have "\<not> claimable j st" if "j \<noteq> k" "j \<in> K" "\<not> claimable j (store s)" for j
    using c that fail(3) by (simp add: lease_contract_def)
  ultimately show ?thesis using fail(1) lease_inv_release[OF inv, of r k st Stopped "delivered s"] by simp
qed

lemma reach_lease_inv:
  assumes "(sys_step ops)\<^sup>*\<^sup>* s0 s" and "lease_contract K ops" and "lease_inv K s0"
  shows "lease_inv K s"
  using assms(1,3)
proof (induction rule: rtranclp_induct)
  case base
  then show ?case .
next
  case (step t u)
  then show ?case using sys_step_lease_inv assms(2) by blast
qed


lemma claimable_set_status_other:
  "j \<noteq> key \<Longrightarrow> claimable j (set_status_where key st rows) = claimable j rows"
  by (induction rows) (auto simp: claimable_def set_status_where_def)

lemma try_claim_Some:
  assumes "try_claim k rows = Some rows'"
  shows "claimable k rows \<and> \<not> claimable k rows' \<and> (\<forall>j. j \<noteq> k \<longrightarrow> claimable j rows' = claimable j rows)"
proof -
  from assms have c: "claimable k rows" and r: "rows' = map (\<lambda>x. if airtable_id x = Some k \<and> eligible (status x)
                         then x\<lparr>status := IN_PROGRESS\<rparr> else x) rows"
    by (auto simp: try_claim_def split: if_splits)
  have "\<not> claimable k rows'" unfolding r claimable_def
    by (induction rows) (auto simp: eligible_def)
  moreover have "claimable j rows' = claimable j rows" if "j \<noteq> k" for j
    unfolding r claimable_def using that by (induction rows) auto
  ultimately show ?thesis using c by blast
qed

lemma conditional_ops_contract:
  assumes "\<forall>r. ex r \<notin> K"
  shows "lease_contract K (conditional_ops ex)"
proof -
  have "\<not> claimable j st"
    if "st \<in> set (op_compensate (conditional_ops ex) r k rows)" "j \<in> K" "\<not> claimable j rows" for r k j rows st
  proof -
    from assms that(2) have "j \<noteq> ex r" by auto
    with that show ?thesis
      by (auto simp: conditional_ops_def code_ops_def release_lock_def claimable_set_status_other)
  qed
  then show ?thesis
    using try_claim_Some by (auto simp: lease_contract_def conditional_ops_def code_ops_def)
qed


lemma pow2_split: "2 \<le> p \<Longrightarrow> (2::nat) ^ p = 4 * 2 ^ (p - 2)"
  by (metis le_add_diff_inverse numeral_Bit0_eq_double power2_eq_square power_add)

lemma floor_random_4: "2 \<le> p \<Longrightarrow> floor_random p k 4 = k div 2 ^ (p - 2)"
  by (simp add: floor_random_def pow2_split)


lemma mark_failed_Some_get:
  "mark_failed exec msg t = Some t' \<Longrightarrow> dict_get t' exec \<noteq> None"
  by (auto simp: mark_failed_def split: option.splits)

lemma mark_failed_idem:
  assumes "mark_failed exec msg t = Some t'"
  shows "mark_failed exec msg t' = Some t'"
proof -
  from assms obtain row where row: "dict_get t exec = Some row"
    and t': "t' = dict_set t exec (row\<lparr>track_status := ''FAILED'', error_log := msg\<rparr>)"
    by (auto simp: mark_failed_def split: option.splits)
  then show ?thesis by (simp add: mark_failed_def dict_set_idem)
qed

lemma leads_compensate:
  "leads (compensate exec msg s) = leads s \<or> leads (compensate exec msg s) = release_lock exec (leads s)"
  by (simp add: compensate_def split: option.splits)

lemma process_item_failed:
  "process_item exec p key k (ProcessingFailed msg) s =
     Inl (compensate exec msg (s\<lparr>leads := lock_lead key (leads s), waited := waited s + wait_amount p k\<rparr>))"
  by (simp add: process_item_def)

lemma rows_of_lock_same: "rows_of key (lock_lead key rows) = map (\<lambda>r. r\<lparr>status := IN_PROGRESS\<rparr>) (rows_of key rows)"
  by (simp add: lock_lead_def rows_of_set_status_where)

lemma rows_of_lock_other: "j \<noteq> key \<Longrightarrow> rows_of j (lock_lead key rows) = rows_of j rows"
  by (simp add: lock_lead_def rows_of_set_status_other)

lemma run_items_delivered:
  assumes "\<forall>it \<in> set xs. snd (snd it) = Delivered"
  shows "run_items exec p xs s =
    (s\<lparr>leads := foldl (\<lambda>rows key. lock_lead key rows) (leads s) (map fst xs),
       waited := waited s + sum_list (map (\<lambda>it. wait_amount p (fst (snd it))) xs),
       handed := handed s @ map fst xs\<rparr>, True)"
  using assms
proof (induction xs arbitrary: s)
  case Nil
  then show ?case by simp
next
  case (Cons it xs)
  obtain key k out where it: "it = (key, k, out)" by (cases it) auto
  with Cons.prems have out: "out = Delivered" by simp
  show ?case using Cons.IH[of "s\<lparr>leads := lock_lead key (leads s), waited := waited s + wait_amount p k,
       handed := handed s @ [key]\<rparr>"] Cons.prems
    by (simp add: it out process_item_def)
qed

lemma foldl_lock_untouched:
  "airtable_id r \<notin> Some ` set ks \<Longrightarrow> i < length rows \<Longrightarrow> rows ! i = r \<Longrightarrow>
   foldl (\<lambda>rows key. lock_lead key rows) rows ks ! i = r"
  by (induction ks arbitrary: rows) (auto simp: lock_lead_def set_status_where_nth)

lemma foldl_lock_rows_of:
  "rows_of j (foldl (\<lambda>rows key. lock_lead key rows) rows ks) =
     (if j \<in> set ks then map (\<lambda>r. r\<lparr>status := IN_PROGRESS\<rparr>) (rows_of j rows) else rows_of j rows)"
proof (induction ks arbitrary: rows)
  case Nil
  then show ?case by simp
next
  case (Cons key ks)
  show ?case
  proof (cases "j = key")
    case True
    then show ?thesis
      using Cons.IH[of "lock_lead key rows"] by (simp add: rows_of_lock_same comp_def)
  next
    case False
    then show ?thesis
      using Cons.IH[of "lock_lead key rows"] by (simp add: rows_of_lock_other)
  qed
qed

lemma rows_of_compensate:
  "key \<noteq> exec \<Longrightarrow> rows_of key (leads (compensate exec msg s)) = rows_of key (leads s)"
  using leads_compensate[of exec msg s]
  by (auto simp: release_lock_def rows_of_set_status_other)


subsection \<open>Rows a run cannot reach\<close>

lemma compensate_keeps_unkeyed: "keeps_unkeyed (leads s) (leads (compensate exec msg s))"
  by (auto simp: compensate_def Let_def release_lock_def split: option.splits)

lemma process_item_keeps_unkeyed:
  "keeps_unkeyed (leads s) (leads (case process_item exec p key k out s of Inl s' \<Rightarrow> s' | Inr s' \<Rightarrow> s'))"
  by (cases out)
     (auto simp: process_item_def compensate_def Let_def lock_lead_def release_lock_def split: option.splits)

lemma run_items_keeps_unkeyed: "keeps_unkeyed (leads s) (leads (fst (run_items exec p xs s)))"
proof (induction xs arbitrary: s)
  case Nil
  then show ?case by simp
next
  case (Cons x xs)
  obtain key k out where x: "x = (key, k, out)" by (metis prod_cases3)
  show ?case
  proof (cases "process_item exec p key k out s")
    case (Inl s')
    then show ?thesis using process_item_keeps_unkeyed[of s exec p key k out] x by simp
  next
    case (Inr s')
    then show ?thesis using process_item_keeps_unkeyed[of s exec p key k out] x
        keeps_unkeyed_trans[OF _ Cons.IH[of s']] by simp
  qed
qed

lemma batch_run_keeps_unkeyed: "keeps_unkeyed (leads s) (leads (fst (batch_run exec p cfg items s)))"
  by (simp add: batch_run_def compensate_keeps_unkeyed run_items_keeps_unkeyed split: config_fetch.split)

section \<open>Properties\<close>

subsection \<open>Mutual exclusion between concurrent runs\<close>

text \<open>
  C1. The code's lock is a blind update: two runs whose batches both contain a lead both
  lock it, both wait and both hand it to the contact flow, for any table and any execution
  ids. Spec property P1 (at most one successful claim per lead) does not hold for the code.
\<close>

theorem code_double_delivery:
  "\<exists>s. (sys_step (code_ops ex))\<^sup>*\<^sup>* (init_sys rows (\<lambda>_. [k])) s \<and>
       (0, k) \<in> set (delivered s) \<and> (1, k) \<in> set (delivered s)"
proof -
  let ?ops = "code_ops ex"
  let ?s0 = "init_sys rows (\<lambda>_. [k])"
  let ?s1 = "?s0\<lparr>store := lock_lead k (store ?s0), pcs := (pcs ?s0)(0 := Holding k), queue := (queue ?s0)(0 := [])\<rparr>"
  let ?s2 = "?s1\<lparr>store := lock_lead k (store ?s1), pcs := (pcs ?s1)(1 := Holding k), queue := (queue ?s1)(1 := [])\<rparr>"
  let ?s3 = "?s2\<lparr>pcs := (pcs ?s2)(0 := Gated k)\<rparr>"
  let ?s4 = "?s3\<lparr>pcs := (pcs ?s3)(1 := Gated k)\<rparr>"
  let ?s5 = "?s4\<lparr>store := op_resolve ?ops 0 k (store ?s4), pcs := (pcs ?s4)(0 := Ready), delivered := (0, k) # delivered ?s4\<rparr>"
  let ?s6 = "?s5\<lparr>store := op_resolve ?ops 1 k (store ?s5), pcs := (pcs ?s5)(1 := Ready), delivered := (1, k) # delivered ?s5\<rparr>"
  have "sys_step ?ops ?s0 ?s1"
    by (rule sys_step.claim) (simp_all add: init_sys_def code_ops_def)
  moreover have "sys_step ?ops ?s1 ?s2"
    by (rule sys_step.claim) (simp_all add: init_sys_def code_ops_def)
  moreover have "sys_step ?ops ?s2 ?s3"
    by (rule sys_step.gate) (simp add: init_sys_def)
  moreover have "sys_step ?ops ?s3 ?s4"
    by (rule sys_step.gate) (simp add: init_sys_def)
  moreover have "sys_step ?ops ?s4 ?s5"
    by (rule sys_step.deliver) (simp add: init_sys_def)
  moreover have "sys_step ?ops ?s5 ?s6"
    by (rule sys_step.deliver) (simp add: init_sys_def)
  ultimately have "(sys_step ?ops)\<^sup>*\<^sup>* ?s0 ?s6"
    by (meson rtranclp.rtrancl_into_rtrancl rtranclp.rtrancl_refl)
  then show ?thesis by (intro exI[of _ ?s6]) (simp add: init_sys_def)
qed


text \<open>
  C2. With the lock replaced by the conditional claim the spec asks for (\<open>tryClaim\<close>)
  and the code's compensation kept, no two runs ever hold the same lead, in any
  interleaving, provided execution ids are never lead ids and the batches contain leads only.
\<close>

theorem conditional_claim_mutual_exclusion:
  assumes "\<forall>r. ex r \<notin> K" and "\<forall>r. set (qs r) \<subseteq> K"
    and "(sys_step (conditional_ops ex))\<^sup>*\<^sup>* (init_sys rows qs) s"
    and "holds s r k" and "holds s r' k"
  shows "r = r'"
proof -
  have "lease_inv K s"
    using reach_lease_inv[OF assms(3) conditional_ops_contract[OF assms(1)] lease_inv_init[OF assms(2)]] .
  with assms(4,5) show ?thesis by (auto simp: lease_inv_def)
qed

theorem conditional_claim_mutual_exclusion_witness:
  "(sys_step (conditional_ops (\<lambda>_. ''exec1'')))\<^sup>*\<^sup>*
      (init_sys [\<lparr>airtable_id = Some ''rec1'', url = Some ''a.ch/1'', company_name = ''A'', lead_score = 9,
       sector = ''Luxury'', status = PRIORITY\<rparr>] (\<lambda>_. [''rec1'']))
      ((init_sys [\<lparr>airtable_id = Some ''rec1'', url = Some ''a.ch/1'', company_name = ''A'', lead_score = 9,
       sector = ''Luxury'', status = PRIORITY\<rparr>] (\<lambda>_. [''rec1'']))
         \<lparr>store := [\<lparr>airtable_id = Some ''rec1'', url = Some ''a.ch/1'', company_name = ''A'', lead_score = 9,
       sector = ''Luxury'', status = PRIORITY\<rparr>\<lparr>status := IN_PROGRESS\<rparr>],
          pcs := (\<lambda>_. Ready)(0 := Holding ''rec1''), queue := (\<lambda>_. [''rec1''])(0 := [])\<rparr>) \<and>
   \<not> holds ((init_sys [\<lparr>airtable_id = Some ''rec1'', url = Some ''a.ch/1'', company_name = ''A'', lead_score = 9,
       sector = ''Luxury'', status = PRIORITY\<rparr>] (\<lambda>_. [''rec1'']))
         \<lparr>store := [\<lparr>airtable_id = Some ''rec1'', url = Some ''a.ch/1'', company_name = ''A'', lead_score = 9,
       sector = ''Luxury'', status = PRIORITY\<rparr>\<lparr>status := IN_PROGRESS\<rparr>],
          pcs := (\<lambda>_. Ready)(0 := Holding ''rec1''), queue := (\<lambda>_. [''rec1''])(0 := [])\<rparr>) 1 ''rec1''"
proof -
  let ?s0 = "init_sys [\<lparr>airtable_id = Some ''rec1'', url = Some ''a.ch/1'', company_name = ''A'', lead_score = 9,
       sector = ''Luxury'', status = PRIORITY\<rparr>] (\<lambda>_. [''rec1''])"
  let ?s1 = "?s0\<lparr>store := [\<lparr>airtable_id = Some ''rec1'', url = Some ''a.ch/1'', company_name = ''A'', lead_score = 9,
       sector = ''Luxury'', status = PRIORITY\<rparr>\<lparr>status := IN_PROGRESS\<rparr>],
          pcs := (\<lambda>_. Ready)(0 := Holding ''rec1''), queue := (\<lambda>_. [''rec1''])(0 := [])\<rparr>"
  have step: "sys_step (conditional_ops (\<lambda>_. ''exec1'')) ?s0 ?s1"
    using sys_step.claim[of ?s0 0 "''rec1''" "[]" "conditional_ops (\<lambda>_. ''exec1'')"
        "[\<lparr>airtable_id = Some ''rec1'', url = Some ''a.ch/1'', company_name = ''A'', lead_score = 9,
       sector = ''Luxury'', status = PRIORITY\<rparr>\<lparr>status := IN_PROGRESS\<rparr>]"]
    by (simp add: init_sys_def conditional_ops_def code_ops_def try_claim_def claimable_def eligible_def)
  then have reach: "(sys_step (conditional_ops (\<lambda>_. ''exec1'')))\<^sup>*\<^sup>* ?s0 ?s1" by simp
  have h0: "holds ?s1 0 ''rec1''" by (simp add: holds_def)
  have "\<not> holds ?s1 1 ''rec1''"
    using conditional_claim_mutual_exclusion[of "\<lambda>_. ''exec1''" "{''rec1''}" "\<lambda>_. [''rec1'']"
        "[\<lparr>airtable_id = Some ''rec1'', url = Some ''a.ch/1'', company_name = ''A'', lead_score = 9,
       sector = ''Luxury'', status = PRIORITY\<rparr>]" ?s1 0 "''rec1''" 1] reach h0 by auto
  with reach show ?thesis by simp
qed

subsection \<open>The error path\<close>

text \<open>
  C5. No lost lease (spec P2) fails on the error path: when the contact flow fails for a
  lead, the error workflow releases the rows keyed by the execution id, so every row of
  the lead itself stays \<open>IN_PROGRESS\<close>.
\<close>

theorem compensation_strands_lease:
  assumes "process_item exec p key k (ProcessingFailed msg) s = Inl s'" and "exec \<noteq> key"
  shows "rows_of key (leads s') = map (\<lambda>r. r\<lparr>status := IN_PROGRESS\<rparr>) (rows_of key (leads s))"
proof -
  let ?s1 = "s\<lparr>leads := lock_lead key (leads s), waited := waited s + wait_amount p k\<rparr>"
  from assms(1) have s': "s' = compensate exec msg ?s1" by (simp add: process_item_failed)
  have "rows_of key (leads s') = rows_of key (lock_lead key (leads s))"
    using leads_compensate[of exec msg ?s1] assms(2)
    by (auto simp: s' release_lock_def rows_of_set_status_other)
  then show ?thesis by (simp add: lock_lead_def rows_of_set_status_where)
qed

theorem compensation_strands_lease_witness:
  "\<exists>s'. process_item ''exec1'' 53 ''rec1'' 0 (ProcessingFailed ''timeout'')
          \<lparr>leads = [\<lparr>airtable_id = Some ''rec1'', url = Some ''a.ch/1'', company_name = ''A'', lead_score = 9,
       sector = ''Luxury'', status = PRIORITY\<rparr>], tracking = [(''exec1'', \<lparr>track_status = ''RUNNING'', error_log = ''none''\<rparr>)],
      waited = 0, handed = []\<rparr> = Inl s' \<and>
        map status (rows_of ''rec1'' (leads s')) = [IN_PROGRESS]"
proof -
  obtain s' where s': "process_item ''exec1'' 53 ''rec1'' 0 (ProcessingFailed ''timeout'')
          \<lparr>leads = [\<lparr>airtable_id = Some ''rec1'', url = Some ''a.ch/1'', company_name = ''A'', lead_score = 9,
       sector = ''Luxury'', status = PRIORITY\<rparr>], tracking = [(''exec1'', \<lparr>track_status = ''RUNNING'', error_log = ''none''\<rparr>)],
      waited = 0, handed = []\<rparr> = Inl s'"
    by (simp add: process_item_def)
  from compensation_strands_lease[OF s'] have
    "rows_of ''rec1'' (leads s') = map (\<lambda>r. r\<lparr>status := IN_PROGRESS\<rparr>) (rows_of ''rec1'' [\<lparr>airtable_id = Some ''rec1'', url = Some ''a.ch/1'', company_name = ''A'', lead_score = 9,
       sector = ''Luxury'', status = PRIORITY\<rparr>])"
    by simp
  then have "map status (rows_of ''rec1'' (leads s')) = [IN_PROGRESS]"
    by (simp add: rows_of_def)
  with s' show ?thesis by auto
qed

text \<open>
  C6. The release is ordered after the audit write and depends on it: when the tracking
  table has no record for the execution id, the \<open>Airtable - Mark Failed\<close> update fails
  and the lock is never released, even for a lead whose id is the execution id (spec 4.4
  asks for the release to run even if the audit write fails).
\<close>

theorem audit_failure_skips_release:
  assumes "dict_get (tracking s) exec = None"
    and "process_item exec p key k (ProcessingFailed msg) s = Inl s'"
  shows "leads s' = lock_lead key (leads s) \<and> tracking s' = tracking s"
proof -
  from assms(2) have "s' = compensate exec msg
      (s\<lparr>leads := lock_lead key (leads s), waited := waited s + wait_amount p k\<rparr>)"
    by (simp add: process_item_failed)
  then show ?thesis using assms(1) by (simp add: compensate_def mark_failed_def)
qed

theorem audit_failure_skips_release_witness:
  "\<exists>s'. process_item ''rec1'' 53 ''rec1'' 0 (ProcessingFailed ''timeout'') \<lparr>leads = [\<lparr>airtable_id = Some ''rec1'', url = Some ''a.ch/1'', company_name = ''A'', lead_score = 9,
       sector = ''Luxury'', status = PRIORITY\<rparr>], tracking = [], waited = 0, handed = []\<rparr> = Inl s' \<and>
        map status (leads s') = [IN_PROGRESS]"
proof -
  obtain s' where s': "process_item ''rec1'' 53 ''rec1'' 0 (ProcessingFailed ''timeout'') \<lparr>leads = [\<lparr>airtable_id = Some ''rec1'', url = Some ''a.ch/1'', company_name = ''A'', lead_score = 9,
       sector = ''Luxury'', status = PRIORITY\<rparr>], tracking = [], waited = 0, handed = []\<rparr> = Inl s'"
    by (simp add: process_item_def)
  have "leads s' = lock_lead ''rec1'' [\<lparr>airtable_id = Some ''rec1'', url = Some ''a.ch/1'', company_name = ''A'', lead_score = 9,
       sector = ''Luxury'', status = PRIORITY\<rparr>]"
    using audit_failure_skips_release[OF _ s'] by (simp add: dict_get_def)
  then have "map status (leads s') = [IN_PROGRESS]"
    by (simp add: lock_lead_def set_status_where_def)
  with s' show ?thesis by auto
qed

text \<open>
  C8. Compensation is idempotent (spec P4): running the error workflow twice for the same
  execution and message leaves the same tables as running it once.
\<close>

theorem compensate_idem: "compensate exec msg (compensate exec msg s) = compensate exec msg s"
proof (cases "mark_failed exec msg (tracking s)")
  case None
  then show ?thesis by (simp add: compensate_def)
next
  case (Some t)
  with mark_failed_idem[OF Some] show ?thesis
    by (simp add: compensate_def release_lock_def set_status_where_idem)
qed

subsection \<open>One batch run\<close>

text \<open>
  Batch bound (spec P5): a run whose leads are all delivered hands exactly the first
  \<open>batch_size\<close> (50) fetched leads to the contact flow, in fetch order, and leaves every
  row of any other lead as it was.
\<close>

lemma batch_run_bound:
  assumes "\<forall>it \<in> set items. snd (snd it) = Delivered"
    and "batch_run exec p Fetched items s = (s', ok)"
  shows "ok \<and> handed s' = handed s @ map fst (take batch_size items) \<and>
         length (leads s') = length (leads s) \<and>
         (\<forall>i < length (leads s). airtable_id (leads s ! i) \<notin> Some ` set (map fst (take batch_size items))
            \<longrightarrow> leads s' ! i = leads s ! i)"
proof -
  have d: "\<forall>it \<in> set (take batch_size items). snd (snd it) = Delivered"
    using assms(1) by (meson in_set_takeD)
  have len: "length (foldl (\<lambda>rows key. lock_lead key rows) rows ks) = length rows" for rows ks
    by (induction ks arbitrary: rows) (simp_all add: lock_lead_def)
  let ?ks = "map fst (take batch_size items)"
  from assms(2) run_items_delivered[OF d] have ok: "ok"
    and h: "handed s' = handed s @ ?ks"
    and l: "leads s' = foldl (\<lambda>rows key. lock_lead key rows) (leads s) ?ks"
    by (auto simp: batch_run_def)
  have "leads s' ! i = leads s ! i"
    if "i < length (leads s)" "airtable_id (leads s ! i) \<notin> Some ` set ?ks" for i
    using foldl_lock_untouched[OF that(2) that(1) refl] l by simp
  moreover have "length (leads s') = length (leads s)" using l len by simp
  ultimately show ?thesis using ok h by blast
qed

text \<open>
  C7. A delivered lead is never written back: after a run in which every lead was
  delivered, every row of every handed lead is still \<open>IN_PROGRESS\<close>; no node of the
  repository sets \<open>DONE\<close> (spec 4.3 step 4 and P2).
\<close>

theorem delivered_leads_stay_locked:
  assumes "\<forall>it \<in> set items. snd (snd it) = Delivered"
    and "batch_run exec p Fetched items s = (s', ok)"
    and "key \<in> set (map fst (take batch_size items))"
  shows "\<forall>r \<in> set (rows_of key (leads s')). status r = IN_PROGRESS"
proof -
  have d: "\<forall>it \<in> set (take batch_size items). snd (snd it) = Delivered"
    using assms(1) by (meson in_set_takeD)
  from assms(2) run_items_delivered[OF d] have "leads s' =
      foldl (\<lambda>rows key. lock_lead key rows) (leads s) (map fst (take batch_size items))"
    by (auto simp: batch_run_def)
  with assms(3) show ?thesis by (auto simp: foldl_lock_rows_of)
qed

theorem delivered_leads_stay_locked_witness:
  "map status (rows_of ''rec1'' (leads (fst (batch_run ''exec1'' 53 Fetched [(''rec1'', 0, Delivered)] \<lparr>leads = [\<lparr>airtable_id = Some ''rec1'', url = Some ''a.ch/1'', company_name = ''A'', lead_score = 9,
       sector = ''Luxury'', status = PRIORITY\<rparr>], tracking = [(''exec1'', \<lparr>track_status = ''RUNNING'', error_log = ''none''\<rparr>)],
      waited = 0, handed = []\<rparr>)))) =
   [IN_PROGRESS]"
proof -
  obtain s' ok where r: "batch_run ''exec1'' 53 Fetched [(''rec1'', 0, Delivered)] \<lparr>leads = [\<lparr>airtable_id = Some ''rec1'', url = Some ''a.ch/1'', company_name = ''A'', lead_score = 9,
       sector = ''Luxury'', status = PRIORITY\<rparr>], tracking = [(''exec1'', \<lparr>track_status = ''RUNNING'', error_log = ''none''\<rparr>)],
      waited = 0, handed = []\<rparr> = (s', ok)"
    by (cases "batch_run ''exec1'' 53 Fetched [(''rec1'', 0, Delivered)] \<lparr>leads = [\<lparr>airtable_id = Some ''rec1'', url = Some ''a.ch/1'', company_name = ''A'', lead_score = 9,
       sector = ''Luxury'', status = PRIORITY\<rparr>], tracking = [(''exec1'', \<lparr>track_status = ''RUNNING'', error_log = ''none''\<rparr>)],
      waited = 0, handed = []\<rparr>") auto
  have "\<forall>x \<in> set (rows_of ''rec1'' (leads s')). status x = IN_PROGRESS"
    using delivered_leads_stay_locked[OF _ r] by (simp add: batch_size_def)
  moreover have "length (rows_of ''rec1'' (leads s')) = 1"
  proof -
    from r have "leads s' = lock_lead ''rec1'' [\<lparr>airtable_id = Some ''rec1'', url = Some ''a.ch/1'', company_name = ''A'', lead_score = 9,
       sector = ''Luxury'', status = PRIORITY\<rparr>]"
      by (auto simp: batch_run_def batch_size_def process_item_def)
    then show ?thesis by (simp add: lock_lead_def set_status_where_def rows_of_def)
  qed
  ultimately show ?thesis using r
    by (cases "rows_of ''rec1'' (leads s')") (auto simp: length_Suc_conv)
qed

text \<open>
  C10. A failed \<open>Fetch Dynamic Config\<close> stops the run before any lead is locked or
  handed over: only the error workflow runs, and it touches no lead other than one keyed
  by the execution id.
\<close>

theorem config_failure_claims_nothing:
  assumes "batch_run exec p (FetchError msg) items s = (s', ok)" and "key \<noteq> exec"
  shows "\<not> ok \<and> handed s' = handed s \<and> waited s' = waited s \<and>
         rows_of key (leads s') = rows_of key (leads s)"
proof -
  from assms(1) have s': "s' = compensate exec msg s" and "\<not> ok"
    by (simp_all add: batch_run_def)
  moreover have "handed s' = handed s" "waited s' = waited s"
    by (simp_all add: s' compensate_def split: option.splits)
  ultimately show ?thesis using rows_of_compensate[OF assms(2)] by simp
qed

theorem config_failure_claims_nothing_witness:
  "map status (rows_of ''rec1'' (leads (fst (batch_run ''exec1'' 53 (FetchError ''no row'')
      [(''rec1'', 0, Delivered)] \<lparr>leads = [\<lparr>airtable_id = Some ''rec1'', url = Some ''a.ch/1'', company_name = ''A'', lead_score = 9,
       sector = ''Luxury'', status = PRIORITY\<rparr>], tracking = [(''exec1'', \<lparr>track_status = ''RUNNING'', error_log = ''none''\<rparr>)],
      waited = 0, handed = []\<rparr>)))) = [PRIORITY]"
proof -
  obtain s' ok where r: "batch_run ''exec1'' 53 (FetchError ''no row'') [(''rec1'', 0, Delivered)] \<lparr>leads = [\<lparr>airtable_id = Some ''rec1'', url = Some ''a.ch/1'', company_name = ''A'', lead_score = 9,
       sector = ''Luxury'', status = PRIORITY\<rparr>], tracking = [(''exec1'', \<lparr>track_status = ''RUNNING'', error_log = ''none''\<rparr>)],
      waited = 0, handed = []\<rparr> = (s', ok)"
    by (cases "batch_run ''exec1'' 53 (FetchError ''no row'') [(''rec1'', 0, Delivered)] \<lparr>leads = [\<lparr>airtable_id = Some ''rec1'', url = Some ''a.ch/1'', company_name = ''A'', lead_score = 9,
       sector = ''Luxury'', status = PRIORITY\<rparr>], tracking = [(''exec1'', \<lparr>track_status = ''RUNNING'', error_log = ''none''\<rparr>)],
      waited = 0, handed = []\<rparr>") auto
  have "rows_of ''rec1'' (leads s') = rows_of ''rec1'' [\<lparr>airtable_id = Some ''rec1'', url = Some ''a.ch/1'', company_name = ''A'', lead_score = 9,
       sector = ''Luxury'', status = PRIORITY\<rparr>]"
    using config_failure_claims_nothing[OF r] by simp
  then show ?thesis using r by (simp add: rows_of_def)
qed

subsection \<open>The anti-rate-limit wait\<close>

text \<open>
  C33. Every wait of the gate lasts 2, 3, 4 or 5 seconds, and for a draw of at least two
  random bits the four durations are equally likely: each is hit by exactly a quarter of
  the \<open>2^p\<close> draws.
\<close>

theorem wait_amount_range:
  assumes "2 \<le> p"
  shows "(\<forall>k < 2 ^ p. wait_amount p k \<in> {2..5}) \<and>
         (\<forall>v \<in> {2..5}. card {k. k < 2 ^ p \<and> wait_amount p k = v} = 2 ^ (p - 2))"
proof -
  let ?d = "(2::nat) ^ (p - 2)"
  have p4: "(2::nat) ^ p = 4 * ?d" using assms by (rule pow2_split)
  have w: "wait_amount p k = k div ?d + 2" for k
    by (simp add: wait_amount_def floor_random_4[OF assms])
  have range: "\<forall>k < 2 ^ p. wait_amount p k \<in> {2..5}"
  proof (intro allI impI)
    fix k :: nat
    assume "k < 2 ^ p"
    then have "k div ?d < 4" using p4 by (simp add: less_mult_imp_div_less mult.commute)
    then show "wait_amount p k \<in> {2..5}" by (simp add: w)
  qed
  have "card {k. k < 2 ^ p \<and> wait_amount p k = v} = ?d" if "v \<in> {2..5}" for v
  proof -
    define j where "j = v - 2"
    with that have j: "v = j + 2" "j < 4" by auto
    have "Suc j * ?d \<le> 2 ^ p" using j(2) p4 by simp
    then have "{k. k < 2 ^ p \<and> wait_amount p k = v} = {j * ?d..<Suc j * ?d}"
      using j by (auto simp: w div_eq_iff_range)
    then show ?thesis by simp
  qed
  with range show ?thesis by blast
qed

theorem wait_amount_range_witness:
  "wait_amount 53 0 = 2 \<and> wait_amount 53 (2 ^ 53 - 1) = 5 \<and>
   card {k. k < 2 ^ 53 \<and> wait_amount 53 k = 3} = 2 ^ 51"
proof -
  have r: "(\<forall>k < 2 ^ 53. wait_amount 53 k \<in> {2..5}) \<and>
      (\<forall>v \<in> {2..5}. card {k. k < 2 ^ 53 \<and> wait_amount 53 k = v} = 2 ^ (53 - 2))"
    by (rule wait_amount_range) simp
  have "wait_amount 53 0 = 2" "wait_amount 53 (2 ^ 53 - 1) = 5"
    by (simp_all add: wait_amount_def floor_random_def)
  with r show ?thesis by simp
qed

end
