(* ===== verification/Workflow.thy ===== *)
theory Workflow
  imports Prelude "HOL-Library.Sublist"
begin

text \<open>
  The n8n workflow document as the two builder scripts manipulate it: a JSON value
  (\<open>json.load\<close> gives dicts, lists, strings, numbers, booleans and \<open>None\<close>), with the
  Python operations the scripts apply to it, each failing as Python does:
  \<open>x[k]\<close> (\<open>jget\<close>: \<open>KeyError\<close>, or \<open>TypeError\<close> on a non-dict), \<open>x[k] = v\<close>
  (\<open>jset\<close>), \<open>k in x\<close> (\<open>jhas\<close>), \<open>x.append(v)\<close> (\<open>jappend\<close>: \<open>AttributeError\<close> on
  a non-list), \<open>x[0] = v\<close> (\<open>jset0\<close>: \<open>IndexError\<close> on an empty list) and chained
  subscript assignment \<open>x[k1]...[kn] = v\<close> (\<open>jset_path\<close>). Dicts are association lists in
  insertion order (Prelude's \<open>dict_set\<close>). Numbers are integers or decimals
  \<open>JFloat m e = m / 10^e\<close> (the \<open>typeVersion\<close> literals 2.1, 1.6, 4.1).
  The helpers of src/execution/perfect_workflow.py, \<open>get_node\<close> (lines 15-16) and
  \<open>add_node\<close> (lines 18-20), work on the whole document; \<open>get_node\<close> returns the position
  of the node it finds, because the script mutates that node in place through the
  reference it returns (lines 147-155). The reading functions at the end give a document's
  nodes and connections, the links of each output, and the items that travel along them.
\<close>

section \<open>JSON values\<close>

datatype json =
    JNull
  | JBool bool
  | JInt int
  | JFloat int nat
  | JStr string
  | JList "json list"
  | JObj "(string \<times> json) list"

section \<open>Python operations on JSON values\<close>

fun jget :: "json \<Rightarrow> string \<Rightarrow> json result" where
  "jget (JObj kvs) k = (case dict_get kvs k of None \<Rightarrow> Inl (KeyError k) | Some v \<Rightarrow> Inr v)"
| "jget _ k = Inl TypeError"

fun jset :: "json \<Rightarrow> string \<Rightarrow> json \<Rightarrow> json result" where
  "jset (JObj kvs) k v = Inr (JObj (dict_set kvs k v))"
| "jset _ k v = Inl TypeError"

text \<open>\<open>k in x\<close>: a key of a dict, an element of a list, a substring of a string.\<close>

fun jhas :: "json \<Rightarrow> string \<Rightarrow> bool result" where
  "jhas (JObj kvs) k = Inr (dict_has kvs k)"
| "jhas (JList xs) k = Inr (JStr k \<in> set xs)"
| "jhas (JStr s) k = Inr (sublist k s)"
| "jhas _ k = Inl TypeError"

fun jappend :: "json \<Rightarrow> json \<Rightarrow> json result" where
  "jappend (JList xs) v = Inr (JList (xs @ [v]))"
| "jappend _ v = Inl AttributeError"

text \<open>
  \<open>x[0] = v\<close>: on a list the first element; on a dict the key \<open>0\<close>, which \<open>json.dump\<close>
  writes as the string \<open>"0"\<close>.
\<close>

fun jset0 :: "json \<Rightarrow> json \<Rightarrow> json result" where
  "jset0 (JList xs) v = map_res JList (list_set0 xs v)"
| "jset0 (JObj kvs) v = Inr (JObj (dict_set kvs ''0'' v))"
| "jset0 _ v = Inl TypeError"

text \<open>\<open>x[k1][k2]...[kn] = v\<close>: every prefix is read (and may fail), the last key is written.\<close>

fun jset_path :: "json \<Rightarrow> string list \<Rightarrow> json \<Rightarrow> json result" where
  "jset_path x [] v = Inr v"
| "jset_path x [k] v = jset x k v"
| "jset_path x (k # k' # ks) v =
     bind_res (jget x k) (\<lambda>y. bind_res (jset_path y (k' # ks) v) (\<lambda>y'. jset x k y'))"

section \<open>The helpers of perfect_workflow.py\<close>

text \<open>
  \<open>next((n for n in workflow['nodes'] if n['name'] == name), None)\<close>: the first node with
  that name and its position; \<open>n['name']\<close> is evaluated on every node before it.
\<close>

fun find_node :: "string \<Rightarrow> json list \<Rightarrow> (nat \<times> json) option result" where
  "find_node name [] = Inr None"
| "find_node name (n # ns) =
     bind_res (jget n ''name'')
       (\<lambda>v. if v = JStr name then Inr (Some (0, n))
            else map_res (map_option (\<lambda>(i, m). (Suc i, m))) (find_node name ns))"

text \<open>
  Iterating a dict yields its keys and a string its characters, on which \<open>n['name']\<close>
  raises \<open>TypeError\<close>; an empty one yields nothing; \<open>None\<close>, numbers and booleans are
  not iterable.
\<close>

definition get_node :: "string \<Rightarrow> json \<Rightarrow> (nat \<times> json) option result" where
  "get_node name doc =
     bind_res (jget doc ''nodes'')
       (\<lambda>ns. case ns of
               JList xs \<Rightarrow> find_node name xs
             | JObj [] \<Rightarrow> Inr None
             | JStr [] \<Rightarrow> Inr None
             | _ \<Rightarrow> Inl TypeError)"

text \<open>\<open>workflow['nodes'].append(node); return node['id']\<close>.\<close>

definition add_node :: "json \<Rightarrow> json \<Rightarrow> (json \<times> json) result" where
  "add_node node doc =
     bind_res (jget doc ''nodes'')
       (\<lambda>ns. bind_res (jappend ns node)
         (\<lambda>ns'. bind_res (jset doc ''nodes'' ns')
           (\<lambda>doc'. map_res (\<lambda>i. (doc', i)) (jget node ''id''))))"

text \<open>The node at a position replaced: the in-place mutation through \<open>get_node\<close>'s reference.\<close>

definition put_node :: "nat \<Rightarrow> json \<Rightarrow> json \<Rightarrow> json result" where
  "put_node i n doc =
     bind_res (jget doc ''nodes'')
       (\<lambda>ns. case ns of JList xs \<Rightarrow> jset doc ''nodes'' (JList (xs[i := n])) | _ \<Rightarrow> Inl TypeError)"

text \<open>\<open>workflow['connections'][k] = v\<close>.\<close>

definition set_connection :: "string \<Rightarrow> json \<Rightarrow> json \<Rightarrow> json result" where
  "set_connection k v doc = jset_path doc [''connections'', k] v"

text \<open>
  \<open>if k in workflow['connections']: workflow['connections'][k]['main'][0] = targets\<close>
  (lines 182-183, 206-207, 249-250).
\<close>

definition rewire_main0 :: "string \<Rightarrow> json \<Rightarrow> json \<Rightarrow> json result" where
  "rewire_main0 k targets doc =
     bind_res (jget doc ''connections'')
       (\<lambda>c. bind_res (jhas c k)
         (\<lambda>b. if b then
                bind_res (jget c k) (\<lambda>ck. bind_res (jget ck ''main'')
                  (\<lambda>m. bind_res (jset0 m targets)
                    (\<lambda>m'. jset_path doc [''connections'', k, ''main''] m')))
              else Inr doc))"

text \<open>
  \<open>agent = get_node(name); if agent: agent['parameters']['options']['systemMessage'] =
  prompt\<close> (lines 147-155). A node that was found is a dict with a name, so it is truthy.
\<close>

definition set_system_message :: "string \<Rightarrow> string \<Rightarrow> json \<Rightarrow> json result" where
  "set_system_message name prompt doc =
     bind_res (get_node name doc)
       (\<lambda>r. case r of
              None \<Rightarrow> Inr doc
            | Some (i, n) \<Rightarrow>
                bind_res (jset_path n [''parameters'', ''options'', ''systemMessage''] (JStr prompt))
                  (\<lambda>n'. put_node i n' doc))"

section \<open>Reading a document\<close>

text \<open>A connection entry \<open>{"main": [[link, ...]]}\<close> and one of its links.\<close>

definition link :: "string \<Rightarrow> json" where
  "link n = JObj [(''node'', JStr n), (''type'', JStr ''main''), (''index'', JInt 0)]"

definition main_to :: "string \<Rightarrow> json" where
  "main_to n = JObj [(''main'', JList [JList [link n]])]"

text \<open>The connections dict and the node list of a document, when it has them.\<close>

definition conns :: "json \<Rightarrow> (string \<times> json) list option" where
  "conns doc =
     (case doc of
        JObj kvs \<Rightarrow> (case dict_get kvs ''connections'' of Some (JObj cs) \<Rightarrow> Some cs | _ \<Rightarrow> None)
      | _ \<Rightarrow> None)"

definition nodes_of :: "json \<Rightarrow> json list option" where
  "nodes_of doc =
     (case doc of
        JObj kvs \<Rightarrow> (case dict_get kvs ''nodes'' of Some (JList ns) \<Rightarrow> Some ns | _ \<Rightarrow> None)
      | _ \<Rightarrow> None)"

text \<open>The links of the first output of a connection entry, and of a node of a document.\<close>

definition main0_of :: "json \<Rightarrow> json list option" where
  "main0_of v =
     (case v of
        JObj c \<Rightarrow> (case dict_get c ''main'' of Some (JList (JList l # _)) \<Rightarrow> Some l | _ \<Rightarrow> None)
      | _ \<Rightarrow> None)"

definition main0 :: "json \<Rightarrow> string \<Rightarrow> json list option" where
  "main0 doc k = (case conns doc of Some cs \<Rightarrow> Option.bind (dict_get cs k) main0_of | None \<Rightarrow> None)"

text \<open>A node is a dict with a string name.\<close>

definition named :: "json \<Rightarrow> bool" where
  "named n = (case n of JObj kv \<Rightarrow> (case dict_get kv ''name'' of Some (JStr _) \<Rightarrow> True | _ \<Rightarrow> False)
                     | _ \<Rightarrow> False)"

definition node_name :: "json \<Rightarrow> string" where
  "node_name n = (case n of JObj kv \<Rightarrow> (case dict_get kv ''name'' of Some (JStr s) \<Rightarrow> s | _ \<Rightarrow> [])
                          | _ \<Rightarrow> [])"

text \<open>A node whose \<open>parameters.options\<close> is a dict, so that the prompt can be set.\<close>

definition has_options :: "json \<Rightarrow> bool" where
  "has_options n =
     (case n of
        JObj kv \<Rightarrow>
          (case dict_get kv ''parameters'' of
             Some (JObj pk) \<Rightarrow> (case dict_get pk ''options'' of Some (JObj _) \<Rightarrow> True | _ \<Rightarrow> False)
           | _ \<Rightarrow> False)
      | _ \<Rightarrow> False)"

text \<open>A connection entry that \<open>rewire_main0\<close> can rewrite: absent, or with a non-empty \<open>main\<close> list.\<close>

definition rewirable :: "(string \<times> json) list \<Rightarrow> string \<Rightarrow> bool" where
  "rewirable cs k =
     (case dict_get cs k of
        None \<Rightarrow> True
      | Some (JObj ck) \<Rightarrow> (case dict_get ck ''main'' of Some (JList (_ # _)) \<Rightarrow> True | _ \<Rightarrow> False)
      | Some _ \<Rightarrow> False)"


text \<open>The connections dict after \<open>rewire_main0\<close> on an entry it can rewrite.\<close>

definition rewired :: "(string \<times> json) list \<Rightarrow> string \<Rightarrow> json \<Rightarrow> (string \<times> json) list" where
  "rewired cs k t =
     (case dict_get cs k of
        Some (JObj ck) \<Rightarrow>
          (case dict_get ck ''main'' of
             Some (JList (_ # ms)) \<Rightarrow> dict_set cs k (JObj (dict_set ck ''main'' (JList (t # ms))))
           | _ \<Rightarrow> cs)
      | _ \<Rightarrow> cs)"

text \<open>\<open>parameters.options.systemMessage\<close> of a node, when it is a string.\<close>

definition system_message :: "json \<Rightarrow> string option" where
  "system_message n =
     (case n of
        JObj kv \<Rightarrow>
          (case dict_get kv ''parameters'' of
             Some (JObj pk) \<Rightarrow>
               (case dict_get pk ''options'' of
                  Some (JObj ok) \<Rightarrow> (case dict_get ok ''systemMessage'' of Some (JStr m) \<Rightarrow> Some m | _ \<Rightarrow> None)
                | _ \<Rightarrow> None)
           | _ \<Rightarrow> None)
      | _ \<Rightarrow> None)"

text \<open>The links of every output of a connection entry, and whether the entry of \<open>k\<close> feeds node \<open>n\<close>.\<close>

fun links_of :: "json \<Rightarrow> json list" where
  "links_of (JList ls) = ls"
| "links_of _ = []"

definition out_links :: "json \<Rightarrow> json list" where
  "out_links v =
     (case v of
        JObj c \<Rightarrow> (case dict_get c ''main'' of
                    Some (JList outs) \<Rightarrow> concat (map links_of outs)
                  | _ \<Rightarrow> [])
      | _ \<Rightarrow> [])"

definition feeds :: "(string \<times> json) list \<Rightarrow> string \<Rightarrow> string \<Rightarrow> bool" where
  "feeds cs n k = (case dict_get cs k of Some v \<Rightarrow> link n \<in> set (out_links v) | None \<Rightarrow> False)"

text \<open>
  The links of output \<open>j\<close> of a connection entry (\<open>main[j]\<close>), and the items node \<open>target\<close>
  receives from node \<open>src\<close> when \<open>src\<close> emits \<open>outs ! j\<close> on its output \<open>j\<close>: n8n passes
  the items of an output along every link of that output.
\<close>

definition main_at :: "json \<Rightarrow> nat \<Rightarrow> json list" where
  "main_at v j =
     (case v of
        JObj c \<Rightarrow> (case dict_get c ''main'' of
                    Some (JList outs) \<Rightarrow> (if j < length outs then links_of (outs ! j) else [])
                  | _ \<Rightarrow> [])
      | _ \<Rightarrow> [])"

definition items_into :: "(string \<times> json) list \<Rightarrow> string \<Rightarrow> string \<Rightarrow> 'a list list \<Rightarrow> 'a list" where
  "items_into cs src target outs =
     concat (map (\<lambda>j. case dict_get cs src of
                        Some v \<Rightarrow> if link target \<in> set (main_at v j) then outs ! j else []
                      | None \<Rightarrow> [])
                 [0..<length outs])"

text \<open>Position \<open>j\<close> holds the first node named \<open>name\<close>: the one \<open>get_node\<close> returns.\<close>

definition first_named :: "string \<Rightarrow> json list \<Rightarrow> nat \<Rightarrow> bool" where
  "first_named name ns j = (j < length ns \<and> node_name (ns ! j) = name \<and> name \<notin> node_name ` set (take j ns))"

section \<open>Lemmas\<close>


lemma set_connection_JObj:
  "dict_get kvs ''connections'' = Some (JObj cs) \<Longrightarrow>
   set_connection k v (JObj kvs) = Inr (JObj (dict_set kvs ''connections'' (JObj (dict_set cs k v))))"
  by (simp add: set_connection_def)

lemma add_node_JObj:
  "dict_get kvs ''nodes'' = Some (JList ns) \<Longrightarrow> dict_get nk ''id'' = Some i \<Longrightarrow>
   add_node (JObj nk) (JObj kvs) = Inr (JObj (dict_set kvs ''nodes'' (JList (ns @ [JObj nk]))), i)"
  by (simp add: add_node_def)

lemma rewire_absent:
  "dict_get kvs ''connections'' = Some (JObj cs) \<Longrightarrow> dict_get cs k = None \<Longrightarrow>
   rewire_main0 k t (JObj kvs) = Inr (JObj kvs)"
  by (simp add: rewire_main0_def dict_has_iff_get)

lemma rewire_present:
  "dict_get kvs ''connections'' = Some (JObj cs) \<Longrightarrow> dict_get cs k = Some (JObj ck) \<Longrightarrow>
   dict_get ck ''main'' = Some (JList (m # ms)) \<Longrightarrow>
   rewire_main0 k t (JObj kvs) =
     Inr (JObj (dict_set kvs ''connections'' (JObj (dict_set cs k (JObj (dict_set ck ''main'' (JList (t # ms))))))))"
  by (simp add: rewire_main0_def dict_has_iff_get)

lemma rewire_empty_main:
  "dict_get kvs ''connections'' = Some (JObj cs) \<Longrightarrow> dict_get cs k = Some (JObj ck) \<Longrightarrow>
   dict_get ck ''main'' = Some (JList []) \<Longrightarrow>
   rewire_main0 k t (JObj kvs) = Inl IndexError"
  by (simp add: rewire_main0_def dict_has_iff_get)

lemma named_name: "named n \<Longrightarrow> \<exists>kv. n = JObj kv \<and> dict_get kv ''name'' = Some (JStr (node_name n))"
  by (auto simp: named_def node_name_def split: json.splits option.splits)

lemma find_node_named:
  assumes "\<forall>n \<in> set ns. named n"
  shows "(find_node name ns = Inr None \<longleftrightarrow> name \<notin> node_name ` set ns) \<and>
         (\<forall>i n. find_node name ns = Inr (Some (i, n)) \<longrightarrow>
            i < length ns \<and> ns ! i = n \<and> node_name n = name \<and> (\<forall>j < i. node_name (ns ! j) \<noteq> name)) \<and>
         (\<forall>e. find_node name ns \<noteq> Inl e)"
  using assms
proof (induction ns)
  case Nil
  then show ?case by simp
next
  case (Cons n ns)
  from Cons.prems obtain kv where n: "n = JObj kv" "dict_get kv ''name'' = Some (JStr (node_name n))"
    using named_name by auto
  show ?case
  proof (cases "node_name n = name")
    case True
    from n have "jget n ''name'' = Inr (JStr (node_name n))" by simp
    with True show ?thesis by auto
  next
    case False
    have "\<forall>m \<in> set ns. named m" using Cons.prems by simp
    note IH = Cons.IH[OF this]
    then obtain r where r: "find_node name ns = Inr r" by (cases "find_node name ns") auto
    from n have g: "jget n ''name'' = Inr (JStr (node_name n))" by simp
    have eq: "find_node name (n # ns) = Inr (map_option (\<lambda>(i, m). (Suc i, m)) r)"
      using g False r by simp
    show ?thesis
    proof (cases r)
      case None
      with IH r eq False show ?thesis by auto
    next
      case (Some p)
      obtain i m where p: "p = (i, m)" by (cases p)
      have "j < Suc i \<Longrightarrow> node_name ((n # ns) ! j) \<noteq> name" for j
        using IH r Some p False by (cases j) auto
      with IH r Some p eq show ?thesis by auto
    qed
  qed
qed

subsection \<open>What each operation does to the node list and the connections\<close>


lemma case_json_obj: "(case x of JObj y \<Rightarrow> P y | _ \<Rightarrow> False) \<longleftrightarrow> (\<exists>y. x = JObj y \<and> P y)"
  by (cases x) auto

lemma case_option_some: "(case x of None \<Rightarrow> False | Some v \<Rightarrow> Q v) \<longleftrightarrow> (\<exists>v. x = Some v \<and> Q v)"
  by (cases x) auto

lemma views_JObj:
  "conns doc = Some cs \<Longrightarrow> \<exists>kvs. doc = JObj kvs \<and> dict_get kvs ''connections'' = Some (JObj cs)"
  by (auto simp: conns_def split: json.splits option.splits)

lemma nodes_JObj:
  "nodes_of doc = Some ns \<Longrightarrow> \<exists>kvs. doc = JObj kvs \<and> dict_get kvs ''nodes'' = Some (JList ns)"
  by (auto simp: nodes_of_def split: json.splits option.splits)

lemma add_node_views:
  assumes "nodes_of doc = Some ns" and "conns doc = Some cs" and "dict_get nk ''id'' = Some i"
  shows "\<exists>doc'. add_node (JObj nk) doc = Inr (doc', i) \<and>
           nodes_of doc' = Some (ns @ [JObj nk]) \<and> conns doc' = Some cs"
proof -
  obtain kvs where d: "doc = JObj kvs" "dict_get kvs ''nodes'' = Some (JList ns)"
    using nodes_JObj[OF assms(1)] by blast
  with assms(2) have c: "dict_get kvs ''connections'' = Some (JObj cs)"
    by (auto simp: conns_def split: option.splits json.splits)
  show ?thesis using d c assms(3)
    by (simp add: add_node_def nodes_of_def conns_def)
qed

lemma set_connection_views:
  assumes "conns doc = Some cs"
  shows "\<exists>doc'. set_connection k v doc = Inr doc' \<and>
           conns doc' = Some (dict_set cs k v) \<and> nodes_of doc' = nodes_of doc"
proof -
  obtain kvs where d: "doc = JObj kvs" "dict_get kvs ''connections'' = Some (JObj cs)"
    using views_JObj[OF assms] by blast
  then show ?thesis by (simp add: set_connection_def conns_def nodes_of_def)
qed

lemma rewire_views:
  assumes "conns doc = Some cs" and "rewirable cs k"
  shows "\<exists>doc'. rewire_main0 k t doc = Inr doc' \<and>
           conns doc' = Some (rewired cs k t) \<and> nodes_of doc' = nodes_of doc"
proof -
  obtain kvs where d: "doc = JObj kvs" "dict_get kvs ''connections'' = Some (JObj cs)"
    using views_JObj[OF assms(1)] by blast
  show ?thesis
  proof (cases "dict_get cs k")
    case None
    then show ?thesis using d by (simp add: rewire_absent rewired_def conns_def)
  next
    case (Some v)
    with assms(2) obtain ck m ms where v: "v = JObj ck" "dict_get ck ''main'' = Some (JList (m # ms))"
      by (auto simp: rewirable_def split: json.splits option.splits list.splits)
    show ?thesis using d Some v
      by (simp add: rewire_present rewired_def conns_def nodes_of_def)
  qed
qed

lemma get_node_ok:
  assumes "nodes_of doc = Some ns" and "list_all named ns"
  shows "\<exists>r. get_node name doc = Inr r"
proof -
  obtain kvs where d: "doc = JObj kvs" "dict_get kvs ''nodes'' = Some (JList ns)"
    using nodes_JObj[OF assms(1)] by blast
  have "\<forall>e. find_node name ns \<noteq> Inl e" using find_node_named assms(2) by (simp add: list_all_iff)
  then obtain r where "find_node name ns = Inr r" by (cases "find_node name ns") auto
  then show ?thesis using d by (simp add: get_node_def)
qed

lemma set_prompt_node:
  assumes "has_options n"
  shows "\<exists>n'. jset_path n [''parameters'', ''options'', ''systemMessage''] (JStr p) = Inr n' \<and>
            node_name n' = node_name n \<and> named n' = named n \<and> has_options n' \<and>
            system_message n' = Some p"
proof -
  obtain kv pk ok where n: "n = JObj kv" "dict_get kv ''parameters'' = Some (JObj pk)"
    "dict_get pk ''options'' = Some (JObj ok)"
    using assms by (auto simp: has_options_def case_json_obj case_option_some)
  then show ?thesis
    by (simp add: node_name_def named_def has_options_def system_message_def)
qed

lemma first_named_iff:
  "first_named name ns j \<longleftrightarrow>
     j < length ns \<and> node_name (ns ! j) = name \<and> (\<forall>k < j. node_name (ns ! k) \<noteq> name)"
proof -
  have "name \<in> node_name ` set (take j ns) \<longleftrightarrow> (\<exists>k < j. node_name (ns ! k) = name)"
    if "j < length ns"
  proof -
    have "set (take j ns) = (!) ns ` {0..<j}" using that by (simp add: nth_image)
    then show ?thesis by auto
  qed
  then show ?thesis by (auto simp: first_named_def)
qed

lemma first_named_unique: "first_named name ns i \<Longrightarrow> first_named name ns j \<Longrightarrow> i = j"
  by (metis first_named_iff linorder_neqE_nat)

lemma put_node_views:
  assumes "nodes_of doc = Some ns" and "conns doc = Some cs"
  shows "\<exists>doc'. put_node i n doc = Inr doc' \<and> nodes_of doc' = Some (ns[i := n]) \<and> conns doc' = Some cs"
proof -
  obtain kvs where d: "doc = JObj kvs" "dict_get kvs ''nodes'' = Some (JList ns)"
    using nodes_JObj[OF assms(1)] by blast
  with assms(2) have c: "dict_get kvs ''connections'' = Some (JObj cs)"
    by (auto simp: conns_def split: option.splits json.splits)
  show ?thesis using d c by (simp add: put_node_def nodes_of_def conns_def)
qed

lemma find_node_first:
  assumes "list_all named ns" and "find_node name ns = Inr (Some (i, n))"
  shows "first_named name ns i \<and> ns ! i = n"
proof -
  have "i < length ns \<and> ns ! i = n \<and> node_name n = name \<and> (\<forall>j < i. node_name (ns ! j) \<noteq> name)"
    using find_node_named[of ns name] assms by (simp add: list_all_iff)
  then show ?thesis by (simp add: first_named_iff)
qed

lemma find_node_none:
  assumes "list_all named ns" and "find_node name ns = Inr None"
  shows "\<not> first_named name ns j"
proof -
  have "name \<notin> node_name ` set ns"
    using find_node_named[of ns name] assms by (simp add: list_all_iff)
  then show ?thesis by (auto simp: first_named_def)
qed

text \<open>Writing the first node of a name: only that position changes.\<close>

lemma update_first_named:
  assumes "first_named name ns i"
  shows "\<forall>j < length ns. if first_named name ns j then ns[i := n'] ! j = n' else ns[i := n'] ! j = ns ! j"
proof (intro allI impI)
  fix j assume "j < length ns"
  have "i < length ns" using assms by (simp add: first_named_def)
  moreover have "first_named name ns j \<longleftrightarrow> j = i" using assms first_named_unique by blast
  ultimately show "if first_named name ns j then ns[i := n'] ! j = n' else ns[i := n'] ! j = ns ! j"
    by simp
qed

lemma set_system_message_views:
  assumes "nodes_of doc = Some ns" and "conns doc = Some cs" and "list_all named ns"
    and "\<forall>n \<in> set ns. node_name n = name \<longrightarrow> has_options n"
  shows "\<exists>doc' ns'. set_system_message name p doc = Inr doc' \<and> nodes_of doc' = Some ns' \<and>
           conns doc' = Some cs \<and> length ns' = length ns \<and> list_all named ns' \<and>
           (\<forall>j < length ns. if first_named name ns j
              then node_name (ns' ! j) = name \<and> has_options (ns' ! j) \<and> system_message (ns' ! j) = Some p
              else ns' ! j = ns ! j)"
proof -
  obtain kvs where d: "doc = JObj kvs" "dict_get kvs ''nodes'' = Some (JList ns)"
    using nodes_JObj[OF assms(1)] by blast
  obtain r where g: "get_node name doc = Inr r"
    using get_node_ok[OF assms(1,3)] by blast
  have f: "find_node name ns = Inr r" using g d by (simp add: get_node_def)
  show ?thesis
  proof (cases r)
    case None
    then have "set_system_message name p doc = Inr doc" using g by (simp add: set_system_message_def)
    then show ?thesis using assms(1,2,3) find_node_none[OF assms(3)] f None by auto
  next
    case (Some q)
    obtain i n where q: "q = (i, n)" by (cases q)
    have fi: "first_named name ns i" "ns ! i = n" using find_node_first[OF assms(3)] f Some q by auto
    then have i: "i < length ns" and "has_options n" using assms(4) by (auto simp: first_named_def)
    then obtain n' where n': "jset_path n [''parameters'', ''options'', ''systemMessage''] (JStr p) = Inr n'"
      "node_name n' = node_name n" "named n' = named n" "has_options n'" "system_message n' = Some p"
      using set_prompt_node by blast
    obtain doc' where p: "put_node i n' doc = Inr doc'" "nodes_of doc' = Some (ns[i := n'])"
      "conns doc' = Some cs" using put_node_views[OF assms(1,2)] by blast
    have s: "set_system_message name p doc = Inr doc'"
      using g Some q n'(1) p(1) by (simp add: set_system_message_def)
    have "named n" using assms(3) fi(2) i by (auto simp: list_all_iff)
    then have named': "list_all named (ns[i := n'])"
      using assms(3) n'(3) set_update_subset_insert[of ns i n'] by (auto simp: list_all_iff)
    have "node_name n = name" using fi by (simp add: first_named_def)
    then have nth: "\<forall>j < length ns. if first_named name ns j
              then node_name (ns[i := n'] ! j) = name \<and> has_options (ns[i := n'] ! j) \<and>
                   system_message (ns[i := n'] ! j) = Some p
              else ns[i := n'] ! j = ns ! j"
      using update_first_named[OF fi(1), of n'] n'(2,4,5) fi(2) by simp
    show ?thesis
      by (intro exI[of _ doc'] exI[of _ "ns[i := n']"] conjI s p(2,3) length_list_update named' nth)
  qed
qed

subsection \<open>Links between nodes\<close>

lemma link_inj [simp]: "link m = link n \<longleftrightarrow> m = n"
  by (simp add: link_def)

lemma out_links_main_to [simp]: "out_links (main_to m) = [link m]"
  by (simp add: out_links_def main_to_def)

lemma feeds_set: "feeds (dict_set cs k v) n k' = (if k' = k then link n \<in> set (out_links v) else feeds cs n k')"
  by (simp add: feeds_def)

lemma rewirable_present:
  assumes "rewirable cs k" and "dict_get cs k \<noteq> None"
  obtains ck m ms where "dict_get cs k = Some (JObj ck)" and "dict_get ck ''main'' = Some (JList (m # ms))"
proof -
  obtain v where v: "dict_get cs k = Some v" using assms(2) by blast
  show thesis
  proof (cases v)
    case (JObj ck)
    obtain x where x: "dict_get ck ''main'' = Some x"
      using assms(1) v JObj by (cases "dict_get ck ''main''") (simp_all add: rewirable_def)
    show thesis
    proof (cases x)
      case (JList l)
      then obtain m ms where "l = m # ms"
        using assms(1) v JObj x by (cases l) (simp_all add: rewirable_def)
      then show thesis using that v JObj x JList by blast
    qed (insert assms(1) v JObj x, simp_all add: rewirable_def)
  qed (insert assms(1) v, simp_all add: rewirable_def)
qed

lemma rewired_at:
  "dict_get cs k = Some (JObj ck) \<Longrightarrow> dict_get ck ''main'' = Some (JList (m # ms)) \<Longrightarrow>
   rewired cs k t = dict_set cs k (JObj (dict_set ck ''main'' (JList (t # ms))))"
  by (simp add: rewired_def)

lemma rewired_absent: "dict_get cs k = None \<Longrightarrow> rewired cs k t = cs"
  by (simp add: rewired_def)

lemma main0_of_first [simp]:
  "main0_of (JObj (dict_set ck ''main'' (JList (JList l # ms)))) = Some l"
  by (simp add: main0_of_def)

lemma main0_rewired:
  assumes "rewirable cs k" and "dict_get cs k \<noteq> None"
  shows "Option.bind (dict_get (rewired cs k (JList l)) k) main0_of = Some l"
proof -
  obtain ck m ms where "dict_get cs k = Some (JObj ck)" "dict_get ck ''main'' = Some (JList (m # ms))"
    using rewirable_present[OF assms] .
  then show ?thesis by (simp add: rewired_at)
qed

lemma feeds_rewired:
  assumes "feeds (rewired cs k (JList [link m])) n k'"
  shows "feeds cs n k' \<or> (k' = k \<and> n = m)"
proof (cases "dict_get cs k")
  case None
  then show ?thesis using assms by (simp add: rewired_absent)
next
  case (Some v)
  show ?thesis
  proof (cases "\<exists>ck m' ms. v = JObj ck \<and> dict_get ck ''main'' = Some (JList (m' # ms))")
    case True
    then obtain ck m' ms where v: "v = JObj ck" "dict_get ck ''main'' = Some (JList (m' # ms))" by blast
    have r: "rewired cs k (JList [link m]) = dict_set cs k (JObj (dict_set ck ''main'' (JList (JList [link m] # ms))))"
      using Some v by (simp add: rewired_at)
    show ?thesis
    proof (cases "k' = k")
      case True
      then show ?thesis using assms r Some v by (auto simp: feeds_def out_links_def)
    next
      case False
      then show ?thesis using assms r by (simp add: feeds_set)
    qed
  next
    case False
    then have "rewired cs k (JList [link m]) = cs" using Some
      by (auto simp: rewired_def split: json.splits option.splits list.splits)
    then show ?thesis using assms by simp
  qed
qed

lemma main0_of_main_to [simp]: "main0_of (main_to n) = Some [link n]"
  by (simp add: main0_of_def main_to_def)

lemma feeds_set_main_to [simp]:
  "feeds (dict_set cs k (main_to m)) n k' = (if k' = k then n = m else feeds cs n k')"
  by (simp add: feeds_set)

lemma feeds_rewired_other:
  "feeds (rewired cs k (JList [link m])) n k' \<Longrightarrow> n \<noteq> m \<Longrightarrow> feeds cs n k'"
  using feeds_rewired by blast

lemma get_node_nodes: "nodes_of doc = Some ns \<Longrightarrow> get_node name doc = find_node name ns"
  using nodes_JObj by (fastforce simp: get_node_def)

section \<open>Properties\<close>

text \<open>
  \<open>get_node\<close> never raises on a document whose nodes are dicts with string names; it
  returns \<open>None\<close> exactly when no node has the name, and otherwise the first node with that
  name together with its position.
\<close>

lemma get_node_first:
  assumes "nodes_of doc = Some ns" and "list_all named ns"
  shows "(\<exists>r. get_node name doc = Inr r) \<and>
         (get_node name doc = Inr None \<longleftrightarrow> name \<notin> node_name ` set ns) \<and>
         (\<forall>i n. get_node name doc = Inr (Some (i, n)) \<longrightarrow> first_named name ns i \<and> ns ! i = n)"
  using get_node_ok[OF assms] find_node_named[of ns name] find_node_first[OF assms(2)] assms
  by (simp add: get_node_nodes list_all_iff)

end
