(* ===== verification/PerfectWorkflow.thy ===== *)
theory PerfectWorkflow
  imports Workflow
begin

text \<open>
  src/execution/perfect_workflow.py as the transformation it performs on the legacy
  workflow document, after \<open>json.load\<close> and before \<open>json.dump\<close> (file I/O and the
  \<open>print\<close> calls are not modelled). The seven \<open>uuid.uuid4()\<close> calls are the values
  \<open>uid 0, ..., uid 6\<close> in the order the script makes them. Every phase of the script is
  one definition, in the script's order, and \<open>perfect_workflow\<close> runs them in sequence:
  the first exception ends the script (\<open>Inl\<close>) and no file is written.
\<close>

section \<open>The prompts (lines 23-58)\<close>

definition SMS_SYSTEM_PROMPT :: string where
  "SMS_SYSTEM_PROMPT = ''You are a Senior SMS Strategic Advisor at KRONOS Automations.
We assist Swiss real estate professionals with automated lead responses.

GOAL: Write a short (max 160 chars), personalized SMS.
- Focus: Immediate response and link to the lead gen calendar.
- Tone: Swiss-Standard (Direct, professional, respectful).
- Response MUST be ONLY JSON: {\"smsText\": \"...\"}''"

definition EMAIL_SYSTEM_PROMPT :: string where
  "EMAIL_SYSTEM_PROMPT = ''You are a Senior Strategic Growth Partner at KRONOS Automations.
We deliver steady lead flow and qualified consultations for elite Swiss real estate firms.

GOAL: Write a short, high-impact executive email (max 4-5 sentences) featuring the official KRONOS pixel-retro branding and LOGO.

CONTENT PROTOCOL:
1. PUNCHY HOOK: Reference 'company name' and the Swiss real estate market.
2. THE PROPOSITION: Focus on \"Steady Sales\" and predictable listings via automated lead systems.
3. TONE: Swiss-Efficiency (Ultra-direct, professional, value-first).

VISUAL BRANDING (KRONOS PIXEL-STYLE):
- LOGO: You MUST include the following logo at the VERY TOP:
  <div style=\"text-align: center; padding: 20px 0;\">
    <img src=\"https://kronosautomations.it/logo.png\" alt=\"KRONOS\" width=\"120\" style=\"image-rendering: pixelated;\">
  </div>
- CONTAINER: max-width 550px; margin: auto; padding: 30px; border: 2px solid #1A1A1A; border-top: 10px solid #FF6B00; font-family: 'Inter', sans-serif;
- ACCENTS: Use an orange (#FF6B00) pixel-style dotted line for the signature break.
- CTA: An orange (#FF6B00) bolded text link: \"Discuss steady lead flow\"

HTML STRUCTURE:
- Use <p> only. Keep it clean.
- SIGNATURE: 
  <div style=\"border-top: 2px dotted #FF6B00; margin-top: 25px; padding-top: 10px; font-size: 14px;\">
    <strong>KRONOS Strategic Partner</strong><br>
    The Standard in Swiss Real Estate Automation
  </div>

Response MUST be ONLY JSON: {\"subject\": \"...\", \"emailBody\": \"...\"}''"

section \<open>The nodes the script adds\<close>

text \<open>Error Trigger (lines 62-71).\<close>

definition error_trigger_node :: "string \<Rightarrow> json" where
  "error_trigger_node i =
     JObj [(''parameters'', JObj []), (''id'', JStr i), (''name'', JStr ''Error Trigger''),
           (''type'', JStr ''n8n-nodes-base.errorTrigger''), (''typeVersion'', JInt 1),
           (''position'', JList [JInt 500, JInt 7500])]"

text \<open>Airtable - Mark Failed (lines 73-101).\<close>

definition airtable_fail_node :: "string \<Rightarrow> json" where
  "airtable_fail_node i =
     JObj [(''parameters'', JObj [
              (''operation'', JStr ''update''),
              (''base'', JStr ''={{ $('Workflow Configuration1').first().json.airtableBaseId }}''),
              (''table'', JStr ''={{ $('Workflow Configuration1').first().json.airtableTableId }}''),
              (''columns'', JObj [
                 (''mappingMode'', JStr ''defineBelow''),
                 (''value'', JObj [
                    (''id'', JStr ''={{ $node[\"Error Trigger\"].json.execution.id }}''),
                    (''STATUS'', JStr ''FAILED''),
                    (''ERROR_LOG'', JStr ''={{ $node[\"Error Trigger\"].json.error.message }}'')]),
                 (''matchingColumns'', JList [JStr ''id''])])]),
           (''id'', JStr i), (''name'', JStr ''Airtable - Mark Failed''),
           (''type'', JStr ''n8n-nodes-base.airtable''), (''typeVersion'', JFloat 21 1),
           (''position'', JList [JInt 800, JInt 7500]),
           (''credentials'', JObj [(''airtableTokenApi'', JObj [
              (''id'', JStr ''AtP2rrGrxZ5FHBNZ''),
              (''name'', JStr ''Airtable Personal Access Token account'')])])]"

text \<open>Supabase - Release Lock (lines 103-127).\<close>

definition supabase_unlock_node :: "string \<Rightarrow> json" where
  "supabase_unlock_node i =
     JObj [(''parameters'', JObj [
              (''operation'', JStr ''update''), (''tableId'', JStr ''leads''),
              (''matchColumn'', JStr ''airtable_id''),
              (''values'', JObj [(''values'', JList [
                 JObj [(''column'', JStr ''status''), (''value'', JStr ''READY_RETRY'')]])])]),
           (''id'', JStr i), (''name'', JStr ''Supabase - Release Lock''),
           (''type'', JStr ''n8n-nodes-base.supabase''), (''typeVersion'', JInt 1),
           (''position'', JList [JInt 1000, JInt 7500]),
           (''credentials'', JObj [(''supabaseApi'', JObj [
              (''id'', JStr ''YOUR_SUPABASE_CREDENTIAL_ID''), (''name'', JStr ''Supabase account'')])])]"

text \<open>Fetch Dynamic Config (lines 165-178).\<close>

definition get_config_node :: "string \<Rightarrow> json" where
  "get_config_node i =
     JObj [(''parameters'', JObj [
              (''operation'', JStr ''get''), (''tableId'', JStr ''campaign_config''),
              (''rowId'', JStr ''current_prod'')]),
           (''id'', JStr i), (''name'', JStr ''Fetch Dynamic Config''),
           (''type'', JStr ''n8n-nodes-base.supabase''), (''typeVersion'', JInt 1),
           (''position'', JList [JInt 1150, JInt 6752]),
           (''credentials'', JObj [(''supabaseApi'', JObj [
              (''id'', JStr ''YOUR_SUPABASE_CREDENTIAL_ID''), (''name'', JStr ''Supabase'')])])]"

text \<open>Batch Leads (Volume) (lines 190-201).\<close>

definition batch_leads_node :: "string \<Rightarrow> json" where
  "batch_leads_node i =
     JObj [(''parameters'', JObj [(''batchSize'', JInt 50), (''options'', JObj [])]),
           (''id'', JStr i), (''name'', JStr ''Batch Leads (Volume)''),
           (''type'', JStr ''n8n-nodes-base.splitInBatches''), (''typeVersion'', JInt 3),
           (''position'', JList [JInt 1600, JInt 6752])]"

text \<open>Lock Lead Status (lines 217-231).\<close>

definition lock_lead_node :: "string \<Rightarrow> json" where
  "lock_lead_node i =
     JObj [(''parameters'', JObj [
              (''operation'', JStr ''update''), (''tableId'', JStr ''leads''),
              (''matchColumn'', JStr ''airtable_id''),
              (''values'', JObj [(''values'', JList [
                 JObj [(''column'', JStr ''status''), (''value'', JStr ''IN_PROGRESS'')]])])]),
           (''id'', JStr i), (''name'', JStr ''Lock Lead Status''),
           (''type'', JStr ''n8n-nodes-base.supabase''), (''typeVersion'', JInt 1),
           (''position'', JList [JInt 1850, JInt 6752]),
           (''credentials'', JObj [(''supabaseApi'', JObj [
              (''id'', JStr ''YOUR_SUPABASE_CREDENTIAL_ID''), (''name'', JStr ''Supabase'')])])]"

text \<open>Anti-Rate Limit Wait (lines 235-246).\<close>

definition wait_node :: "string \<Rightarrow> json" where
  "wait_node i =
     JObj [(''parameters'', JObj [
              (''amount'', JStr ''={{ Math.floor(Math.random() * 4) + 2 }}''),
              (''unit'', JStr ''seconds'')]),
           (''id'', JStr i), (''name'', JStr ''Anti-Rate Limit Wait''),
           (''type'', JStr ''n8n-nodes-base.wait''), (''typeVersion'', JInt 1),
           (''position'', JList [JInt 2000, JInt 6752])]"

section \<open>The phases of the script\<close>

text \<open>Add the error path and connect it (lines 131-142).\<close>

definition add_error_path :: "(nat \<Rightarrow> string) \<Rightarrow> json \<Rightarrow> json result" where
  "add_error_path uid w0 =
     bind_res (add_node (error_trigger_node (uid 0)) w0) (\<lambda>(w1, _).
     bind_res (add_node (airtable_fail_node (uid 1)) w1) (\<lambda>(w2, _).
     bind_res (add_node (supabase_unlock_node (uid 2)) w2) (\<lambda>(w3, _).
     bind_res (set_connection ''Error Trigger'' (main_to ''Airtable - Mark Failed'') w3) (\<lambda>w4.
     set_connection ''Airtable - Mark Failed'' (main_to ''Supabase - Release Lock'') w4))))"

text \<open>Replace the two agents' prompts (lines 146-155).\<close>

definition update_prompts :: "json \<Rightarrow> json result" where
  "update_prompts w =
     bind_res (set_system_message ''AI Agent'' SMS_SYSTEM_PROMPT w)
       (set_system_message ''Email AI Agent'' EMAIL_SYSTEM_PROMPT)"

text \<open>The four look-ups whose results the script never uses (lines 158-161): they can only fail.\<close>

definition lookup_anchors :: "json \<Rightarrow> json result" where
  "lookup_anchors w =
     bind_res (get_node ''Webhook'' w) (\<lambda>_.
     bind_res (get_node ''Workflow Configuration1'' w) (\<lambda>_.
     bind_res (get_node ''Split Leads1'' w) (\<lambda>_.
     map_res (\<lambda>_. w) (get_node ''Check if Mobile Number'' w))))"

text \<open>Webhook \<open>\<rightarrow>\<close> Fetch Dynamic Config \<open>\<rightarrow>\<close> Workflow Configuration1 (lines 165-187).\<close>

definition insert_config :: "(nat \<Rightarrow> string) \<Rightarrow> json \<Rightarrow> json result" where
  "insert_config uid w =
     bind_res (add_node (get_config_node (uid 3)) w) (\<lambda>(w1, _).
     bind_res (rewire_main0 ''Webhook'' (JList [link ''Fetch Dynamic Config'']) w1) (\<lambda>w2.
     set_connection ''Fetch Dynamic Config'' (main_to ''Workflow Configuration1'') w2))"

text \<open>Get Leads from Airtable1 \<open>\<rightarrow>\<close> Batch Leads (Volume) \<open>\<rightarrow>\<close> Split Leads1 (lines 190-214).\<close>

definition insert_batch :: "(nat \<Rightarrow> string) \<Rightarrow> json \<Rightarrow> json result" where
  "insert_batch uid w =
     bind_res (add_node (batch_leads_node (uid 4)) w) (\<lambda>(w1, _).
     bind_res (get_node ''Get Leads from Airtable1'' w1) (\<lambda>_.
     bind_res (rewire_main0 ''Get Leads from Airtable1'' (JList [link ''Batch Leads (Volume)'']) w1) (\<lambda>w2.
     set_connection ''Batch Leads (Volume)'' (main_to ''Split Leads1'') w2)))"

text \<open>
  Split Leads1 \<open>\<rightarrow>\<close> Lock Lead Status \<open>\<rightarrow>\<close> Anti-Rate Limit Wait \<open>\<rightarrow>\<close> Check if Mobile
  Number (lines 217-258).
\<close>

definition insert_lock_wait :: "(nat \<Rightarrow> string) \<Rightarrow> json \<Rightarrow> json result" where
  "insert_lock_wait uid w =
     bind_res (add_node (lock_lead_node (uid 5)) w) (\<lambda>(w1, _).
     bind_res (add_node (wait_node (uid 6)) w1) (\<lambda>(w2, _).
     bind_res (rewire_main0 ''Split Leads1'' (JList [link ''Lock Lead Status'']) w2) (\<lambda>w3.
     bind_res (set_connection ''Lock Lead Status'' (main_to ''Anti-Rate Limit Wait'') w3) (\<lambda>w4.
     set_connection ''Anti-Rate Limit Wait'' (main_to ''Check if Mobile Number'') w4))))"

text \<open>The phases after the prompt update (lines 158-258): anchors, config, batch, lock.\<close>

definition later_phases :: "(nat \<Rightarrow> string) \<Rightarrow> json \<Rightarrow> json result" where
  "later_phases uid w2 =
     bind_res (lookup_anchors w2) (\<lambda>w3.
     bind_res (insert_config uid w3) (\<lambda>w4.
     bind_res (insert_batch uid w4) (insert_lock_wait uid)))"

text \<open>The whole script, from the loaded document to the one it saves.\<close>

definition perfect_workflow :: "(nat \<Rightarrow> string) \<Rightarrow> json \<Rightarrow> json result" where
  "perfect_workflow uid w =
     bind_res (add_error_path uid w) (\<lambda>w1.
     bind_res (update_prompts w1) (later_phases uid))"

section \<open>The documents the script runs through\<close>

text \<open>
  Every node a dict with a string name; both agents with a \<open>parameters.options\<close> dict; the
  three connection entries the script rewires absent or with a non-empty \<open>main\<close> list.
  Everything else the script reads it creates itself.
\<close>

definition legacy_ok :: "json list \<Rightarrow> (string \<times> json) list \<Rightarrow> bool" where
  "legacy_ok ns cs \<longleftrightarrow>
     list_all named ns \<and>
     list_all (\<lambda>n. node_name n \<in> {''AI Agent'', ''Email AI Agent''} \<longrightarrow> has_options n) ns \<and>
     rewirable cs ''Webhook'' \<and> rewirable cs ''Get Leads from Airtable1'' \<and> rewirable cs ''Split Leads1''"

text \<open>
  What the prompt phase does to a node list: the first node named AI Agent gets the SMS
  prompt, the first named Email AI Agent the email prompt, every other node is kept, and
  no name changes.
\<close>

definition prompts_replaced :: "json list \<Rightarrow> json list \<Rightarrow> bool" where
  "prompts_replaced ns ns' \<longleftrightarrow>
     length ns' = length ns \<and> map node_name ns' = map node_name ns \<and>
     (\<forall>j < length ns.
        if first_named ''AI Agent'' ns j then system_message (ns' ! j) = Some SMS_SYSTEM_PROMPT
        else if first_named ''Email AI Agent'' ns j then system_message (ns' ! j) = Some EMAIL_SYSTEM_PROMPT
        else ns' ! j = ns ! j)"

section \<open>Sample documents\<close>

text \<open>
  A legacy document in the shape the script expects, and one whose trigger is not a webhook;
  the witnesses of the properties below run the script on them.
\<close>

text \<open>
  The connections dict the script leaves, from the legacy one \<open>cs\<close>: after the first five
  phases (\<open>batch_conns\<close>) and at the end (\<open>script_conns\<close>).
\<close>

definition batch_conns :: "(string \<times> json) list \<Rightarrow> (string \<times> json) list" where
  "batch_conns cs =
     (let c1 = dict_set (dict_set cs ''Error Trigger'' (main_to ''Airtable - Mark Failed''))
                 ''Airtable - Mark Failed'' (main_to ''Supabase - Release Lock'');
          c2 = dict_set (rewired c1 ''Webhook'' (JList [link ''Fetch Dynamic Config'']))
                 ''Fetch Dynamic Config'' (main_to ''Workflow Configuration1'')
      in dict_set (rewired c2 ''Get Leads from Airtable1'' (JList [link ''Batch Leads (Volume)'']))
                 ''Batch Leads (Volume)'' (main_to ''Split Leads1''))"

definition script_conns :: "(string \<times> json) list \<Rightarrow> (string \<times> json) list" where
  "script_conns cs =
     dict_set (dict_set (rewired (batch_conns cs) ''Split Leads1'' (JList [link ''Lock Lead Status'']))
       ''Lock Lead Status'' (main_to ''Anti-Rate Limit Wait''))
       ''Anti-Rate Limit Wait'' (main_to ''Check if Mobile Number'')"

definition example_node :: "string \<Rightarrow> json" where
  "example_node n = JObj [(''parameters'', JObj [(''options'', JObj [])]), (''name'', JStr n)]"

definition example_nodes :: "json list" where
  "example_nodes = map example_node [''Webhook'', ''Workflow Configuration1'', ''Get Leads from Airtable1'',
     ''Split Leads1'', ''Check if Mobile Number'', ''AI Agent'', ''Email AI Agent'']"

definition example_conns :: "(string \<times> json) list" where
  "example_conns = [(''Webhook'', main_to ''Workflow Configuration1''),
     (''Get Leads from Airtable1'', main_to ''Split Leads1''),
     (''Split Leads1'', main_to ''Check if Mobile Number''),
     (''Check if Mobile Number'', main_to ''AI Agent'')]"

definition scheduled_conns :: "(string \<times> json) list" where
  "scheduled_conns = [(''Get Leads from Airtable1'', main_to ''Split Leads1''),
     (''Split Leads1'', main_to ''Check if Mobile Number'')]"

definition example_doc :: "(string \<times> json) list \<Rightarrow> json" where
  "example_doc cs = JObj [(''nodes'', JList example_nodes), (''connections'', JObj cs)]"

section \<open>Lemmas: what each phase does\<close>

lemma node_literals_JObj:
  "\<exists>kv. error_trigger_node i = JObj kv \<and> dict_get kv ''id'' = Some (JStr i)"
  "\<exists>kv. airtable_fail_node i = JObj kv \<and> dict_get kv ''id'' = Some (JStr i)"
  "\<exists>kv. supabase_unlock_node i = JObj kv \<and> dict_get kv ''id'' = Some (JStr i)"
  "\<exists>kv. get_config_node i = JObj kv \<and> dict_get kv ''id'' = Some (JStr i)"
  "\<exists>kv. batch_leads_node i = JObj kv \<and> dict_get kv ''id'' = Some (JStr i)"
  "\<exists>kv. lock_lead_node i = JObj kv \<and> dict_get kv ''id'' = Some (JStr i)"
  "\<exists>kv. wait_node i = JObj kv \<and> dict_get kv ''id'' = Some (JStr i)"
  by (simp_all add: error_trigger_node_def airtable_fail_node_def supabase_unlock_node_def
      get_config_node_def batch_leads_node_def lock_lead_node_def wait_node_def)

lemma add_literal_views:
  assumes "\<exists>kv. node = JObj kv \<and> dict_get kv ''id'' = Some (JStr i)"
    and "nodes_of doc = Some ns" and "conns doc = Some cs"
  shows "\<exists>doc'. add_node node doc = Inr (doc', JStr i) \<and>
           nodes_of doc' = Some (ns @ [node]) \<and> conns doc' = Some cs"
  using assms add_node_views by blast

lemma add_error_path_views:
  assumes "nodes_of w = Some ns" and "conns w = Some cs"
  shows "\<exists>w'. add_error_path uid w = Inr w' \<and>
     nodes_of w' = Some (ns @ [error_trigger_node (uid 0), airtable_fail_node (uid 1), supabase_unlock_node (uid 2)]) \<and>
     conns w' = Some (dict_set (dict_set cs ''Error Trigger'' (main_to ''Airtable - Mark Failed''))
                        ''Airtable - Mark Failed'' (main_to ''Supabase - Release Lock''))"
proof -
  obtain w1 where 1: "add_node (error_trigger_node (uid 0)) w = Inr (w1, JStr (uid 0))"
    "nodes_of w1 = Some (ns @ [error_trigger_node (uid 0)])" "conns w1 = Some cs"
    using add_literal_views[OF node_literals_JObj(1) assms] by blast
  obtain w2 where 2: "add_node (airtable_fail_node (uid 1)) w1 = Inr (w2, JStr (uid 1))"
    "nodes_of w2 = Some (ns @ [error_trigger_node (uid 0), airtable_fail_node (uid 1)])" "conns w2 = Some cs"
    using add_literal_views[OF node_literals_JObj(2) 1(2,3)] by auto
  obtain w3 where 3: "add_node (supabase_unlock_node (uid 2)) w2 = Inr (w3, JStr (uid 2))"
    "nodes_of w3 = Some (ns @ [error_trigger_node (uid 0), airtable_fail_node (uid 1), supabase_unlock_node (uid 2)])"
    "conns w3 = Some cs"
    using add_literal_views[OF node_literals_JObj(3) 2(2,3)] by auto
  obtain w4 where 4: "set_connection ''Error Trigger'' (main_to ''Airtable - Mark Failed'') w3 = Inr w4"
    "conns w4 = Some (dict_set cs ''Error Trigger'' (main_to ''Airtable - Mark Failed''))" "nodes_of w4 = nodes_of w3"
    using set_connection_views[OF 3(3)] by blast
  obtain w5 where 5: "set_connection ''Airtable - Mark Failed'' (main_to ''Supabase - Release Lock'') w4 = Inr w5"
    "conns w5 = Some (dict_set (dict_set cs ''Error Trigger'' (main_to ''Airtable - Mark Failed''))
                        ''Airtable - Mark Failed'' (main_to ''Supabase - Release Lock''))" "nodes_of w5 = nodes_of w4"
    using set_connection_views[OF 4(2)] by blast
  show ?thesis using 1(1) 2(1) 3(1) 4(1) 5 4(3) 3(2) by (simp add: add_error_path_def)
qed

lemma lookup_anchors_ok:
  assumes "nodes_of w = Some ns" and "list_all named ns"
  shows "lookup_anchors w = Inr w"
proof -
  obtain r1 r2 r3 r4 where "get_node ''Webhook'' w = Inr r1" "get_node ''Workflow Configuration1'' w = Inr r2"
    "get_node ''Split Leads1'' w = Inr r3" "get_node ''Check if Mobile Number'' w = Inr r4"
    using get_node_ok[OF assms] by meson
  then show ?thesis by (simp add: lookup_anchors_def)
qed

lemma first_named_cong:
  assumes "map node_name ns' = map node_name ns"
  shows "first_named name ns' j = first_named name ns j"
proof -
  have l: "length ns' = length ns" using arg_cong[OF assms, of length] by simp
  have "k < length ns \<Longrightarrow> node_name (ns' ! k) = node_name (ns ! k)" for k
    by (metis assms l nth_map)
  then show ?thesis by (auto simp: first_named_iff l)
qed

lemma prompt_names:
  assumes "length ns' = length ns"
    and "\<forall>j < length ns. if first_named name ns j then node_name (ns' ! j) = name \<and> Q j else ns' ! j = ns ! j"
  shows "map node_name ns' = map node_name ns"
proof (rule nth_equalityI)
  show "length (map node_name ns') = length (map node_name ns)" using assms(1) by simp
  fix j assume "j < length (map node_name ns')"
  then have j: "j < length ns" using assms(1) by simp
  then show "map node_name ns' ! j = map node_name ns ! j"
    using assms by (cases "first_named name ns j") (auto simp: first_named_def)
qed

lemma update_prompts_views:
  assumes "nodes_of w = Some ns" and "conns w = Some cs" and "list_all named ns"
    and "\<forall>n \<in> set ns. node_name n \<in> {''AI Agent'', ''Email AI Agent''} \<longrightarrow> has_options n"
  shows "\<exists>w' ns'. update_prompts w = Inr w' \<and> nodes_of w' = Some ns' \<and> conns w' = Some cs \<and>
           list_all named ns' \<and> prompts_replaced ns ns'"
proof -
  obtain w1 ns1 where 1: "set_system_message ''AI Agent'' SMS_SYSTEM_PROMPT w = Inr w1"
    "nodes_of w1 = Some ns1" "conns w1 = Some cs" "length ns1 = length ns" "list_all named ns1"
    "\<forall>j < length ns. if first_named ''AI Agent'' ns j
        then node_name (ns1 ! j) = ''AI Agent'' \<and> has_options (ns1 ! j) \<and> system_message (ns1 ! j) = Some SMS_SYSTEM_PROMPT
        else ns1 ! j = ns ! j"
    using set_system_message_views[OF assms(1-3), of "''AI Agent''" SMS_SYSTEM_PROMPT] assms(4) by auto
  have names1: "map node_name ns1 = map node_name ns" using prompt_names[OF 1(4,6)] .
  have opts1: "\<forall>n \<in> set ns1. node_name n = ''Email AI Agent'' \<longrightarrow> has_options n"
  proof
    fix n assume "n \<in> set ns1"
    then obtain j where j: "j < length ns" "n = ns1 ! j" using 1(4) by (auto simp: in_set_conv_nth)
    show "node_name n = ''Email AI Agent'' \<longrightarrow> has_options n"
      using 1(6) j assms(4) nth_mem[OF j(1)] by (cases "first_named ''AI Agent'' ns j") auto
  qed
  obtain w2 ns2 where 2: "set_system_message ''Email AI Agent'' EMAIL_SYSTEM_PROMPT w1 = Inr w2"
    "nodes_of w2 = Some ns2" "conns w2 = Some cs" "length ns2 = length ns1" "list_all named ns2"
    "\<forall>j < length ns1. if first_named ''Email AI Agent'' ns1 j
        then node_name (ns2 ! j) = ''Email AI Agent'' \<and> has_options (ns2 ! j) \<and> system_message (ns2 ! j) = Some EMAIL_SYSTEM_PROMPT
        else ns2 ! j = ns1 ! j"
    using set_system_message_views[OF 1(2,3,5) opts1] by blast
  have names2: "map node_name ns2 = map node_name ns1" using prompt_names[OF 2(4,6)] .
  have fn: "first_named ''Email AI Agent'' ns1 j = first_named ''Email AI Agent'' ns j" for j
    using first_named_cong[OF names1] .
  have ex: "\<not> (first_named ''AI Agent'' ns j \<and> first_named ''Email AI Agent'' ns j)" for j
    by (auto simp: first_named_def)
  have nth: "\<forall>j < length ns.
              if first_named ''AI Agent'' ns j then system_message (ns2 ! j) = Some SMS_SYSTEM_PROMPT
              else if first_named ''Email AI Agent'' ns j then system_message (ns2 ! j) = Some EMAIL_SYSTEM_PROMPT
              else ns2 ! j = ns ! j"
    using 1(4,6) 2(6) fn ex by (metis (full_types))
  show ?thesis
    using 1(1) 2(1) 2(2,3,5) 1(4) 2(4) names1 names2 nth by (auto simp: update_prompts_def prompts_replaced_def)
qed

lemma node_literals_named:
  "named (error_trigger_node i)" "named (airtable_fail_node i)" "named (supabase_unlock_node i)"
  "named (get_config_node i)" "named (batch_leads_node i)" "named (lock_lead_node i)" "named (wait_node i)"
  by (simp_all add: named_def error_trigger_node_def airtable_fail_node_def supabase_unlock_node_def
      get_config_node_def batch_leads_node_def lock_lead_node_def wait_node_def)

lemma rewirable_cong: "dict_get cs' k = dict_get cs k \<Longrightarrow> rewirable cs' k = rewirable cs k"
  by (simp add: rewirable_def)

lemma rewired_other_get: "k' \<noteq> k \<Longrightarrow> dict_get (rewired cs k t) k' = dict_get cs k'"
  by (simp add: rewired_def split: option.split json.split list.split)

lemma insert_config_views:
  assumes "nodes_of w = Some ns" and "conns w = Some cs" and "rewirable cs ''Webhook''"
  shows "\<exists>w'. insert_config uid w = Inr w' \<and> nodes_of w' = Some (ns @ [get_config_node (uid 3)]) \<and>
     conns w' = Some (dict_set (rewired cs ''Webhook'' (JList [link ''Fetch Dynamic Config'']))
                        ''Fetch Dynamic Config'' (main_to ''Workflow Configuration1''))"
proof -
  obtain w1 where 1: "add_node (get_config_node (uid 3)) w = Inr (w1, JStr (uid 3))"
    "nodes_of w1 = Some (ns @ [get_config_node (uid 3)])" "conns w1 = Some cs"
    using add_literal_views[OF node_literals_JObj(4) assms(1,2)] by blast
  obtain w2 where 2: "rewire_main0 ''Webhook'' (JList [link ''Fetch Dynamic Config'']) w1 = Inr w2"
    "conns w2 = Some (rewired cs ''Webhook'' (JList [link ''Fetch Dynamic Config'']))" "nodes_of w2 = nodes_of w1"
    using rewire_views[OF 1(3) assms(3)] by blast
  obtain w3 where 3: "set_connection ''Fetch Dynamic Config'' (main_to ''Workflow Configuration1'') w2 = Inr w3"
    "conns w3 = Some (dict_set (rewired cs ''Webhook'' (JList [link ''Fetch Dynamic Config'']))
                        ''Fetch Dynamic Config'' (main_to ''Workflow Configuration1''))" "nodes_of w3 = nodes_of w2"
    using set_connection_views[OF 2(2)] by blast
  show ?thesis using 1 2 3 by (simp add: insert_config_def)
qed

lemma insert_batch_views:
  assumes "nodes_of w = Some ns" and "conns w = Some cs" and "list_all named ns"
    and "rewirable cs ''Get Leads from Airtable1''"
  shows "\<exists>w'. insert_batch uid w = Inr w' \<and> nodes_of w' = Some (ns @ [batch_leads_node (uid 4)]) \<and>
     conns w' = Some (dict_set (rewired cs ''Get Leads from Airtable1'' (JList [link ''Batch Leads (Volume)'']))
                        ''Batch Leads (Volume)'' (main_to ''Split Leads1''))"
proof -
  obtain w1 where 1: "add_node (batch_leads_node (uid 4)) w = Inr (w1, JStr (uid 4))"
    "nodes_of w1 = Some (ns @ [batch_leads_node (uid 4)])" "conns w1 = Some cs"
    using add_literal_views[OF node_literals_JObj(5) assms(1,2)] by blast
  have "list_all named (ns @ [batch_leads_node (uid 4)])" using assms(3) node_literals_named by simp
  then obtain r where g: "get_node ''Get Leads from Airtable1'' w1 = Inr r"
    using get_node_ok[OF 1(2)] by blast
  obtain w2 where 2: "rewire_main0 ''Get Leads from Airtable1'' (JList [link ''Batch Leads (Volume)'']) w1 = Inr w2"
    "conns w2 = Some (rewired cs ''Get Leads from Airtable1'' (JList [link ''Batch Leads (Volume)'']))"
    "nodes_of w2 = nodes_of w1"
    using rewire_views[OF 1(3) assms(4)] by blast
  obtain w3 where 3: "set_connection ''Batch Leads (Volume)'' (main_to ''Split Leads1'') w2 = Inr w3"
    "conns w3 = Some (dict_set (rewired cs ''Get Leads from Airtable1'' (JList [link ''Batch Leads (Volume)'']))
                        ''Batch Leads (Volume)'' (main_to ''Split Leads1''))" "nodes_of w3 = nodes_of w2"
    using set_connection_views[OF 2(2)] by blast
  show ?thesis using 1 g 2 3 by (simp add: insert_batch_def)
qed

lemma insert_lock_wait_views:
  assumes "nodes_of w = Some ns" and "conns w = Some cs" and "rewirable cs ''Split Leads1''"
  shows "\<exists>w'. insert_lock_wait uid w = Inr w' \<and>
     nodes_of w' = Some (ns @ [lock_lead_node (uid 5), wait_node (uid 6)]) \<and>
     conns w' = Some (dict_set (dict_set (rewired cs ''Split Leads1'' (JList [link ''Lock Lead Status'']))
                        ''Lock Lead Status'' (main_to ''Anti-Rate Limit Wait''))
                        ''Anti-Rate Limit Wait'' (main_to ''Check if Mobile Number''))"
proof -
  obtain w1 where 1: "add_node (lock_lead_node (uid 5)) w = Inr (w1, JStr (uid 5))"
    "nodes_of w1 = Some (ns @ [lock_lead_node (uid 5)])" "conns w1 = Some cs"
    using add_literal_views[OF node_literals_JObj(6) assms(1,2)] by blast
  obtain w2 where 2: "add_node (wait_node (uid 6)) w1 = Inr (w2, JStr (uid 6))"
    "nodes_of w2 = Some (ns @ [lock_lead_node (uid 5), wait_node (uid 6)])" "conns w2 = Some cs"
    using add_literal_views[OF node_literals_JObj(7) 1(2,3)] by auto
  obtain w3 where 3: "rewire_main0 ''Split Leads1'' (JList [link ''Lock Lead Status'']) w2 = Inr w3"
    "conns w3 = Some (rewired cs ''Split Leads1'' (JList [link ''Lock Lead Status'']))" "nodes_of w3 = nodes_of w2"
    using rewire_views[OF 2(3) assms(3)] by blast
  obtain w4 where 4: "set_connection ''Lock Lead Status'' (main_to ''Anti-Rate Limit Wait'') w3 = Inr w4"
    "conns w4 = Some (dict_set (rewired cs ''Split Leads1'' (JList [link ''Lock Lead Status'']))
                        ''Lock Lead Status'' (main_to ''Anti-Rate Limit Wait''))" "nodes_of w4 = nodes_of w3"
    using set_connection_views[OF 3(2)] by blast
  obtain w5 where 5: "set_connection ''Anti-Rate Limit Wait'' (main_to ''Check if Mobile Number'') w4 = Inr w5"
    "conns w5 = Some (dict_set (dict_set (rewired cs ''Split Leads1'' (JList [link ''Lock Lead Status'']))
                        ''Lock Lead Status'' (main_to ''Anti-Rate Limit Wait''))
                        ''Anti-Rate Limit Wait'' (main_to ''Check if Mobile Number''))" "nodes_of w5 = nodes_of w4"
    using set_connection_views[OF 4(2)] by blast
  show ?thesis using 1(1) 2(1,2) 3(1,3) 4(1,3) 5 by (simp add: insert_lock_wait_def)
qed

lemma prompts_replaced_append:
  assumes "prompts_replaced (ns @ xs) ns2"
    and "\<forall>n \<in> set xs. node_name n \<notin> {''AI Agent'', ''Email AI Agent''}"
  shows "\<exists>ns'. ns2 = ns' @ xs \<and> prompts_replaced ns ns'"
proof -
  note r = assms(1)[unfolded prompts_replaced_def]
  have nf: "\<not> first_named a (ns @ xs) (length ns + k)" if "a \<in> {''AI Agent'', ''Email AI Agent''}" for a k
    using that assms(2) by (auto simp: first_named_def nth_append dest: nth_mem)
  define ns' where "ns' = take (length ns) ns2"
  have "drop (length ns) ns2 = xs"
  proof (rule nth_equalityI)
    show "length (drop (length ns) ns2) = length xs" using r by simp
    fix k assume "k < length (drop (length ns) ns2)"
    then have k: "length ns + k < length (ns @ xs)" using r by simp
    have "ns2 ! (length ns + k) = (ns @ xs) ! (length ns + k)"
      using r k nf[of "''AI Agent''" k] nf[of "''Email AI Agent''" k] by auto
    then show "drop (length ns) ns2 ! k = xs ! k" using k r by simp
  qed
  then have ns2: "ns2 = ns' @ xs" unfolding ns'_def by (metis append_take_drop_id)
  have len: "length ns' = length ns" using r by (simp add: ns'_def)
  have names: "map node_name ns' = map node_name ns" using r ns2 len by simp
  have fa: "j < length ns \<Longrightarrow> first_named a (ns @ xs) j = first_named a ns j" for a j
    by (simp add: first_named_def nth_append)
  have nth: "\<forall>j < length ns.
        if first_named ''AI Agent'' ns j then system_message (ns' ! j) = Some SMS_SYSTEM_PROMPT
        else if first_named ''Email AI Agent'' ns j then system_message (ns' ! j) = Some EMAIL_SYSTEM_PROMPT
        else ns' ! j = ns ! j"
  proof (intro allI impI)
    fix j assume j: "j < length ns"
    have e: "ns2 ! j = ns' ! j" "(ns @ xs) ! j = ns ! j" using j len ns2 by (simp_all add: nth_append)
    have "j < length (ns @ xs)" using j by simp
    from r[THEN conjunct2, THEN conjunct2, rule_format, OF this]
    show "if first_named ''AI Agent'' ns j then system_message (ns' ! j) = Some SMS_SYSTEM_PROMPT
        else if first_named ''Email AI Agent'' ns j then system_message (ns' ! j) = Some EMAIL_SYSTEM_PROMPT
        else ns' ! j = ns ! j"
      unfolding fa[OF j] e .
  qed
  show ?thesis using ns2 len names nth by (auto simp: prompts_replaced_def)
qed

lemma error_nodes_not_agents:
  "\<forall>n \<in> set [error_trigger_node a, airtable_fail_node b, supabase_unlock_node c].
     node_name n \<notin> {''AI Agent'', ''Email AI Agent''}"
  by (simp add: node_name_def error_trigger_node_def airtable_fail_node_def supabase_unlock_node_def)

text \<open>The script up to the last phase: every phase before it succeeds on a legacy document.\<close>

lemma perfect_workflow_prefix:
  assumes "nodes_of doc = Some ns" and "conns doc = Some cs" and "list_all named ns"
    and "list_all (\<lambda>n. node_name n \<in> {''AI Agent'', ''Email AI Agent''} \<longrightarrow> has_options n) ns"
    and "rewirable cs ''Webhook''" and "rewirable cs ''Get Leads from Airtable1''"
  shows "\<exists>w5 ns'. perfect_workflow uid doc = insert_lock_wait uid w5 \<and> prompts_replaced ns ns' \<and>
     nodes_of w5 = Some (ns' @ [error_trigger_node (uid 0), airtable_fail_node (uid 1),
        supabase_unlock_node (uid 2), get_config_node (uid 3), batch_leads_node (uid 4)]) \<and>
     conns w5 = Some (batch_conns cs)"
proof -
  define c1 where "c1 = dict_set (dict_set cs ''Error Trigger'' (main_to ''Airtable - Mark Failed''))
                   ''Airtable - Mark Failed'' (main_to ''Supabase - Release Lock'')"
  define c2 where "c2 = dict_set (rewired c1 ''Webhook'' (JList [link ''Fetch Dynamic Config'']))
                   ''Fetch Dynamic Config'' (main_to ''Workflow Configuration1'')"
  define added1 where "added1 = [error_trigger_node (uid 0), airtable_fail_node (uid 1), supabase_unlock_node (uid 2)]"
  obtain w1 where 1: "add_error_path uid doc = Inr w1" "nodes_of w1 = Some (ns @ added1)" "conns w1 = Some c1"
    using add_error_path_views[OF assms(1,2)] unfolding c1_def added1_def by blast
  have named1: "list_all named (ns @ added1)" using assms(3) node_literals_named by (simp add: added1_def)
  have opts1: "\<forall>n \<in> set (ns @ added1). node_name n \<in> {''AI Agent'', ''Email AI Agent''} \<longrightarrow> has_options n"
    using assms(4) error_nodes_not_agents unfolding added1_def list_all_iff by auto
  obtain w2 ns2 where 2: "update_prompts w1 = Inr w2" "nodes_of w2 = Some ns2" "conns w2 = Some c1"
    "list_all named ns2" "prompts_replaced (ns @ added1) ns2"
    using update_prompts_views[OF 1(2,3) named1 opts1] by blast
  obtain ns' where ns': "ns2 = ns' @ added1" "prompts_replaced ns ns'"
    using prompts_replaced_append[OF 2(5)] error_nodes_not_agents unfolding added1_def by blast
  have 3: "lookup_anchors w2 = Inr w2" using lookup_anchors_ok[OF 2(2,4)] .
  have rw: "rewirable c1 ''Webhook''" using assms(5) rewirable_cong[of c1 "''Webhook''" cs]
    by (simp add: c1_def)
  obtain w4 where 4: "insert_config uid w2 = Inr w4" "nodes_of w4 = Some (ns2 @ [get_config_node (uid 3)])"
    "conns w4 = Some c2"
    using insert_config_views[OF 2(2,3) rw] unfolding c2_def by blast
  have named4: "list_all named (ns2 @ [get_config_node (uid 3)])" using 2(4) node_literals_named by simp
  have rg: "rewirable c2 ''Get Leads from Airtable1''"
    using assms(6) rewirable_cong[of c2 "''Get Leads from Airtable1''" cs]
    by (simp add: c2_def c1_def rewired_other_get)
  obtain w5 where 5: "insert_batch uid w4 = Inr w5"
    "nodes_of w5 = Some (ns2 @ [get_config_node (uid 3), batch_leads_node (uid 4)])"
    "conns w5 = Some (dict_set (rewired c2 ''Get Leads from Airtable1'' (JList [link ''Batch Leads (Volume)'']))
                   ''Batch Leads (Volume)'' (main_to ''Split Leads1''))"
    using insert_batch_views[OF 4(2,3) named4 rg] by auto
  have run: "perfect_workflow uid doc = insert_lock_wait uid w5"
    using 1(1) 2(1) 3 4(1) 5(1) by (simp add: perfect_workflow_def later_phases_def)
  show ?thesis
    using run ns' 5(2,3) unfolding batch_conns_def c2_def c1_def added1_def Let_def
    by (intro exI[of _ w5] exI[of _ ns'] conjI) simp_all
qed

lemma perfect_workflow_views:
  assumes "nodes_of doc = Some ns" and "conns doc = Some cs" and "legacy_ok ns cs"
  shows "\<exists>doc' ns'. perfect_workflow uid doc = Inr doc' \<and> prompts_replaced ns ns' \<and>
     nodes_of doc' = Some (ns' @ [error_trigger_node (uid 0), airtable_fail_node (uid 1),
        supabase_unlock_node (uid 2), get_config_node (uid 3), batch_leads_node (uid 4),
        lock_lead_node (uid 5), wait_node (uid 6)]) \<and>
     conns doc' = Some (script_conns cs)"
proof -
  note ok = assms(3)[unfolded legacy_ok_def]
  obtain w5 ns' where 5: "perfect_workflow uid doc = insert_lock_wait uid w5" "prompts_replaced ns ns'"
    "nodes_of w5 = Some (ns' @ [error_trigger_node (uid 0), airtable_fail_node (uid 1),
        supabase_unlock_node (uid 2), get_config_node (uid 3), batch_leads_node (uid 4)])"
    "conns w5 = Some (batch_conns cs)"
    using perfect_workflow_prefix[OF assms(1,2)] ok by blast
  have rs: "rewirable (batch_conns cs) ''Split Leads1''"
    using ok by (simp add: batch_conns_def Let_def rewirable_def rewired_other_get)
  obtain w6 where 6: "insert_lock_wait uid w5 = Inr w6"
    "nodes_of w6 = Some ((ns' @ [error_trigger_node (uid 0), airtable_fail_node (uid 1),
        supabase_unlock_node (uid 2), get_config_node (uid 3), batch_leads_node (uid 4)]) @
        [lock_lead_node (uid 5), wait_node (uid 6)])"
    "conns w6 = Some (script_conns cs)"
    using insert_lock_wait_views[OF 5(3,4) rs] unfolding script_conns_def by blast
  show ?thesis using 6 5(1,2) by (intro exI[of _ w6] exI[of _ ns'] conjI) simp_all
qed

lemma script_conns_batch: "dict_get (script_conns cs) ''Batch Leads (Volume)'' = Some (main_to ''Split Leads1'')"
  by (simp add: script_conns_def batch_conns_def Let_def rewired_other_get)

lemma example_views:
  "nodes_of (example_doc cs) = Some example_nodes" "conns (example_doc cs) = Some cs"
  by (simp_all add: example_doc_def nodes_of_def conns_def)

lemma example_legacy_ok: "legacy_ok example_nodes example_conns"
  by (simp add: legacy_ok_def example_nodes_def example_conns_def example_node_def named_def
      node_name_def has_options_def rewirable_def main_to_def)

lemma example_has:
  "dict_has example_conns ''Webhook''" "dict_has example_conns ''Get Leads from Airtable1''"
  "dict_has example_conns ''Split Leads1''"
  by (simp_all add: example_conns_def dict_has_def)

lemma insert_lock_wait_empty_main:
  assumes "nodes_of w = Some ns" and "conns w = Some cs"
    and "dict_get cs ''Split Leads1'' = Some (JObj ck)" and "dict_get ck ''main'' = Some (JList [])"
  shows "insert_lock_wait uid w = Inl IndexError"
proof -
  obtain w1 where 1: "add_node (lock_lead_node (uid 5)) w = Inr (w1, JStr (uid 5))"
    "nodes_of w1 = Some (ns @ [lock_lead_node (uid 5)])" "conns w1 = Some cs"
    using add_literal_views[OF node_literals_JObj(6) assms(1,2)] by blast
  obtain w2 where 2: "add_node (wait_node (uid 6)) w1 = Inr (w2, JStr (uid 6))" "conns w2 = Some cs"
    using add_literal_views[OF node_literals_JObj(7) 1(2,3)] by blast
  obtain kvs where "w2 = JObj kvs" "dict_get kvs ''connections'' = Some (JObj cs)"
    using views_JObj[OF 2(2)] by blast
  then have "rewire_main0 ''Split Leads1'' (JList [link ''Lock Lead Status'']) w2 = Inl IndexError"
    using assms(3,4) rewire_empty_main by blast
  then show ?thesis using 1(1) 2(1) by (simp add: insert_lock_wait_def)
qed

section \<open>Properties of the script\<close>

text \<open>
  C11. On every legacy document (\<open>legacy_ok\<close>) the script succeeds, and the first output of
  each connection it writes goes where the script says: Error Trigger \<open>\<rightarrow>\<close> Airtable - Mark
  Failed \<open>\<rightarrow>\<close> Supabase - Release Lock, Fetch Dynamic Config \<open>\<rightarrow>\<close> Workflow Configuration1,
  Batch Leads (Volume) \<open>\<rightarrow>\<close> Split Leads1, Lock Lead Status \<open>\<rightarrow>\<close> Anti-Rate Limit Wait
  \<open>\<rightarrow>\<close> Check if Mobile Number. Webhook, Get Leads from Airtable1 and Split Leads1, when they
  have an entry, now lead only to Fetch Dynamic Config, Batch Leads (Volume) and Lock Lead
  Status: their old first targets are dropped.
\<close>

theorem perfect_workflow_wiring:
  assumes "nodes_of doc = Some ns" and "conns doc = Some cs" and "legacy_ok ns cs"
  shows "\<exists>doc'. perfect_workflow uid doc = Inr doc' \<and>
     main0 doc' ''Error Trigger'' = Some [link ''Airtable - Mark Failed''] \<and>
     main0 doc' ''Airtable - Mark Failed'' = Some [link ''Supabase - Release Lock''] \<and>
     main0 doc' ''Fetch Dynamic Config'' = Some [link ''Workflow Configuration1''] \<and>
     main0 doc' ''Batch Leads (Volume)'' = Some [link ''Split Leads1''] \<and>
     main0 doc' ''Lock Lead Status'' = Some [link ''Anti-Rate Limit Wait''] \<and>
     main0 doc' ''Anti-Rate Limit Wait'' = Some [link ''Check if Mobile Number''] \<and>
     (dict_has cs ''Webhook'' \<longrightarrow> main0 doc' ''Webhook'' = Some [link ''Fetch Dynamic Config'']) \<and>
     (dict_has cs ''Get Leads from Airtable1'' \<longrightarrow>
        main0 doc' ''Get Leads from Airtable1'' = Some [link ''Batch Leads (Volume)'']) \<and>
     (dict_has cs ''Split Leads1'' \<longrightarrow> main0 doc' ''Split Leads1'' = Some [link ''Lock Lead Status''])"
proof -
  note ok = assms(3)[unfolded legacy_ok_def]
  obtain doc' ns' where d: "perfect_workflow uid doc = Inr doc'"
    "conns doc' = Some (script_conns cs)"
    using perfect_workflow_views[OF assms] by blast
  show ?thesis
    using d ok by (simp add: main0_def Let_def script_conns_def batch_conns_def rewired_other_get
        main0_rewired rewirable_def dict_has_iff_get)
qed

theorem perfect_workflow_wiring_witness:
  "legacy_ok example_nodes example_conns \<and>
   (\<exists>doc'. perfect_workflow (\<lambda>_. ''uuid'') (example_doc example_conns) = Inr doc' \<and>
      main0 doc' ''Error Trigger'' = Some [link ''Airtable - Mark Failed''] \<and>
      main0 doc' ''Webhook'' = Some [link ''Fetch Dynamic Config''] \<and>
      main0 doc' ''Split Leads1'' = Some [link ''Lock Lead Status''])"
  using perfect_workflow_wiring[OF example_views example_legacy_ok, of "\<lambda>_. ''uuid''"] example_legacy_ok
    example_has by blast

text \<open>
  C12. The script appends exactly the seven new nodes after the legacy ones, in the order of
  its \<open>add_node\<close> calls; of the legacy nodes it changes only the first AI Agent and the first
  Email AI Agent, whose system messages become the two prompts, and it renames none.
\<close>

theorem perfect_workflow_nodes:
  assumes "nodes_of doc = Some ns" and "conns doc = Some cs" and "legacy_ok ns cs"
  shows "\<exists>doc' ns'. perfect_workflow uid doc = Inr doc' \<and> prompts_replaced ns ns' \<and>
     nodes_of doc' = Some (ns' @ [error_trigger_node (uid 0), airtable_fail_node (uid 1),
        supabase_unlock_node (uid 2), get_config_node (uid 3), batch_leads_node (uid 4),
        lock_lead_node (uid 5), wait_node (uid 6)])"
  using perfect_workflow_views[OF assms] by blast

theorem perfect_workflow_nodes_witness:
  "legacy_ok example_nodes example_conns \<and>
   (\<exists>doc' ns'. perfect_workflow (\<lambda>_. ''uuid'') (example_doc example_conns) = Inr doc' \<and>
      nodes_of doc' = Some (ns' @ [error_trigger_node ''uuid'', airtable_fail_node ''uuid'',
        supabase_unlock_node ''uuid'', get_config_node ''uuid'', batch_leads_node ''uuid'',
        lock_lead_node ''uuid'', wait_node ''uuid'']) \<and>
      system_message (ns' ! 5) = Some SMS_SYSTEM_PROMPT \<and>
      system_message (ns' ! 6) = Some EMAIL_SYSTEM_PROMPT \<and> ns' ! 0 = example_node ''Webhook'')"
proof -
  obtain doc' ns' where d: "perfect_workflow (\<lambda>_. ''uuid'') (example_doc example_conns) = Inr doc'"
    "prompts_replaced example_nodes ns'"
    "nodes_of doc' = Some (ns' @ [error_trigger_node ''uuid'', airtable_fail_node ''uuid'',
        supabase_unlock_node ''uuid'', get_config_node ''uuid'', batch_leads_node ''uuid'',
        lock_lead_node ''uuid'', wait_node ''uuid''])"
    using perfect_workflow_nodes[OF example_views example_legacy_ok, of "\<lambda>_. ''uuid''"] by blast
  have p: "\<forall>j < 7. if first_named ''AI Agent'' example_nodes j then system_message (ns' ! j) = Some SMS_SYSTEM_PROMPT
        else if first_named ''Email AI Agent'' example_nodes j then system_message (ns' ! j) = Some EMAIL_SYSTEM_PROMPT
        else ns' ! j = example_nodes ! j"
    using d(2) by (simp add: prompts_replaced_def example_nodes_def)
  have "first_named ''AI Agent'' example_nodes 5" "first_named ''Email AI Agent'' example_nodes 6"
    "\<not> first_named ''AI Agent'' example_nodes 6"
    "\<not> first_named ''AI Agent'' example_nodes 0" "\<not> first_named ''Email AI Agent'' example_nodes 0"
    by (simp_all add: first_named_def example_nodes_def example_node_def node_name_def)
  then have "system_message (ns' ! 5) = Some SMS_SYSTEM_PROMPT" "system_message (ns' ! 6) = Some EMAIL_SYSTEM_PROMPT"
    "ns' ! 0 = example_nodes ! 0"
    using p[rule_format, of 5] p[rule_format, of 6] p[rule_format, of 0] by auto
  then show ?thesis using d(1,3) example_legacy_ok by (auto simp: example_nodes_def)
qed

text \<open>
  C32. The connection entries of every node the script does not name are left as they were.
\<close>

theorem perfect_workflow_frame:
  assumes "nodes_of doc = Some ns" and "conns doc = Some cs" and "legacy_ok ns cs"
  shows "\<exists>doc' cs'. perfect_workflow uid doc = Inr doc' \<and> conns doc' = Some cs' \<and>
     (\<forall>k. k \<notin> {''Error Trigger'', ''Airtable - Mark Failed'', ''Webhook'', ''Fetch Dynamic Config'',
                ''Get Leads from Airtable1'', ''Batch Leads (Volume)'', ''Split Leads1'',
                ''Lock Lead Status'', ''Anti-Rate Limit Wait''} \<longrightarrow> dict_get cs' k = dict_get cs k)"
proof -
  obtain doc' ns' where d: "perfect_workflow uid doc = Inr doc'"
    "conns doc' = Some (script_conns cs)"
    using perfect_workflow_views[OF assms] by blast
  show ?thesis
    using d by (intro exI[of _ doc'] exI[of _ "the (conns doc')"] conjI allI impI)
      (simp_all add: Let_def script_conns_def batch_conns_def rewired_other_get)
qed

theorem perfect_workflow_frame_witness:
  "legacy_ok example_nodes example_conns \<and>
   (\<exists>doc' cs'. perfect_workflow (\<lambda>_. ''uuid'') (example_doc example_conns) = Inr doc' \<and>
      conns doc' = Some cs' \<and> dict_get cs' ''Check if Mobile Number'' = Some (main_to ''AI Agent''))"
proof -
  obtain doc' cs' where d: "perfect_workflow (\<lambda>_. ''uuid'') (example_doc example_conns) = Inr doc'"
    "conns doc' = Some cs'"
    "\<forall>k. k \<notin> {''Error Trigger'', ''Airtable - Mark Failed'', ''Webhook'', ''Fetch Dynamic Config'',
                ''Get Leads from Airtable1'', ''Batch Leads (Volume)'', ''Split Leads1'',
                ''Lock Lead Status'', ''Anti-Rate Limit Wait''} \<longrightarrow> dict_get cs' k = dict_get example_conns k"
    using perfect_workflow_frame[OF example_views example_legacy_ok, of "\<lambda>_. ''uuid''"] by blast
  have "dict_get cs' ''Check if Mobile Number'' = Some (main_to ''AI Agent'')"
    using d(3)[rule_format, of "''Check if Mobile Number''"] by (simp add: example_conns_def)
  then show ?thesis using d(1,2) example_legacy_ok by blast
qed

text \<open>
  C13. When the legacy workflow has no connection entry for Webhook and nothing leads to Fetch
  Dynamic Config, nothing leads to it afterwards either: the configuration fetch is added
  but can never run.
\<close>

theorem fetch_config_unreachable_without_webhook:
  assumes "nodes_of doc = Some ns" and "conns doc = Some cs" and "legacy_ok ns cs"
    and "dict_get cs ''Webhook'' = None" and "\<forall>k. \<not> feeds cs ''Fetch Dynamic Config'' k"
  shows "\<exists>doc' cs'. perfect_workflow uid doc = Inr doc' \<and> conns doc' = Some cs' \<and>
     (\<forall>k. \<not> feeds cs' ''Fetch Dynamic Config'' k)"
proof -
  obtain doc' ns' where d: "perfect_workflow uid doc = Inr doc'"
    "conns doc' = Some (script_conns cs)"
    using perfect_workflow_views[OF assms(1-3)] by blast
  have "\<not> feeds (the (conns doc')) ''Fetch Dynamic Config'' k" for k
    using d(2) assms(4,5)
    by (auto simp: Let_def script_conns_def batch_conns_def rewired_absent split: if_splits
        dest!: feeds_rewired_other)
  then show ?thesis using d by auto
qed

theorem fetch_config_unreachable_without_webhook_witness:
  "legacy_ok example_nodes scheduled_conns \<and> dict_get scheduled_conns ''Webhook'' = None \<and>
   (\<forall>k. \<not> feeds scheduled_conns ''Fetch Dynamic Config'' k) \<and>
   (\<exists>doc' cs'. perfect_workflow (\<lambda>_. ''uuid'') (example_doc scheduled_conns) = Inr doc' \<and>
      conns doc' = Some cs' \<and> (\<forall>k. \<not> feeds cs' ''Fetch Dynamic Config'' k))"
proof -
  have h: "legacy_ok example_nodes scheduled_conns" "dict_get scheduled_conns ''Webhook'' = None"
    "\<forall>k. \<not> feeds scheduled_conns ''Fetch Dynamic Config'' k"
    by (simp_all add: legacy_ok_def example_nodes_def scheduled_conns_def example_node_def named_def
      node_name_def has_options_def rewirable_def main_to_def feeds_def out_links_def)
  show ?thesis using fetch_config_unreachable_without_webhook[OF example_views h] h by blast
qed

text \<open>
  C14. Only Get Leads from Airtable1 feeds Batch Leads (Volume): no connection returns from the
  loop body to the batch node, so the batch loop is never closed.
\<close>

theorem batch_loop_not_closed:
  assumes "nodes_of doc = Some ns" and "conns doc = Some cs" and "legacy_ok ns cs"
    and "\<forall>k. \<not> feeds cs ''Batch Leads (Volume)'' k"
  shows "\<exists>doc' cs'. perfect_workflow uid doc = Inr doc' \<and> conns doc' = Some cs' \<and>
     (\<forall>k. feeds cs' ''Batch Leads (Volume)'' k \<longrightarrow> k = ''Get Leads from Airtable1'')"
proof -
  obtain doc' ns' where d: "perfect_workflow uid doc = Inr doc'"
    "conns doc' = Some (script_conns cs)"
    using perfect_workflow_views[OF assms(1-3)] by blast
  have "feeds (the (conns doc')) ''Batch Leads (Volume)'' k \<Longrightarrow> k = ''Get Leads from Airtable1''" for k
    using d(2) assms(4)
    by (auto simp: Let_def script_conns_def batch_conns_def split: if_splits
        dest!: feeds_rewired_other feeds_rewired)
  then show ?thesis using d by auto
qed

theorem batch_loop_not_closed_witness:
  "legacy_ok example_nodes example_conns \<and> (\<forall>k. \<not> feeds example_conns ''Batch Leads (Volume)'' k) \<and>
   (\<exists>doc' cs'. perfect_workflow (\<lambda>_. ''uuid'') (example_doc example_conns) = Inr doc' \<and>
      conns doc' = Some cs' \<and> (\<forall>k. feeds cs' ''Batch Leads (Volume)'' k \<longrightarrow> k = ''Get Leads from Airtable1''))"
proof -
  have h: "\<forall>k. \<not> feeds example_conns ''Batch Leads (Volume)'' k"
    by (simp add: example_conns_def feeds_def)
  show ?thesis using batch_loop_not_closed[OF example_views example_legacy_ok h] h example_legacy_ok by blast
qed

text \<open>
  C31. If the connection entry of Split Leads1 has an empty \<open>main\<close> list, the script raises
  \<open>IndexError\<close> at line 250, after every earlier phase succeeded, and writes no file.
\<close>

theorem perfect_workflow_empty_split_main:
  assumes "nodes_of doc = Some ns" and "conns doc = Some cs" and "list_all named ns"
    and "list_all (\<lambda>n. node_name n \<in> {''AI Agent'', ''Email AI Agent''} \<longrightarrow> has_options n) ns"
    and "rewirable cs ''Webhook''" and "rewirable cs ''Get Leads from Airtable1''"
    and "dict_get cs ''Split Leads1'' = Some (JObj ck)" and "dict_get ck ''main'' = Some (JList [])"
  shows "perfect_workflow uid doc = Inl IndexError"
proof -
  obtain w5 ns' cs5 where 5: "perfect_workflow uid doc = insert_lock_wait uid w5"
    "nodes_of w5 = Some (ns' @ [error_trigger_node (uid 0), airtable_fail_node (uid 1),
        supabase_unlock_node (uid 2), get_config_node (uid 3), batch_leads_node (uid 4)])"
    "conns w5 = Some cs5" "dict_get cs5 ''Split Leads1'' = dict_get cs ''Split Leads1''"
    using perfect_workflow_prefix[OF assms(1-6), of uid]
    by (auto simp: Let_def batch_conns_def rewired_other_get)
  show ?thesis using insert_lock_wait_empty_main[OF 5(2,3)] 5(1,4) assms(7,8) by simp
qed

theorem perfect_workflow_empty_split_main_witness:
  "perfect_workflow (\<lambda>_. ''uuid'')
     (example_doc [(''Split Leads1'', JObj [(''main'', JList [])])]) = Inl IndexError"
proof -
  have h: "list_all named example_nodes"
    "list_all (\<lambda>n. node_name n \<in> {''AI Agent'', ''Email AI Agent''} \<longrightarrow> has_options n) example_nodes"
    by (simp_all add: example_nodes_def example_node_def named_def node_name_def has_options_def)
  show ?thesis
    using perfect_workflow_empty_split_main[OF example_views h,
        where cs = "[(''Split Leads1'', JObj [(''main'', JList [])])]" and ck = "[(''main'', JList [])]"
        and uid = "\<lambda>_. ''uuid''"]
    by (simp add: rewirable_def)
qed

end
