(* ===== verification/ScraperWorkflow.thy ===== *)
theory ScraperWorkflow
  imports Workflow LeadStore
begin

text \<open>
  src/execution/build_scraper_workflow.py: the document it writes and what the five nodes of
  that document do when n8n runs it. The script builds the document at module level: an
  empty workflow (lines 9-14), five \<open>add_node\<close> calls (lines 21-114) and the connections dict
  (lines 117-122); \<open>build_scraper\<close> is that sequence, with the five \<open>uuid.uuid4()\<close> values
  the parameter \<open>uid 0, ..., uid 4\<close>. At run time the schedule trigger fires after a random
  number of minutes (\<open>trigger_interval\<close>), the code node picks a user agent
  (\<open>ua_rotator\<close>), the HTTP node fetches the listing page once (it sets no node-level
  retry, \<open>retry_on_fail\<close>), the agent turns the page into candidates (a parameter: an
  LLM call) and the Supabase node upserts each of them (\<open>LeadStore.elite_upsert\<close>);
  \<open>scrape_run\<close> is that linear flow.
\<close>

section \<open>The document\<close>

text \<open>The empty workflow (lines 9-14).\<close>

definition scraper_init :: json where
  "scraper_init =
     JObj [(''name'', JStr ''KRONOS Elite Swiss Scraper (High-Performance)''), (''nodes'', JList []),
           (''connections'', JObj []), (''settings'', JObj [(''executionOrder'', JStr ''v1'')])]"

text \<open>\<open>workflow['nodes'].append(node); return node['name']\<close> (lines 16-18).\<close>

definition add_node_named :: "json \<Rightarrow> json \<Rightarrow> (json \<times> json) result" where
  "add_node_named node doc =
     bind_res (jget doc ''nodes'')
       (\<lambda>ns. bind_res (jappend ns node)
         (\<lambda>ns'. bind_res (jset doc ''nodes'' ns')
           (\<lambda>doc'. map_res (\<lambda>n. (doc', n)) (jget node ''name''))))"

text \<open>Randomized Trigger (lines 21-30).\<close>

definition trigger_node :: "string \<Rightarrow> json" where
  "trigger_node i =
     JObj [(''parameters'', JObj [(''rule'', JObj [(''interval'', JList [
              JObj [(''field'', JStr ''minutes''), (''value'', JStr ''={{ Math.floor(Math.random() * 60) }}'')]])])]),
           (''id'', JStr i), (''name'', JStr ''Randomized Trigger''),
           (''type'', JStr ''n8n-nodes-base.scheduleTrigger''), (''typeVersion'', JInt 1),
           (''position'', JList [JInt 400, JInt 600])]"

text \<open>The user-agent pool of the rotator's code (lines 36-38) and the code itself (35-43).\<close>

definition UAS :: "string list" where
  "UAS =
     [''Mozilla/5.0 (Windows NT 10.0; Win64; x64) AppleWebKit/537.36 (KHTML, like Gecko) Chrome/120.0.0.0 Safari/537.36'',
      ''Mozilla/5.0 (Macintosh; Intel Mac OS X 10_15_7) AppleWebKit/537.36 (KHTML, like Gecko) Chrome/119.0.0.0 Safari/537.36'',
      ''Mozilla/5.0 (X11; Linux x86_64) AppleWebKit/537.36 (KHTML, like Gecko) Chrome/118.0.0.0 Safari/537.36'']"

definition UA_ROTATOR_JS :: string where
  "UA_ROTATOR_JS = ''const uas = [
  'Mozilla/5.0 (Windows NT 10.0; Win64; x64) AppleWebKit/537.36 (KHTML, like Gecko) Chrome/120.0.0.0 Safari/537.36',
  'Mozilla/5.0 (Macintosh; Intel Mac OS X 10_15_7) AppleWebKit/537.36 (KHTML, like Gecko) Chrome/119.0.0.0 Safari/537.36',
  'Mozilla/5.0 (X11; Linux x86_64) AppleWebKit/537.36 (KHTML, like Gecko) Chrome/118.0.0.0 Safari/537.36'
];
return { 
    userAgent: uas[Math.floor(Math.random() * uas.length)],
    timestamp: new Date().toISOString()
};''"

text \<open>User-Agent Rotator (lines 33-51).\<close>

definition ua_node :: "string \<Rightarrow> json" where
  "ua_node i =
     JObj [(''parameters'', JObj [(''jsCode'', JStr UA_ROTATOR_JS)]),
           (''id'', JStr i), (''name'', JStr ''User-Agent Rotator''),
           (''type'', JStr ''n8n-nodes-base.code''), (''typeVersion'', JInt 2),
           (''position'', JList [JInt 600, JInt 600])]"

text \<open>Fetch ImmoScout24 (Anti-Bot) (lines 54-69).\<close>

definition fetch_node :: "string \<Rightarrow> json" where
  "fetch_node i =
     JObj [(''parameters'', JObj [
              (''url'', JStr ''https://www.immoscout24.ch/en/real-estate/buy/city-lugano''),
              (''headerParameters'', JObj [(''parameters'', JList [
                 JObj [(''name'', JStr ''User-Agent''),
                       (''value'', JStr ''={{ $node[\"User-Agent Rotator\"].json.userAgent }}'')]])]),
              (''options'', JObj [(''retry'', JObj [(''count'', JInt 5), (''delay'', JInt 10000)])])]),
           (''id'', JStr i), (''name'', JStr ''Fetch ImmoScout24 (Anti-Bot)''),
           (''type'', JStr ''n8n-nodes-base.httpRequest''), (''typeVersion'', JFloat 41 1),
           (''position'', JList [JInt 800, JInt 600])]"

text \<open>The parser's prompt (lines 72-80) and AI Elite Parser \& Scorer (lines 82-91).\<close>

definition PARSING_PROMPT :: string where
  "PARSING_PROMPT = ''Extract ALL real estate agencies from this Swiss data. 
FOR EACH LEAD, CALCULATE A 'LEAD_SCORE' (1-10) BASED ON:
- Brand recognizable in Switzerland (+2)
- High inventory / Luxury listings (+3)
- Commercial/Office focus (+2)
- Completeness of contact info (+3)

EXTRACT: AgencyName, LeadScore, Sector (Luxury/Standard/Commercial), City, Phone.
Return as a clean JSON ARRAY.''"

definition parser_node :: "string \<Rightarrow> json" where
  "parser_node i =
     JObj [(''parameters'', JObj [(''options'', JObj [(''systemMessage'', JStr PARSING_PROMPT)])]),
           (''id'', JStr i), (''name'', JStr ''AI Elite Parser & Scorer''),
           (''type'', JStr ''@n8n/n8n-nodes-langchain.agent''), (''typeVersion'', JFloat 16 1),
           (''position'', JList [JInt 1050, JInt 600])]"

text \<open>Supabase - Elite Upsert (lines 94-114); \<open>LeadStore.elite_upsert\<close> is what it does.\<close>

definition upsert_node :: "string \<Rightarrow> json" where
  "upsert_node i =
     JObj [(''parameters'', JObj [
              (''operation'', JStr ''upsert''), (''tableId'', JStr ''leads''), (''matchColumn'', JStr ''url''),
              (''values'', JObj [(''values'', JList [
                 JObj [(''column'', JStr ''company_name''), (''value'', JStr ''={{ $json.AgencyName }}'')],
                 JObj [(''column'', JStr ''lead_score''), (''value'', JStr ''={{ $json.LeadScore }}'')],
                 JObj [(''column'', JStr ''sector''), (''value'', JStr ''={{ $json.Sector }}'')],
                 JObj [(''column'', JStr ''status''),
                       (''value'', JStr ''={{ $json.LeadScore > 7 ? 'PRIORITY' : 'READY_TO_PROCESS' }}'')]])])]),
           (''id'', JStr i), (''name'', JStr ''Supabase - Elite Upsert''),
           (''type'', JStr ''n8n-nodes-base.supabase''), (''typeVersion'', JInt 1),
           (''position'', JList [JInt 1300, JInt 600]),
           (''credentials'', JObj [(''supabaseApi'', JObj [
              (''id'', JStr ''YOUR_CREDENTIALS''), (''name'', JStr ''Supabase'')])])]"

text \<open>The linear flow (lines 117-122).\<close>

definition scraper_connections :: "(string \<times> json) list" where
  "scraper_connections =
     [(''Randomized Trigger'', main_to ''User-Agent Rotator''),
      (''User-Agent Rotator'', main_to ''Fetch ImmoScout24 (Anti-Bot)''),
      (''Fetch ImmoScout24 (Anti-Bot)'', main_to ''AI Elite Parser & Scorer''),
      (''AI Elite Parser & Scorer'', main_to ''Supabase - Elite Upsert'')]"

text \<open>The script from the empty workflow to the assignment of the connections (lines 9-122).\<close>

definition build_scraper :: "(nat \<Rightarrow> string) \<Rightarrow> json result" where
  "build_scraper uid =
     bind_res (add_node_named (trigger_node (uid 0)) scraper_init) (\<lambda>(w1, _).
     bind_res (add_node_named (ua_node (uid 1)) w1) (\<lambda>(w2, _).
     bind_res (add_node_named (fetch_node (uid 2)) w2) (\<lambda>(w3, _).
     bind_res (add_node_named (parser_node (uid 3)) w3) (\<lambda>(w4, _).
     bind_res (add_node_named (upsert_node (uid 4)) w4) (\<lambda>(w5, _).
     jset w5 ''connections'' (JObj scraper_connections))))))"


section \<open>The nodes at run time\<close>

text \<open>
  The trigger's interval, \<open>Math.floor(Math.random() * 60)\<close> minutes (line 23), and the
  rotator's choice \<open>uas[Math.floor(Math.random() * uas.length)]\<close> (line 41), for the draw
  \<open>k / 2^p\<close>.
\<close>

definition trigger_interval :: "nat \<Rightarrow> nat \<Rightarrow> nat" where
  "trigger_interval p k = floor_random p k 60"

definition ua_rotator :: "nat \<Rightarrow> nat \<Rightarrow> string" where
  "ua_rotator p k = UAS ! floor_random p k (length UAS)"

text \<open>
  One HTTP attempt either returns the page or fails (in transport, or with an error status:
  the node sets no \<open>neverError\<close> option). n8n repeats a failed node only when the node
  itself carries \<open>retryOnFail: true\<close> (with \<open>maxTries\<close> and \<open>waitBetweenTries\<close>); the
  HTTP Request node (typeVersion 4.1) has no option named \<open>retry\<close>, so the
  \<open>parameters.options.retry\<close> of line 62 is not read. \<open>retry_on_fail\<close> reads the node-level
  setting.
\<close>

datatype fetch_reply = Page string | TransportError

definition retry_on_fail :: "json \<Rightarrow> bool" where
  "retry_on_fail n = (case n of JObj kv \<Rightarrow> dict_get kv ''retryOnFail'' = Some (JBool True) | _ \<Rightarrow> False)"

text \<open>
  The fetch collaborator of the spec (section 6): the reply of the first of the attempts
  \<open>i, ..., i + count\<close> that returns a page, and a terminal fetch error when none does.
\<close>

definition is_page :: "fetch_reply \<Rightarrow> bool" where
  "is_page r = (case r of Page _ \<Rightarrow> True | TransportError \<Rightarrow> False)"

definition fetch_spec :: "nat \<Rightarrow> (nat \<Rightarrow> fetch_reply) \<Rightarrow> nat \<Rightarrow> fetch_reply" where
  "fetch_spec count get i =
     (case find (\<lambda>j. is_page (get j)) [i..<i + Suc count] of Some j \<Rightarrow> get j | None \<Rightarrow> TransportError)"

text \<open>
  One scrape run along the connections (lines 117-122): the trigger fires, the rotator
  picks the user agent \<open>ua_rotator p k\<close>, the HTTP node makes its one request (the server
  answering attempt \<open>i\<close> with user agent \<open>ua\<close> by \<open>get ua i\<close>, so the request is attempt 0),
  the agent \<open>parse\<close> turns the page into candidates or fails (an LLM call; \<open>None\<close>), and
  the Supabase node upserts the candidates one after the other. A failed request, or a
  failed agent call, stops the run before the upsert node.
\<close>

datatype scrape_status = Stored | FetchFailed | ParseFailed

definition scrape_run ::
  "nat \<Rightarrow> nat \<Rightarrow> (string \<Rightarrow> nat \<Rightarrow> fetch_reply) \<Rightarrow> (string \<Rightarrow> candidate list option) \<Rightarrow> leads \<Rightarrow>
   scrape_status \<times> leads" where
  "scrape_run p k get parse rows =
     (case get (ua_rotator p k) 0 of
        Page s \<Rightarrow> (case parse s of
                    None \<Rightarrow> (ParseFailed, rows)
                  | Some cs \<Rightarrow> (Stored, fold elite_upsert cs rows))
      | TransportError \<Rightarrow> (FetchFailed, rows))"

section \<open>Reading the document\<close>

text \<open>The node names of the scraper, in the order of the flow.\<close>

definition scraper_stages :: "string list" where
  "scraper_stages = [''Randomized Trigger'', ''User-Agent Rotator'', ''Fetch ImmoScout24 (Anti-Bot)'',
     ''AI Elite Parser & Scorer'', ''Supabase - Elite Upsert'']"

text \<open>The node a link points to.\<close>

definition link_target :: "json \<Rightarrow> string option" where
  "link_target l = (case l of JObj kv \<Rightarrow> (case dict_get kv ''node'' of Some (JStr n) \<Rightarrow> Some n | _ \<Rightarrow> None)
                             | _ \<Rightarrow> None)"

text \<open>
  A well-wired document: every node has a name, no two nodes share one, and every connection
  starts at a node and has only links to nodes.
\<close>

definition wired_ok :: "json \<Rightarrow> bool" where
  "wired_ok doc =
     (case (nodes_of doc, conns doc) of
        (Some ns, Some cs) \<Rightarrow>
          list_all named ns \<and> distinct (map node_name ns) \<and>
          list_all (\<lambda>(k, v). k \<in> set (map node_name ns) \<and>
            list_all (\<lambda>l. case link_target l of Some n \<Rightarrow> n \<in> set (map node_name ns) | None \<Rightarrow> False)
              (out_links v)) cs
      | _ \<Rightarrow> False)"

text \<open>
  The retry options the fetch node carries in its parameters,
  \<open>parameters.options.retry.count\<close> and \<open>.delay\<close>: the spec's contract written where the
  node does not read it.
\<close>

definition retry_options :: "json \<Rightarrow> (nat \<times> nat) option" where
  "retry_options n =
     (case n of
        JObj kv \<Rightarrow> (case dict_get kv ''parameters'' of
          Some (JObj pk) \<Rightarrow> (case dict_get pk ''options'' of
            Some (JObj ok) \<Rightarrow> (case dict_get ok ''retry'' of
              Some (JObj rk) \<Rightarrow> (case (dict_get rk ''count'', dict_get rk ''delay'') of
                (Some (JInt c), Some (JInt d)) \<Rightarrow> Some (nat c, nat d)
              | _ \<Rightarrow> None)
            | _ \<Rightarrow> None)
          | _ \<Rightarrow> None)
        | _ \<Rightarrow> None)
      | _ \<Rightarrow> None)"



section \<open>Lemmas\<close>

subsection \<open>The document\<close>

lemma scraper_node_names:
  "jget (trigger_node i) ''name'' = Inr (JStr ''Randomized Trigger'')"
  "jget (ua_node i) ''name'' = Inr (JStr ''User-Agent Rotator'')"
  "jget (fetch_node i) ''name'' = Inr (JStr ''Fetch ImmoScout24 (Anti-Bot)'')"
  "jget (parser_node i) ''name'' = Inr (JStr ''AI Elite Parser & Scorer'')"
  "jget (upsert_node i) ''name'' = Inr (JStr ''Supabase - Elite Upsert'')"
  by (simp_all add: trigger_node_def ua_node_def fetch_node_def parser_node_def upsert_node_def)

lemma add_node_named_doc:
  assumes "dict_get kv ''nodes'' = Some (JList ns)" and "jget node ''name'' = Inr nm"
  shows "add_node_named node (JObj kv) = Inr (JObj (dict_set kv ''nodes'' (JList (ns @ [node]))), nm)"
  using assms by (simp add: add_node_named_def)

lemma build_scraper_doc:
  "build_scraper uid = Inr (JObj
     [(''name'', JStr ''KRONOS Elite Swiss Scraper (High-Performance)''),
      (''nodes'', JList [trigger_node (uid 0), ua_node (uid 1), fetch_node (uid 2), parser_node (uid 3),
                         upsert_node (uid 4)]),
      (''connections'', JObj scraper_connections), (''settings'', JObj [(''executionOrder'', JStr ''v1'')])])"
  by (simp add: build_scraper_def scraper_init_def add_node_named_doc scraper_node_names)

lemma build_scraper_views:
  "\<exists>d. build_scraper uid = Inr d \<and>
     nodes_of d = Some [trigger_node (uid 0), ua_node (uid 1), fetch_node (uid 2), parser_node (uid 3),
                        upsert_node (uid 4)] \<and>
     conns d = Some scraper_connections"
  by (simp add: build_scraper_doc nodes_of_def conns_def)

lemma scraper_node_name_list:
  "map node_name [trigger_node a, ua_node b, fetch_node c, parser_node d, upsert_node e] = scraper_stages"
  by (simp add: node_name_def trigger_node_def ua_node_def fetch_node_def parser_node_def upsert_node_def
      scraper_stages_def)

lemma scraper_nodes_named:
  "list_all named [trigger_node a, ua_node b, fetch_node c, parser_node d, upsert_node e]"
  by (simp add: named_def trigger_node_def ua_node_def fetch_node_def parser_node_def upsert_node_def)

subsection \<open>Random choices\<close>

lemma floor_random_less: "k < 2 ^ p \<Longrightarrow> 0 < n \<Longrightarrow> floor_random p k n < n"
  by (simp add: floor_random_def less_mult_imp_div_less mult.commute)

lemma UAS_distinct: "distinct UAS" by (simp add: UAS_def)

subsection \<open>The fetch and its contract\<close>

lemma fetch_node_retry: "retry_options (fetch_node u) = Some (5, 10000)"
  by (simp add: retry_options_def fetch_node_def)

lemma fetch_node_no_retry: "\<not> retry_on_fail (fetch_node u)"
  by (simp add: retry_on_fail_def fetch_node_def)

lemma fetch_spec_Suc:
  "fetch_spec (Suc n) get i = (if is_page (get i) then get i else fetch_spec n get (Suc i))"
proof -
  have "[i..<i + Suc (Suc n)] = i # [Suc i..<Suc i + Suc n]" by (simp add: upt_conv_Cons)
  then show ?thesis unfolding fetch_spec_def by simp
qed

lemma fetch_spec_error:
  "fetch_spec count get i = TransportError \<longleftrightarrow> (\<forall>j \<in> {i..i + count}. get j = TransportError)"
proof (induction count arbitrary: i)
  case 0
  then show ?case by (auto simp: fetch_spec_def is_page_def split: fetch_reply.split)
next
  case (Suc n)
  have "{i..i + Suc n} = insert i {Suc i..Suc i + n}" by (simp add: Icc_eq_insert_lb_nat)
  moreover have "fetch_spec (Suc n) get i = TransportError \<longleftrightarrow>
      get i = TransportError \<and> fetch_spec n get (Suc i) = TransportError"
    by (simp add: fetch_spec_Suc is_page_def split: fetch_reply.split)
  ultimately show ?case using Suc.IH[of "Suc i"] by simp
qed

lemma urls_unique_fold_upsert: "urls_unique rows \<Longrightarrow> urls_unique (fold elite_upsert cs rows)"
  by (induction cs arbitrary: rows) (simp_all add: urls_unique_elite_upsert)

section \<open>Properties of the scraper\<close>

text \<open>
  C27. The script builds its document without error, and the document is a linear flow: its five
  nodes in the order of \<open>scraper_stages\<close>, each connected to the next and to nothing else.
\<close>

theorem build_scraper_linear:
  "\<exists>d ns cs. build_scraper uid = Inr d \<and> nodes_of d = Some ns \<and> conns d = Some cs \<and>
     map node_name ns = scraper_stages \<and>
     (\<forall>k n. feeds cs n k \<longleftrightarrow> (k, n) \<in> set (zip scraper_stages (tl scraper_stages)))"
proof -
  obtain d where d: "build_scraper uid = Inr d"
    "nodes_of d = Some [trigger_node (uid 0), ua_node (uid 1), fetch_node (uid 2), parser_node (uid 3),
                        upsert_node (uid 4)]" "conns d = Some scraper_connections"
    using build_scraper_views by blast
  have "feeds scraper_connections n k \<longleftrightarrow> (k, n) \<in> set (zip scraper_stages (tl scraper_stages))" for k n
    by (simp add: feeds_def scraper_connections_def scraper_stages_def out_links_def main_to_def)
  with d scraper_node_name_list show ?thesis by blast
qed

text \<open>
  C28. The document is well wired: every node is named, the names are distinct, and every
  connection starts at a node and only links to nodes.
\<close>

theorem build_scraper_wired_ok: "\<exists>d. build_scraper uid = Inr d \<and> wired_ok d"
proof -
  obtain d where d: "build_scraper uid = Inr d"
    "nodes_of d = Some [trigger_node (uid 0), ua_node (uid 1), fetch_node (uid 2), parser_node (uid 3),
                        upsert_node (uid 4)]" "conns d = Some scraper_connections"
    using build_scraper_views by blast
  have "wired_ok d"
    unfolding wired_ok_def d(2,3) option.case prod.case scraper_node_name_list
    using scraper_nodes_named
    by (simp add: scraper_stages_def scraper_connections_def out_links_def main_to_def link_def link_target_def)
  with d show ?thesis by blast
qed

text \<open>
  C29. The trigger interval is a whole number of minutes below 60 and close to uniform: each of
  the 60 values, 0 included, is drawn by \<open>2^p div 60\<close> or one more of the \<open>2^p\<close> draws. An
  interval of 0 minutes is therefore a possible draw.
\<close>

theorem trigger_interval_range:
  "(\<forall>k < 2 ^ p. trigger_interval p k < 60) \<and>
   (\<forall>m < 60. 2 ^ p div 60 \<le> card {k. k < 2 ^ p \<and> trigger_interval p k = m} \<and>
              card {k. k < 2 ^ p \<and> trigger_interval p k = m} \<le> 2 ^ p div 60 + 1)"
  unfolding trigger_interval_def using floor_random_less floor_random_card by simp

theorem trigger_interval_range_witness:
  "trigger_interval 53 0 = 0 \<and> 2 ^ 53 div 60 \<le> card {k. k < 2 ^ 53 \<and> trigger_interval 53 k = 0}"
  using trigger_interval_range[of 53] by (simp add: trigger_interval_def floor_random_def)

text \<open>
  C30. The rotator always picks a user agent of its pool (the index never reaches \<open>uas.length\<close>,
  so no \<open>undefined\<close> header), and each of the three agents is picked by \<open>2^p div 3\<close> or one more
  of the draws.
\<close>

theorem ua_rotator_uniform:
  "(\<forall>k < 2 ^ p. ua_rotator p k \<in> set UAS) \<and>
   (\<forall>j < length UAS. 2 ^ p div 3 \<le> card {k. k < 2 ^ p \<and> ua_rotator p k = UAS ! j} \<and>
                      card {k. k < 2 ^ p \<and> ua_rotator p k = UAS ! j} \<le> 2 ^ p div 3 + 1)"
proof -
  have l: "length UAS = 3" by (simp add: UAS_def)
  have eq: "{k. k < 2 ^ p \<and> ua_rotator p k = UAS ! j} = {k. k < 2 ^ p \<and> floor_random p k 3 = j}"
    if "j < 3" for j
    using that floor_random_less[of _ p 3] nth_eq_iff_index_eq[OF UAS_distinct] l
    by (auto simp: ua_rotator_def)
  show ?thesis
    using floor_random_less[of _ p 3] floor_random_card[of 3 _ p] eq l by (simp add: ua_rotator_def)
qed

theorem ua_rotator_uniform_witness:
  "ua_rotator 53 0 = UAS ! 0 \<and> 2 ^ 53 div 3 \<le> card {k. k < 2 ^ 53 \<and> ua_rotator 53 k = UAS ! 2}"
proof -
  have "2 < length UAS" by (simp add: UAS_def)
  from ua_rotator_uniform[of 53, THEN conjunct2, rule_format, OF this]
  show ?thesis by (simp add: ua_rotator_def floor_random_def)
qed

text \<open>
  C25. The scraper does not meet the spec's fetch contract (section 6: up to five retries
  10 s apart). The fetch node carries that contract as \<open>options.retry\<close>
  \<open>{count: 5, delay: 10000}\<close>, which the HTTP node does not read, and no node-level
  \<open>retryOnFail\<close>. So when the one request fails and a later attempt among the five retries
  would return a page, the spec's fetch returns a page but the run ends with
  \<open>FetchFailed\<close> and stores nothing.
\<close>

theorem scrape_run_ignores_retry:
  assumes "get (ua_rotator p k) 0 = TransportError" and "j \<le> 5" and "get (ua_rotator p k) j = Page s"
  shows "retry_options (fetch_node u) = Some (5, 10000) \<and> \<not> retry_on_fail (fetch_node u) \<and>
     fetch_spec 5 (get (ua_rotator p k)) 0 \<noteq> TransportError \<and>
     scrape_run p k get parse rows = (FetchFailed, rows)"
proof -
  have "fetch_spec 5 (get (ua_rotator p k)) 0 \<noteq> TransportError"
    using assms(2,3) unfolding fetch_spec_error by force
  then show ?thesis using assms(1) fetch_node_retry fetch_node_no_retry by (simp add: scrape_run_def)
qed

theorem scrape_run_ignores_retry_witness:
  "scrape_run 53 0 (\<lambda>_ i. if i = 2 then Page ''listing'' else TransportError) (\<lambda>_. Some []) [] = (FetchFailed, []) \<and>
   fetch_spec 5 (\<lambda>i. if i = 2 then Page ''listing'' else TransportError) 0 \<noteq> TransportError"
  using scrape_run_ignores_retry[where get = "\<lambda>_ i. if i = 2 then Page ''listing'' else TransportError"
      and p = 53 and k = 0 and j = 2 and s = "''listing''" and parse = "\<lambda>_. Some []" and rows = "[]"
      and u = "''u''"]
  by simp

text \<open>
  C26. Errors during ingestion do not touch the stored leads: when the request fails the run
  ends with \<open>FetchFailed\<close> and the table as it was.
\<close>

theorem scrape_run_fetch_failed:
  assumes "get (ua_rotator p k) 0 = TransportError"
  shows "scrape_run p k get parse rows = (FetchFailed, rows)"
  using assms by (simp add: scrape_run_def)

theorem scrape_run_fetch_failed_witness:
  "scrape_run 53 0 (\<lambda>_ _. TransportError) (\<lambda>_. Some []) [] = (FetchFailed, [])"
  using scrape_run_fetch_failed[where get = "\<lambda>_ _. TransportError" and p = 53 and k = 0
      and parse = "\<lambda>_. Some []" and rows = "[]"] by simp

text \<open>
  Every scrape run keeps each non-null url in at most one row of the table.
\<close>

lemma scrape_run_urls_unique:
  "urls_unique rows \<Longrightarrow> urls_unique (snd (scrape_run p k get parse rows))"
  by (simp add: scrape_run_def urls_unique_fold_upsert split: fetch_reply.split option.split)

end
