(* ===== verification/Regex.thy ===== *)
theory Regex
  imports Prelude
begin

text \<open>
  The part of Python's \<open>re\<close> module that src/scripts/sanitize_secrets.py relies on, as a
  backtracking matcher in list-of-successes style: \<open>mt r s\<close> lists every way \<open>r\<close> can match
  at state \<open>s\<close>, in the order Python's backtracking tries them, so that the first element is
  the match \<open>re\<close> reports. Greedy and lazy repetition, alternation in order, optional
  parts, numbered groups, \<open>^\<close> and \<open>$\<close> in MULTILINE mode, and IGNORECASE on ASCII letters
  are what the script's two patterns use. \<open>subn\<close> is \<open>pattern.subn(repl, text)\<close>: it scans
  left to right, replaces the first match at each position and continues after it, with
  Python 3.7's handling of empty matches. Text is a list of characters with code points
  below 256; the character classes are those of Python for that range. The differential
  tests the model was checked against are not part of the theory.
\<close>

section \<open>Character classes\<close>

text \<open>\<open>\s\<close> on a \<open>str\<close> pattern: \<open>str.isspace()\<close>, here restricted to code points below 256.\<close>

definition is_space :: "char \<Rightarrow> bool" where
  "is_space c \<longleftrightarrow> c \<in> set [CHR 0x09, CHR 0x0A, CHR 0x0B, CHR 0x0C, CHR 0x0D, CHR 0x1C, CHR 0x1D,
                          CHR 0x1E, CHR 0x1F, CHR 0x20, CHR 0x85, CHR 0xA0]"

text \<open>\<open>.\<close> without DOTALL: any character but a newline.\<close>

definition not_newline :: "char \<Rightarrow> bool" where
  "not_newline c \<longleftrightarrow> c \<noteq> CHR ''\<newline>''"

text \<open>
  IGNORECASE compares case-folded characters. For a letter of the ASCII keywords the only
  characters below 256 that fold to it are its two ASCII cases, so folding ASCII letters
  is exact here.
\<close>

definition lower :: "char \<Rightarrow> char" where
  "lower c = (case map_of (zip ''ABCDEFGHIJKLMNOPQRSTUVWXYZ'' ''abcdefghijklmnopqrstuvwxyz'') c of
                Some d \<Rightarrow> d | None \<Rightarrow> c)"

section \<open>Patterns and matching\<close>

text \<open>
  \<open>Cls\<close> is one character of a class, \<open>Opt g\<close> is \<open>?\<close> (greedy when \<open>g\<close>), \<open>Star g\<close> is \<open>*\<close>
  over a character class (greedy) or \<open>*?\<close> (lazy), \<open>Grp i\<close> a numbered group, \<open>Bol\<close> and
  \<open>Eol\<close> are \<open>^\<close> and \<open>$\<close> under MULTILINE.
\<close>

datatype rx =
    Cls "char \<Rightarrow> bool"
  | Seq rx rx
  | Alt rx rx
  | Opt bool rx
  | Star bool "char \<Rightarrow> bool"
  | Grp nat rx
  | Bol
  | Eol

text \<open>A matcher state: the input still to read, its position, the character before it, the groups.\<close>

record mstate =
  rest :: string
  pos :: nat
  prev :: "char option"
  groups :: "(nat \<times> string) list"

definition adv :: "nat \<Rightarrow> mstate \<Rightarrow> mstate" where
  "adv k s = s\<lparr>rest := drop k (rest s), pos := pos s + k,
               prev := (if k = 0 then prev s else Some (rest s ! (k - 1)))\<rparr>"

fun mt :: "rx \<Rightarrow> mstate \<Rightarrow> mstate list" where
  "mt (Cls p) s = (case rest s of c # _ \<Rightarrow> if p c then [adv 1 s] else [] | [] \<Rightarrow> [])"
| "mt (Seq a b) s = concat (map (mt b) (mt a s))"
| "mt (Alt a b) s = mt a s @ mt b s"
| "mt (Opt g a) s = (if g then mt a s @ [s] else s # mt a s)"
| "mt (Star g p) s =
     (let ks = [0..<Suc (length (takeWhile p (rest s)))] in map (\<lambda>k. adv k s) (if g then rev ks else ks))"
| "mt (Grp i a) s =
     map (\<lambda>m. m\<lparr>groups := dict_set (groups m) i (take (pos m - pos s) (rest s))\<rparr>) (mt a s)"
| "mt Bol s = (if prev s = None \<or> prev s = Some CHR ''\<newline>'' then [s] else [])"
| "mt Eol s = (if rest s = [] \<or> hd (rest s) = CHR ''\<newline>'' then [s] else [])"

text \<open>A literal under IGNORECASE, an alternation \<open>a|b|...\<close> and a concatenation.\<close>

fun lit_ci :: "string \<Rightarrow> rx" where
  "lit_ci [] = Opt True (Cls (\<lambda>_. False))"
| "lit_ci [c] = Cls (\<lambda>x. lower x = lower c)"
| "lit_ci (c # cs) = Seq (Cls (\<lambda>x. lower x = lower c)) (lit_ci cs)"

fun alts :: "rx list \<Rightarrow> rx" where
  "alts [] = Cls (\<lambda>_. False)"
| "alts [r] = r"
| "alts (r # rs) = Alt r (alts rs)"

fun seqs :: "rx list \<Rightarrow> rx" where
  "seqs [] = Opt True (Cls (\<lambda>_. False))"
| "seqs [r] = r"
| "seqs (r # rs) = Seq r (seqs rs)"

section \<open>Substitution: \<open>pattern.subn(repl, text)\<close>\<close>

definition start :: "char option \<Rightarrow> nat \<Rightarrow> string \<Rightarrow> mstate" where
  "start pv p xs = \<lparr>rest = xs, pos = p, prev = pv, groups = []\<rparr>"

definition grp :: "mstate \<Rightarrow> nat \<Rightarrow> string" where
  "grp m i = (case dict_get (groups m) i of Some g \<Rightarrow> g | None \<Rightarrow> [])"

text \<open>
  \<open>scan P r pv p k xs\<close> is the search at position \<open>p\<close> of the rest \<open>xs\<close> of the text, the
  previous character being \<open>pv\<close>, with \<open>k\<close> characters still covered by the previous match. It
  returns the new text and the number of replacements.
\<close>

fun scan :: "rx \<Rightarrow> (mstate \<Rightarrow> string) \<Rightarrow> char option \<Rightarrow> nat \<Rightarrow> nat \<Rightarrow> string \<Rightarrow> string \<times> nat" where
  "scan P r pv p k [] =
     (case mt P (start pv p []) of [] \<Rightarrow> ([], 0) | m # _ \<Rightarrow> (r m, 1))"
| "scan P r pv p (Suc k) (c # cs) = scan P r (Some c) (Suc p) k cs"
| "scan P r pv p 0 (c # cs) =
     (case mt P (start pv p (c # cs)) of
        [] \<Rightarrow> (let (out, n) = scan P r (Some c) (Suc p) 0 cs in (c # out, n))
      | m # _ \<Rightarrow>
          (if pos m = p then (let (out, n) = scan P r (Some c) (Suc p) 0 cs in (r m @ c # out, Suc n))
           else (let (out, n) = scan P r (Some c) (Suc p) (pos m - Suc p) cs in (r m @ out, Suc n))))"

definition subn :: "rx \<Rightarrow> (mstate \<Rightarrow> string) \<Rightarrow> string \<Rightarrow> string \<times> nat" where
  "subn P r text = scan P r None 0 0 text"

section \<open>Reading a match\<close>

text \<open>The text a match consumed, and the patterns without groups.\<close>

definition consumed :: "mstate \<Rightarrow> mstate \<Rightarrow> string" where
  "consumed s m = take (pos m - pos s) (rest s)"

fun nogrp :: "rx \<Rightarrow> bool" where
  "nogrp (Seq a b) = (nogrp a \<and> nogrp b)"
| "nogrp (Alt a b) = (nogrp a \<and> nogrp b)"
| "nogrp (Opt g a) = nogrp a"
| "nogrp (Grp i a) = False"
| "nogrp _ = True"

section \<open>Lemmas\<close>

subsection \<open>Matches consume a prefix of the input\<close>

lemma adv_simps [simp]:
  "rest (adv k s) = drop k (rest s)" "pos (adv k s) = pos s + k" "groups (adv k s) = groups s"
  by (simp_all add: adv_def)

lemma mt_Star_set: "set (mt (Star g p) s) = (\<lambda>k. adv k s) ` {..length (takeWhile p (rest s))}"
  by (simp add: Let_def atLeast0LessThan lessThan_Suc_atMost[symmetric] lessThan_Suc)

lemma mt_inv:
  "m \<in> set (mt r s) \<Longrightarrow>
     pos s \<le> pos m \<and> pos m - pos s \<le> length (rest s) \<and> rest m = drop (pos m - pos s) (rest s)"
proof (induction r arbitrary: s m)
  case (Cls p)
  then show ?case by (cases "rest s") (auto split: if_splits)
next
  case (Seq a b)
  then obtain m1 where m1: "m1 \<in> set (mt a s)" "m \<in> set (mt b m1)" by auto
  from Seq.IH(1)[OF m1(1)] Seq.IH(2)[OF m1(2)] show ?case by auto
next
  case (Star g p)
  then have "\<exists>k \<le> length (takeWhile p (rest s)). m = adv k s"
    by (auto simp: mt_Star_set simp del: mt.simps)
  then obtain k where "k \<le> length (takeWhile p (rest s))" "m = adv k s" by blast
  moreover have "length (takeWhile p (rest s)) \<le> length (rest s)" by (rule length_takeWhile_le)
  ultimately show ?case by simp
qed (auto split: if_splits)

lemma consumed_seq:
  assumes "m1 \<in> set (mt a s)" and "m \<in> set (mt b m1)"
  shows "consumed s m = consumed s m1 @ consumed m1 m"
proof -
  have "pos s \<le> pos m1" "rest m1 = drop (pos m1 - pos s) (rest s)" "pos m1 \<le> pos m"
    using mt_inv[OF assms(1)] mt_inv[OF assms(2)] by auto
  then show ?thesis by (simp add: consumed_def take_add[symmetric])
qed

lemma mt_Seq_mem: "m \<in> set (mt (Seq a b) s) \<longleftrightarrow> (\<exists>m1 \<in> set (mt a s). m \<in> set (mt b m1))"
  by simp

lemma mt_Grp_body:
  "m \<in> set (mt (Grp i a) s) \<Longrightarrow>
     \<exists>m'. m' \<in> set (mt a s) \<and> consumed s m = consumed s m' \<and> groups m = dict_set (groups m') i (consumed s m)"
  by (auto simp: consumed_def)

lemma mt_nogrp: "nogrp r \<Longrightarrow> m \<in> set (mt r s) \<Longrightarrow> groups m = groups s"
  by (induction r arbitrary: s m) (auto split: list.splits if_splits simp: Let_def)

lemma mt_Cls_mem: "m \<in> set (mt (Cls p) s) \<Longrightarrow> \<exists>c. consumed s m = [c] \<and> p c"
  by (cases "rest s") (auto simp: consumed_def split: if_splits)

lemma mt_Star_mem: "m \<in> set (mt (Star g p) s) \<Longrightarrow> \<forall>c \<in> set (consumed s m). p c"
proof -
  assume "m \<in> set (mt (Star g p) s)"
  then have "\<exists>k \<le> length (takeWhile p (rest s)). m = adv k s"
    by (auto simp: mt_Star_set simp del: mt.simps)
  then obtain k where k: "k \<le> length (takeWhile p (rest s))" "m = adv k s" by blast
  then have "take k (rest s) = take k (takeWhile p (rest s))"
    by (metis append_eq_conv_conj takeWhile_dropWhile_id take_append take_eq_Nil2 append_Nil2 diff_is_0_eq)
  then show ?thesis using k by (auto simp: consumed_def dest: in_set_takeD set_takeWhileD)
qed

lemma nogrp_lit_ci: "nogrp (lit_ci w)"
  by (induction w rule: lit_ci.induct) auto

lemma nogrp_alts: "list_all nogrp rs \<Longrightarrow> nogrp (alts rs)"
  by (induction rs rule: alts.induct) auto

lemma nogrp_seqs: "rs \<noteq> [] \<Longrightarrow> list_all nogrp rs \<Longrightarrow> nogrp (seqs rs)"
  by (induction rs rule: seqs.induct) auto

lemma start_simps [simp]:
  "rest (start pv p xs) = xs" "pos (start pv p xs) = p" "prev (start pv p xs) = pv" "groups (start pv p xs) = []"
  by (simp_all add: start_def)

subsection \<open>First matches\<close>

lemma mt_Grp_Cls:
  "rest s = c # cs \<Longrightarrow> q c \<Longrightarrow> mt (Grp i (Cls q)) s = [(adv 1 s)\<lparr>groups := dict_set (groups s) i [c]\<rparr>]"
  by simp

lemma concat_map_skip: "\<forall>x \<in> set xs. f x = [] \<Longrightarrow> concat (map f (xs @ ys)) = concat (map f ys)"
  by (induction xs) auto

text \<open>A lazy \<open>.*?\<close> followed by a one-character group stops at the first character of that group.\<close>

lemma mt_lazy_then:
  assumes r: "rest s = ys @ z # zs" and ys: "\<forall>c \<in> set ys. p c \<and> \<not> q c" and z: "q z"
  shows "\<exists>M ms. mt (Seq (Grp i (Star False p)) (Grp j (Cls q))) s = M # ms \<and>
           pos M = pos s + Suc (length ys) \<and> rest M = zs \<and>
           groups M = dict_set (dict_set (groups s) i ys) j [z]"
proof -
  define n where "n = length (takeWhile p (rest s))"
  have "takeWhile p (rest s) = ys @ takeWhile p (z # zs)" using r ys by (simp add: takeWhile_append2)
  then have n: "length ys \<le> n" by (simp add: n_def)
  define f where "f = (\<lambda>k. mt (Grp j (Cls q)) ((adv k s)\<lparr>groups := dict_set (groups s) i (take k (rest s))\<rparr>))"
  have eq: "mt (Seq (Grp i (Star False p)) (Grp j (Cls q))) s = concat (map f [0..<Suc n])"
    by (simp add: f_def n_def Let_def comp_def)
  have split: "[0..<Suc n] = [0..<length ys] @ length ys # [Suc (length ys)..<Suc n]"
  proof -
    have "[0..<Suc n] = [0..<length ys] @ [length ys..<Suc n]"
      using upt_add_eq_append[of 0 "length ys" "Suc n - length ys"] n by simp
    moreover have "[length ys..<Suc n] = length ys # [Suc (length ys)..<Suc n]"
      using n by (simp add: upt_conv_Cons)
    ultimately show ?thesis by simp
  qed
  have skip: "\<forall>k \<in> set [0..<length ys]. f k = []"
  proof
    fix k assume "k \<in> set [0..<length ys]"
    then have k: "k < length ys" by simp
    then have "drop k (rest s) = ys ! k # drop (Suc k) ys @ z # zs" using r by (simp add: Cons_nth_drop_Suc)
    moreover have "\<not> q (ys ! k)" using ys k by simp
    ultimately show "f k = []" by (simp add: f_def)
  qed
  have hit: "drop (length ys) (rest s) = z # zs" "take (length ys) (rest s) = ys" using r by simp_all
  have fy: "f (length ys) = [(adv 1 ((adv (length ys) s)\<lparr>groups := dict_set (groups s) i ys\<rparr>))
              \<lparr>groups := dict_set (dict_set (groups s) i ys) j [z]\<rparr>]"
    using hit z by (simp add: f_def)
  show ?thesis
    unfolding eq split concat_map_skip[OF skip] using fy r by simp
qed

lemma mt_Star_greedy:
  "mt (Star True p) s = adv (length (takeWhile p (rest s))) s #
     map (\<lambda>k. adv k s) (rev [0..<length (takeWhile p (rest s))])"
  by (simp add: Let_def)

subsection \<open>The scan\<close>

lemma count_list_append_any: "count_list (xs @ ys) x = count_list xs x + count_list ys x"
  by (induction xs) auto

lemma count_list_none: "\<forall>c \<in> set xs. not_newline c \<Longrightarrow> count_list xs CHR ''\<newline>'' = 0"
  by (induction xs) (auto simp: not_newline_def)

text \<open>If every replacement keeps the number of occurrences of \<open>x\<close> of the text it replaces, so does \<open>subn\<close>.\<close>

lemma scan_count:
  assumes "\<And>pv p ys m. m \<in> set (mt P (start pv p ys)) \<Longrightarrow>
             count_list (r m) x = count_list (consumed (start pv p ys) m) x"
  shows "count_list (fst (scan P r pv p k xs)) x = count_list (drop k xs) x"
  using assms
proof (induction P r pv p k xs rule: scan.induct)
  case (1 P r pv p k)
  show ?case
  proof (cases "mt P (start pv p [])")
    case (Cons m ms)
    then have "m \<in> set (mt P (start pv p []))" by simp
    from "1.prems"[OF this] Cons show ?thesis by (simp add: consumed_def)
  qed simp
next
  case (2 P r pv p k c cs)
  then show ?case by (simp only: scan.simps drop_Suc_Cons)
next
  case (3 P r pv p c cs)
  show ?case
  proof (cases "mt P (start pv p (c # cs))")
    case Nil
    then show ?thesis using 3(1)[OF Nil "3.prems"] by (auto simp: split_def Let_def)
  next
    case (Cons m ms)
    then have mem: "m \<in> set (mt P (start pv p (c # cs)))" by simp
    have inv: "p \<le> pos m" "pos m - p \<le> Suc (length cs)" using mt_inv[OF mem] by auto
    have rm: "count_list (r m) x = count_list (take (pos m - p) (c # cs)) x"
      using "3.prems"[OF mem] by (simp add: consumed_def)
    show ?thesis
    proof (cases "pos m = p")
      case True
      then show ?thesis using 3(2)[OF Cons True "3.prems"] Cons rm by (auto simp: split_def Let_def count_list_append_any)
    next
      case False
      then have d: "pos m - p = Suc (pos m - Suc p)" using inv by simp
      have "count_list (take (pos m - p) (c # cs)) x + count_list (drop (pos m - Suc p) cs) x =
            count_list (c # cs) x"
        using count_list_append_any[of "take (pos m - p) (c # cs)" "drop (pos m - p) (c # cs)" x] d by simp
      then show ?thesis using 3(3)[OF Cons False "3.prems"] Cons False rm by (simp add: split_def Let_def count_list_append_any)
    qed
  qed
qed

lemma scan_nomatch:
  assumes "\<And>pv' p' ys. Q pv' ys \<Longrightarrow> mt P (start pv' p' ys) = []" and "Q pv xs"
    and "\<And>pv' c cs. Q pv' (c # cs) \<Longrightarrow> Q (Some c) cs"
  shows "scan P r pv p 0 xs = (xs, 0)"
  using assms(2)
proof (induction xs arbitrary: pv p)
  case Nil
  then show ?case using assms(1) by simp
next
  case (Cons c cs)
  then show ?case using assms(1,3) by (simp add: Let_def split_def)
qed

lemma scan_skip:
  "k \<le> length xs \<Longrightarrow>
   scan P r pv p k xs = scan P r (if k = 0 then pv else Some (xs ! (k - 1))) (p + k) 0 (drop k xs)"
proof (induction k arbitrary: pv p xs)
  case (Suc k)
  then obtain c cs where "xs = c # cs" by (cases xs) auto
  with Suc show ?case by (cases k) auto
qed simp

lemma scan_match:
  assumes "mt P (start pv p (c # cs)) = M # ms" and "pos M = p + Suc k" and "k \<le> length cs"
  shows "scan P r pv p 0 (c # cs) =
           (r M @ fst (scan P r (if k = 0 then Some c else Some (cs ! (k - 1))) (p + Suc k) 0 (drop k cs)),
            Suc (snd (scan P r (if k = 0 then Some c else Some (cs ! (k - 1))) (p + Suc k) 0 (drop k cs))))"
  using assms scan_skip[of k cs P r "Some c" "Suc p"] by (simp add: split_def Let_def)

section \<open>Properties\<close>

text \<open>
  Equivalence of the pattern for an IGNORECASE literal with its reference reading: it
  matches exactly when the next \<open>length w\<close> characters equal \<open>w\<close> up to ASCII case, and then
  consumes them.
\<close>

lemma lit_ci_matches_case_insensitively:
  "w \<noteq> [] \<Longrightarrow>
   mt (lit_ci w) s =
     (if length w \<le> length (rest s) \<and> map lower (take (length w) (rest s)) = map lower w
      then [adv (length w) s] else [])"
proof (induction w arbitrary: s rule: lit_ci.induct)
  case (2 c)
  then show ?case by (cases "rest s") auto
next
  case (3 c d ds)
  show ?case
  proof (cases "rest s")
    case (Cons x xs)
    have "mt (lit_ci (d # ds)) (adv 1 s) =
          (if length (d # ds) \<le> length xs \<and> map lower (take (length (d # ds)) xs) = map lower (d # ds)
           then [adv (length (d # ds)) (adv 1 s)] else [])"
      using "3.IH"[of "adv 1 s"] Cons by simp
    moreover have "adv (length (d # ds)) (adv 1 s) = adv (Suc (length (d # ds))) s"
      using Cons by (simp add: adv_def)
    ultimately show ?thesis using Cons by auto
  qed simp
qed simp

end
