(* ===== verification/Sanitize.thy ===== *)
theory Sanitize
  imports Regex
begin

text \<open>
  src/scripts/sanitize_secrets.py: the two patterns \<open>KEY_PATTERN\<close> and \<open>ENV_PATTERN\<close> (lines
  14-15) written in the pattern language of theory \<open>Regex\<close>, the replacements of
  \<open>redact_text\<close> (lines 20-30), the suffix test \<open>is_text_file\<close> (17-18) and the loop of \<open>main\<close>
  (32-45) over a file system given as a map from paths to contents. The walk
  \<open>ROOT.rglob('*')\<close> is the list of paths it yields, taken relative to \<open>ROOT\<close> as \<open>main\<close>
  reports them; reading with \<open>errors='ignore'\<close> is taken
  to give the content as a string, and what \<open>main\<close> prints is the list of lines \<open>report\<close>.
\<close>

section \<open>The patterns (lines 14-15)\<close>

definition is_quote :: "char \<Rightarrow> bool" where
  "is_quote c \<longleftrightarrow> c = CHR ''\"'' \<or> c = CHR 0x27"

text \<open>\<open>[_-]?\<close> and \<open>["\']\<close>.\<close>

definition sep :: rx where
  "sep = Opt True (Cls (\<lambda>c. c = CHR ''_'' \<or> c = CHR ''-''))"

definition quote :: rx where
  "quote = Cls is_quote"

text \<open>
  \<open>(?i)(["\']?(?:api[_-]?key|api[_-]?token|token|secret|password|access[_-]?token|
  aws_access_key_id|aws_secret_access_key|sendgrid|twilio)["\']?\s*[:=]\s*)(["\'])(.*?)(["\'])\<close>
\<close>

definition key_names :: rx where
  "key_names = alts [seqs [lit_ci ''api'', sep, lit_ci ''key''], seqs [lit_ci ''api'', sep, lit_ci ''token''],
     lit_ci ''token'', lit_ci ''secret'', lit_ci ''password'', seqs [lit_ci ''access'', sep, lit_ci ''token''],
     lit_ci ''aws_access_key_id'', lit_ci ''aws_secret_access_key'', lit_ci ''sendgrid'', lit_ci ''twilio'']"

definition key_prefix :: rx where
  "key_prefix = seqs [Opt True quote, key_names, Opt True quote, Star True is_space,
     Cls (\<lambda>c. c = CHR '':'' \<or> c = CHR ''=''), Star True is_space]"

definition KEY_PATTERN :: rx where
  "KEY_PATTERN = seqs [Grp 1 key_prefix, Grp 2 quote, Grp 3 (Star False not_newline), Grp 4 quote]"

text \<open>
  \<open>(?im)^(\s*(?:API_KEY|API_TOKEN|TOKEN|SECRET|PASSWORD|ACCESS_TOKEN|AWS_ACCESS_KEY_ID|
  AWS_SECRET_ACCESS_KEY)\s*=\s*)(.*)$\<close>
\<close>

definition env_names :: rx where
  "env_names = alts [lit_ci ''API_KEY'', lit_ci ''API_TOKEN'', lit_ci ''TOKEN'', lit_ci ''SECRET'',
     lit_ci ''PASSWORD'', lit_ci ''ACCESS_TOKEN'', lit_ci ''AWS_ACCESS_KEY_ID'', lit_ci ''AWS_SECRET_ACCESS_KEY'']"

definition env_prefix :: rx where
  "env_prefix = seqs [Star True is_space, env_names, Star True is_space, Cls (\<lambda>c. c = CHR ''=''),
     Star True is_space]"

definition ENV_PATTERN :: rx where
  "ENV_PATTERN = seqs [Bol, Grp 1 env_prefix, Grp 2 (Star True not_newline), Eol]"

section \<open>\<open>redact_text\<close> (lines 20-30)\<close>

text \<open>\<open>_repl\<close>: \<open>m.group(1) + m.group(2) + 'REDACTED' + m.group(4)\<close>, and the lambda of line 27.\<close>

definition key_repl :: "mstate \<Rightarrow> string" where
  "key_repl m = grp m 1 @ grp m 2 @ ''REDACTED'' @ grp m 4"

definition env_repl :: "mstate \<Rightarrow> string" where
  "env_repl m = grp m 1 @ ''REDACTED''"

text \<open>\<open>changed\<close> is set by \<open>_repl\<close> and by \<open>n1 or n2\<close>; both say that some replacement happened.\<close>

definition redact_text :: "string \<Rightarrow> string \<times> bool" where
  "redact_text text =
     (let (t1, n1) = subn KEY_PATTERN key_repl text;
          (t2, n2) = subn ENV_PATTERN env_repl t1
      in (t2, n1 \<noteq> 0 \<or> n2 \<noteq> 0))"

section \<open>Files (lines 12, 17-18, 32-45)\<close>

definition SKIP_EXT :: "string list" where
  "SKIP_EXT = [''.png'', ''.jpg'', ''.jpeg'', ''.gif'', ''.pdf'', ''.docx'', ''.xlsx'', ''.zip'', ''.exe'', ''.dll'', ''.so'']"

text \<open>
  \<open>Path.name\<close> and \<open>Path.suffix\<close> for the paths \<open>rglob\<close> yields (no trailing slash): the part
  from the last dot of the name, when that dot is neither the first nor the last character.
\<close>

definition path_name :: "string \<Rightarrow> string" where
  "path_name p = rev (takeWhile (\<lambda>c. c \<noteq> CHR ''/'') (rev p))"

definition path_suffix :: "string \<Rightarrow> string" where
  "path_suffix p =
     (let n = path_name p; r = takeWhile (\<lambda>c. c \<noteq> CHR ''.'') (rev n)
      in if length r < length n \<and> 0 < length r \<and> length r + 1 < length n then CHR ''.'' # rev r else [])"

definition is_text_file :: "string \<Rightarrow> bool" where
  "is_text_file p \<longleftrightarrow> map lower (path_suffix p) \<notin> set SKIP_EXT"

text \<open>\<open>p.with_suffix(p.suffix + '.bak')\<close> appends \<open>.bak\<close> to the name.\<close>

definition bak_path :: "string \<Rightarrow> string" where
  "bak_path p = p @ ''.bak''"

type_synonym files = "string \<Rightarrow> string option"

text \<open>One iteration of the loop of \<open>main\<close>: back up and rewrite a text file whose redaction changed.\<close>

definition sanitize_file :: "files \<Rightarrow> string \<Rightarrow> files \<times> string list" where
  "sanitize_file fs p =
     (case fs p of
        None \<Rightarrow> (fs, [])
      | Some s \<Rightarrow>
          if is_text_file p then
            (let (new_s, changed) = redact_text s
             in if changed then (fs(bak_path p \<mapsto> s, p \<mapsto> new_s), [p]) else (fs, []))
          else (fs, []))"

text \<open>The loop over the walk, with the list \<open>changed_files\<close>.\<close>

fun sanitize_all :: "files \<Rightarrow> string list \<Rightarrow> files \<times> string list" where
  "sanitize_all fs [] = (fs, [])"
| "sanitize_all fs (p # ps) =
     (let (fs1, c1) = sanitize_file fs p; (fs2, c2) = sanitize_all fs1 ps in (fs2, c1 @ c2))"

text \<open>
  What \<open>main\<close> prints after the loop (lines 46-52), one element per \<open>print\<close> call;
  \<open>print(' -', f)\<close> joins its two arguments with a space. The paths of the model are
  already relative to \<open>ROOT\<close>.
\<close>

definition report :: "string list \<Rightarrow> string list" where
  "report changed_files =
     (if changed_files \<noteq> []
      then ''Redacted values in:'' # map (\<lambda>f. '' - '' @ f) changed_files @
           [CHR ''\<newline>'' # ''Backups saved with .bak suffix alongside originals. Review before pushing.'']
      else [''No likely secrets found/redacted.''])"

text \<open>\<open>main()\<close> (lines 32-55) over the walk \<open>walk\<close> of \<open>ROOT.rglob('*')\<close>: the files after
  the run and the printed lines.\<close>

definition sanitize_main :: "files \<Rightarrow> string list \<Rightarrow> files \<times> string list" where
  "sanitize_main fs walk = (let (fs', changed_files) = sanitize_all fs walk in (fs', report changed_files))"

text \<open>
  What the backups are for (the docstring, lines 2-5): putting a file back from its
  \<open>.bak\<close> copy and removing the copy, and doing so for the reported files, the last one
  first. This is the reviewer's undo, not code of the script.
\<close>

definition restore :: "files \<Rightarrow> string \<Rightarrow> files" where
  "restore fs p = fs(p := fs (bak_path p), bak_path p := None)"

definition restore_all :: "files \<Rightarrow> string list \<Rightarrow> files" where
  "restore_all fs ps = foldr (\<lambda>p fs. restore fs p) ps fs"

section \<open>Lemmas\<close>

subsection \<open>The shape of a match\<close>

lemma nogrp_prefixes: "nogrp key_prefix" "nogrp env_prefix"
  by (simp_all add: key_prefix_def env_prefix_def key_names_def env_names_def nogrp_seqs nogrp_alts
      nogrp_lit_ci sep_def quote_def)

lemma KEY_PATTERN_unfold:
  "KEY_PATTERN = Seq (Grp 1 key_prefix) (Seq (Grp 2 quote) (Seq (Grp 3 (Star False not_newline)) (Grp 4 quote)))"
  by (simp add: KEY_PATTERN_def)

lemma ENV_PATTERN_unfold:
  "ENV_PATTERN = Seq Bol (Seq (Grp 1 env_prefix) (Seq (Grp 2 (Star True not_newline)) Eol))"
  by (simp add: ENV_PATTERN_def)

text \<open>A match of the key pattern: its four groups, the secret between two quote characters.
  The shape holds whether the secret's repetition is lazy or greedy.\<close>

lemma key_seq_shape:
  assumes "m \<in> set (mt (Seq (Grp 1 key_prefix) (Seq (Grp 2 quote) (Seq (Grp 3 (Star lz not_newline)) (Grp 4 quote)))) s)"
    and "groups s = []"
  shows "\<exists>g1 c2 g3 c4. consumed s m = g1 @ [c2] @ g3 @ [c4] \<and> is_quote c2 \<and> is_quote c4 \<and>
           (\<forall>c \<in> set g3. not_newline c) \<and> key_repl m = g1 @ [c2] @ ''REDACTED'' @ [c4]"
proof -
  obtain m1 m2 m3 where
    1: "m1 \<in> set (mt (Grp 1 key_prefix) s)" and 2: "m2 \<in> set (mt (Grp 2 quote) m1)" and
    3: "m3 \<in> set (mt (Grp 3 (Star lz not_newline)) m2)" and 4: "m \<in> set (mt (Grp 4 quote) m3)"
    using assms(1) unfolding mt_Seq_mem by blast
  obtain m1' where b1: "m1' \<in> set (mt key_prefix s)" "groups m1 = dict_set (groups m1') 1 (consumed s m1)"
    using mt_Grp_body[OF 1] by blast
  obtain m2' c2 where b2: "m2' \<in> set (mt quote m1)" "consumed m1 m2 = [c2]" "is_quote c2"
    "groups m2 = dict_set (groups m2') 2 (consumed m1 m2)"
    using mt_Grp_body[OF 2] mt_Cls_mem[of _ is_quote m1] unfolding quote_def by metis
  obtain m3' where b3: "m3' \<in> set (mt (Star lz not_newline) m2)" "consumed m2 m3 = consumed m2 m3'"
    "groups m3 = dict_set (groups m3') 3 (consumed m2 m3)"
    using mt_Grp_body[OF 3] by blast
  obtain m4' c4 where b4: "m4' \<in> set (mt quote m3)" "consumed m3 m = [c4]" "is_quote c4"
    "groups m = dict_set (groups m4') 4 (consumed m3 m)"
    using mt_Grp_body[OF 4] mt_Cls_mem[of _ is_quote m3] unfolding quote_def by metis
  have g: "groups m1' = []" "groups m2' = groups m1" "groups m3' = groups m2" "groups m4' = groups m3"
    using mt_nogrp[OF nogrp_prefixes(1) b1(1)] mt_nogrp[of quote, OF _ b2(1)]
      mt_nogrp[of "Star lz not_newline", OF _ b3(1)] mt_nogrp[of quote, OF _ b4(1)] assms(2)
    by (simp_all add: quote_def)
  have nl: "\<forall>c \<in> set (consumed m2 m3). not_newline c" using mt_Star_mem[OF b3(1)] b3(2) by simp
  have s3: "m \<in> set (mt (Seq (Grp 3 (Star lz not_newline)) (Grp 4 quote)) m2)"
    using 3 4 unfolding mt_Seq_mem by blast
  then have s2: "m \<in> set (mt (Seq (Grp 2 quote) (Seq (Grp 3 (Star lz not_newline)) (Grp 4 quote))) m1)"
    using 2 unfolding mt_Seq_mem by blast
  have c: "consumed s m = consumed s m1 @ consumed m1 m2 @ consumed m2 m3 @ consumed m3 m"
    using consumed_seq[OF 1 s2] consumed_seq[OF 2 s3] consumed_seq[OF 3 4] by simp
  have "groups m = dict_set (dict_set (dict_set (dict_set [] 1 (consumed s m1)) 2 [c2]) 3 (consumed m2 m3)) 4 [c4]"
    using b1(2) b2(2,4) b3(3) b4(2,4) g by simp
  then have "key_repl m = consumed s m1 @ [c2] @ ''REDACTED'' @ [c4]"
    by (simp add: key_repl_def grp_def)
  then show ?thesis using c b2(2,3) b4(2,3) nl by auto
qed

lemma key_match_shape:
  assumes "m \<in> set (mt KEY_PATTERN s)" and "groups s = []"
  shows "\<exists>g1 c2 g3 c4. consumed s m = g1 @ [c2] @ g3 @ [c4] \<and> is_quote c2 \<and> is_quote c4 \<and>
           (\<forall>c \<in> set g3. not_newline c) \<and> key_repl m = g1 @ [c2] @ ''REDACTED'' @ [c4]"
  using assms(1) unfolding KEY_PATTERN_def seqs.simps by (rule key_seq_shape[OF _ assms(2)])

text \<open>A match of the env pattern starts a line and keeps its first group.\<close>

lemma env_match_shape:
  assumes "m \<in> set (mt ENV_PATTERN s)" and "groups s = []"
  shows "(prev s = None \<or> prev s = Some CHR ''\<newline>'') \<and>
         (\<exists>g1 g2. consumed s m = g1 @ g2 \<and> (\<forall>c \<in> set g2. not_newline c) \<and> env_repl m = g1 @ ''REDACTED'')"
proof -
  obtain m0 m1 m2 where
    0: "m0 \<in> set (mt Bol s)" and 1: "m1 \<in> set (mt (Grp 1 env_prefix) m0)" and
    2: "m2 \<in> set (mt (Grp 2 (Star True not_newline)) m1)" and 3: "m \<in> set (mt Eol m2)"
    using assms(1) unfolding ENV_PATTERN_unfold mt_Seq_mem by blast
  have m0: "m0 = s" "prev s = None \<or> prev s = Some CHR ''\<newline>''" using 0 by (auto split: if_splits)
  have m: "m = m2" using 3 by (auto split: if_splits)
  obtain m1' where b1: "m1' \<in> set (mt env_prefix s)" "groups m1 = dict_set (groups m1') 1 (consumed s m1)"
    using mt_Grp_body[OF 1] m0(1) by blast
  obtain m2' where b2: "m2' \<in> set (mt (Star True not_newline) m1)" "consumed m1 m2 = consumed m1 m2'"
    "groups m2 = dict_set (groups m2') 2 (consumed m1 m2)"
    using mt_Grp_body[OF 2] by blast
  have g: "groups m1' = []" "groups m2' = groups m1"
    using mt_nogrp[OF nogrp_prefixes(2) b1(1)] mt_nogrp[of "Star True not_newline", OF _ b2(1)] assms(2)
    by simp_all
  have nl: "\<forall>c \<in> set (consumed m1 m2). not_newline c" using mt_Star_mem[OF b2(1)] b2(2) by simp
  have c: "consumed s m = consumed s m1 @ consumed m1 m2"
    using consumed_seq[OF 1 2] m m0(1) by simp
  have "env_repl m = consumed s m1 @ ''REDACTED''"
    using b1(2) b2(3) g m by (simp add: env_repl_def grp_def)
  then show ?thesis using c nl m0(2) by auto
qed

lemma key_repl_lines:
  "m \<in> set (mt KEY_PATTERN (start pv p ys)) \<Longrightarrow>
     count_list (key_repl m) CHR ''\<newline>'' = count_list (consumed (start pv p ys) m) CHR ''\<newline>''"
  using key_match_shape[of m "start pv p ys"]
  by (auto simp: count_list_append_any count_list_none)

lemma env_repl_lines:
  "m \<in> set (mt ENV_PATTERN (start pv p ys)) \<Longrightarrow>
     count_list (env_repl m) CHR ''\<newline>'' = count_list (consumed (start pv p ys) m) CHR ''\<newline>''"
  using env_match_shape[of m "start pv p ys"]
  by (auto simp: count_list_append_any count_list_none)

lemma count_quotes_consumed:
  assumes "m \<in> set (mt KEY_PATTERN (start pv p ys))"
  shows "2 \<le> length (filter is_quote ys)"
proof -
  obtain g1 c2 g3 c4 where "consumed (start pv p ys) m = g1 @ [c2] @ g3 @ [c4]" "is_quote c2" "is_quote c4"
    using key_match_shape[OF assms] by auto
  then have "g1 @ [c2] @ g3 @ [c4] @ drop (pos m - p) ys = ys"
    by (metis append_assoc append_take_drop_id consumed_def start_simps(1,2))
  then have "length (filter is_quote (g1 @ [c2] @ g3 @ [c4] @ drop (pos m - p) ys)) = length (filter is_quote ys)"
    by simp
  with \<open>is_quote c2\<close> \<open>is_quote c4\<close> show ?thesis by simp
qed

lemma patterns_at_end: "mt KEY_PATTERN (start pv p []) = []" "mt ENV_PATTERN (start pv p []) = []"
  by (simp_all add: KEY_PATTERN_def ENV_PATTERN_unfold key_prefix_def env_prefix_def key_names_def env_names_def sep_def quote_def start_def)

subsection \<open>Where the patterns cannot match\<close>

lemma env_needs_line_start:
  assumes "prev s \<noteq> None" and "prev s \<noteq> Some CHR ''\<newline>''"
  shows "mt ENV_PATTERN s = []"
proof -
  have "mt Bol s = []" using assms by simp
  then show ?thesis by (simp only: ENV_PATTERN_unfold mt.simps(2)) simp
qed

lemma env_scan_inside_line:
  assumes "CHR ''\<newline>'' \<notin> set ys" and "pv \<noteq> None" and "pv \<noteq> Some CHR ''\<newline>''"
  shows "scan ENV_PATTERN r pv p 0 ys = (ys, 0)"
  using scan_nomatch[where Q = "\<lambda>pv ys. pv \<noteq> None \<and> pv \<noteq> Some CHR ''\<newline>'' \<and> CHR ''\<newline>'' \<notin> set ys"]
    env_needs_line_start assms by force

lemma key_scan_few_quotes:
  assumes "length (filter is_quote ys) < 2"
  shows "scan KEY_PATTERN r pv p 0 ys = (ys, 0)"
proof (rule scan_nomatch[where Q = "\<lambda>pv ys. length (filter is_quote ys) < 2"])
  fix pv' p' ys' assume "length (filter is_quote ys') < 2"
  then show "mt KEY_PATTERN (start pv' p' ys') = []"
    using count_quotes_consumed[of _ pv' p' ys'] by (metis leD list.set_intros(1) neq_Nil_conv)
qed (use assms in \<open>auto split: if_splits\<close>)

lemma env_no_match_api_key: "mt ENV_PATTERN (start None p (''api_key: '' @ xs)) = []"
  by (simp add: ENV_PATTERN_unfold env_prefix_def env_names_def lower_def is_space_def adv_def start_def)

lemma env_scan_api_key:
  "CHR ''\<newline>'' \<notin> set xs \<Longrightarrow> scan ENV_PATTERN r None 0 0 (''api_key: '' @ xs) = (''api_key: '' @ xs, 0)"
  using env_no_match_api_key[of 0 xs] env_scan_inside_line[of "''pi_key: '' @ xs" "Some CHR ''a''" r 1]
  by (simp add: Let_def split_def)

subsection \<open>Matches on two kinds of line\<close>

lemma key_prefix_api_key:
  "\<exists>A B. mt (Grp 1 key_prefix) (start pv p (''api_key: '' @ CHR 0x22 # xs)) = A # B \<and>
     rest A = CHR 0x22 # xs \<and> pos A = p + 9 \<and> groups A = [(1, ''api_key: '')]"
  by (simp add: key_prefix_def key_names_def sep_def quote_def is_quote_def lower_def is_space_def
      adv_def start_def)

lemma key_match_api_key:
  assumes v: "\<forall>c \<in> set v. \<not> is_quote c \<and> not_newline c" and z: "is_quote z"
  shows "\<exists>M ms. mt KEY_PATTERN (start pv p (''api_key: '' @ CHR 0x22 # v @ z # zs)) = M # ms \<and>
           pos M = p + 11 + length v \<and> rest M = zs \<and> key_repl M = ''api_key: '' @ CHR 0x22 # ''REDACTED'' @ [z]"
proof -
  obtain A B where a: "mt (Grp 1 key_prefix) (start pv p (''api_key: '' @ CHR 0x22 # v @ z # zs)) = A # B"
    "rest A = CHR 0x22 # v @ z # zs" "pos A = p + 9" "groups A = [(1, ''api_key: '')]"
    using key_prefix_api_key by blast
  define A2 where "A2 = (adv 1 A)\<lparr>groups := dict_set (groups A) 2 [CHR 0x22]\<rparr>"
  have a2: "mt (Grp 2 quote) A = [A2]"
    using a(2) by (simp add: quote_def A2_def is_quote_def del: mt.simps) (simp add: is_quote_def)
  have r2: "rest A2 = v @ z # zs" using a(2) by (simp add: A2_def)
  obtain M ms where m: "mt (Seq (Grp 3 (Star False not_newline)) (Grp 4 (Cls is_quote))) A2 = M # ms"
    "pos M = pos A2 + Suc (length v)" "rest M = zs" "groups M = dict_set (dict_set (groups A2) 3 v) 4 [z]"
    using mt_lazy_then[where s = A2 and p = not_newline and q = is_quote and i = 3 and j = 4, OF r2 _ z] v
    by blast
  have "mt KEY_PATTERN (start pv p (''api_key: '' @ CHR 0x22 # v @ z # zs)) =
        M # ms @ concat (map (mt (Seq (Grp 2 quote) (Seq (Grp 3 (Star False not_newline)) (Grp 4 quote)))) B)"
    unfolding KEY_PATTERN_unfold using a(1) a2 m(1) by (simp add: quote_def)
  moreover have "key_repl M = ''api_key: '' @ CHR 0x22 # ''REDACTED'' @ [z]"
    using m(4) a(4) by (simp add: A2_def key_repl_def grp_def)
  ultimately show ?thesis using m(2,3) a(3) by (simp add: A2_def)
qed

text \<open>A value on an \<open>api_key:\<close> line is redacted up to the first quote of either kind.\<close>

lemma redact_api_key_line:
  assumes v: "\<forall>c \<in> set v. \<not> is_quote c \<and> not_newline c" and z: "is_quote z"
    and zs: "length (filter is_quote zs) < 2" "CHR ''\<newline>'' \<notin> set zs"
  shows "redact_text (''api_key: '' @ CHR 0x22 # v @ z # zs) =
           (''api_key: '' @ CHR 0x22 # ''REDACTED'' @ z # zs, True)"
proof -
  obtain M ms where m: "mt KEY_PATTERN (start None 0 (''api_key: '' @ CHR 0x22 # v @ z # zs)) = M # ms"
    "pos M = 0 + 11 + length v" "key_repl M = ''api_key: '' @ CHR 0x22 # ''REDACTED'' @ [z]"
    using key_match_api_key[OF v z, of None 0 zs] by auto
  define cs where "cs = ''pi_key: '' @ CHR 0x22 # v @ z # zs"
  have t: "''api_key: '' @ CHR 0x22 # v @ z # zs = CHR ''a'' # cs" by (simp add: cs_def)
  have c: "cs = (''pi_key: '' @ CHR 0x22 # v @ [z]) @ zs" "length (''pi_key: '' @ CHR 0x22 # v @ [z]) = 10 + length v"
    by (simp_all add: cs_def)
  have "drop (length (''pi_key: '' @ CHR 0x22 # v @ [z])) cs = zs"
    by (metis c(1) append_eq_conv_conj)
  then have k3: "drop (10 + length v) cs = zs" by (simp only: c(2))
  have k: "pos M = 0 + Suc (10 + length v)" "10 + length v \<le> length cs" "drop (10 + length v) cs = zs"
    using m(2) k3 by (simp_all add: cs_def)
  have "scan KEY_PATTERN key_repl None 0 0 (CHR ''a'' # cs) =
          (key_repl M @ zs, 1)"
    using scan_match[OF m(1)[unfolded t] k(1,2), of key_repl] k(3) key_scan_few_quotes[OF zs(1)] by simp
  then have key: "subn KEY_PATTERN key_repl (''api_key: '' @ CHR 0x22 # v @ z # zs) =
                    (''api_key: '' @ CHR 0x22 # ''REDACTED'' @ z # zs, 1)"
    using m(3) t by (simp add: subn_def)
  have "CHR ''\<newline>'' \<notin> set (CHR 0x22 # ''REDACTED'' @ z # zs)"
    using z zs(2) by (auto simp: is_quote_def)
  then have "subn ENV_PATTERN env_repl (''api_key: '' @ CHR 0x22 # ''REDACTED'' @ z # zs) =
               (''api_key: '' @ CHR 0x22 # ''REDACTED'' @ z # zs, 0)"
    using env_scan_api_key by (simp add: subn_def)
  then show ?thesis using key by (simp add: redact_text_def)
qed

lemma env_prefix_password:
  "\<exists>A B. mt (Grp 1 env_prefix) (start pv p (''PASSWORD='' @ CHR ''\<newline>'' # l)) = A # B \<and>
     pos A = p + 10 + length (takeWhile is_space l) \<and> rest A = dropWhile is_space l \<and>
     groups A = [(1, ''PASSWORD='' @ CHR ''\<newline>'' # takeWhile is_space l)]"
  by (simp add: env_prefix_def env_names_def lower_def is_space_def adv_def start_def Let_def
      takeWhile_eq_take[symmetric] dropWhile_eq_drop[symmetric] take_Cons')

lemma env_match_password:
  assumes l: "CHR ''\<newline>'' \<notin> set l"
  shows "\<exists>M ms. mt ENV_PATTERN (start None p (''PASSWORD='' @ CHR ''\<newline>'' # l)) = M # ms \<and>
           pos M = p + 10 + length l \<and>
           env_repl M = ''PASSWORD='' @ CHR ''\<newline>'' # takeWhile is_space l @ ''REDACTED''"
proof -
  obtain A B where a: "mt (Grp 1 env_prefix) (start None p (''PASSWORD='' @ CHR ''\<newline>'' # l)) = A # B"
    "pos A = p + 10 + length (takeWhile is_space l)" "rest A = dropWhile is_space l"
    "groups A = [(1, ''PASSWORD='' @ CHR ''\<newline>'' # takeWhile is_space l)]"
    using env_prefix_password by blast
  have nl: "\<forall>c \<in> set (dropWhile is_space l). not_newline c"
    using l set_dropWhileD by (fastforce simp: not_newline_def)
  then have tw: "takeWhile not_newline (dropWhile is_space l) = dropWhile is_space l"
    by (simp add: takeWhile_eq_all_conv)
  define M where "M = (adv (length (dropWhile is_space l)) A)
                        \<lparr>groups := dict_set (groups A) 2 (dropWhile is_space l)\<rparr>"
  have g2: "\<exists>ms. mt (Grp 2 (Star True not_newline)) A = M # ms"
    unfolding mt.simps(6) mt_Star_greedy using a(3) by (simp add: M_def tw)
  have "rest M = []" using a(3) by (simp add: M_def)
  then have "\<exists>ms. mt (Seq (Grp 2 (Star True not_newline)) Eol) A = M # ms"
    using g2 by auto
  then have "\<exists>ms. mt ENV_PATTERN (start None p (''PASSWORD='' @ CHR ''\<newline>'' # l)) = M # ms"
    unfolding ENV_PATTERN_unfold using a(1) by auto
  moreover have "pos M = p + 10 + length l"
    using a(2) length_append[of "takeWhile is_space l" "dropWhile is_space l"]
    by (simp add: M_def del: length_append)
  moreover have "env_repl M = ''PASSWORD='' @ CHR ''\<newline>'' # takeWhile is_space l @ ''REDACTED''"
    using a(4) by (simp add: M_def env_repl_def grp_def)
  ultimately show ?thesis by blast
qed

lemma no_quotes_password: "\<forall>c \<in> set l. \<not> is_quote c \<Longrightarrow> filter is_quote (''PASSWORD='' @ CHR ''\<newline>'' # l) = []"
  by (simp add: is_quote_def filter_empty_conv)

subsection \<open>Paths\<close>

lemma path_name_bak: "path_name (bak_path p) = path_name p @ ''.bak''"
  by (simp add: path_name_def bak_path_def)

lemma bak_path_neq: "bak_path p \<noteq> p"
  by (simp add: bak_path_def)

section \<open>Properties\<close>

subsection \<open>The loop of main\<close>

lemma sanitize_file_frame:
  "fst (sanitize_file fs p) q \<noteq> fs q \<Longrightarrow> p \<in> set (snd (sanitize_file fs p)) \<and> (q = p \<or> q = bak_path p)"
  by (auto simp: sanitize_file_def split: option.splits if_splits prod.splits)

lemma sanitize_all_frame:
  "fst (sanitize_all fs ps) q \<noteq> fs q \<Longrightarrow> \<exists>p \<in> set (snd (sanitize_all fs ps)). q = p \<or> q = bak_path p"
proof (induction ps arbitrary: fs)
  case Nil
  then show ?case by simp
next
  case (Cons p ps)
  obtain fs1 c1 where f: "sanitize_file fs p = (fs1, c1)" by fastforce
  show ?case
  proof (cases "fst (sanitize_all fs1 ps) q = fs1 q")
    case True
    then have "fst (sanitize_file fs p) q \<noteq> fs q" using Cons.prems f by (simp split: prod.splits)
    with sanitize_file_frame[of fs p q] f show ?thesis by (auto split: prod.splits)
  next
    case False
    with Cons.IH[of fs1] f show ?thesis by (auto split: prod.splits)
  qed
qed

lemma restore_all_append: "restore_all fs (xs @ ys) = restore_all (restore_all fs ys) xs"
  by (simp add: restore_all_def)

lemma sanitize_file_other:
  "q \<noteq> p \<Longrightarrow> q \<noteq> bak_path p \<Longrightarrow> fst (sanitize_file fs p) q = fs q"
  by (auto simp: sanitize_file_def split: option.splits prod.splits)

lemma restore_sanitize_file:
  assumes "fs (bak_path p) = None"
  shows "restore_all (fst (sanitize_file fs p)) (snd (sanitize_file fs p)) = fs"
  using assms bak_path_neq[of p]
  by (auto simp: sanitize_file_def restore_all_def restore_def fun_eq_iff split: option.splits prod.splits)

lemma report_lists: "p \<in> set changed_files \<Longrightarrow> '' - '' @ p \<in> set (report changed_files)"
  by (auto simp: report_def)

text \<open>
  A quoted value on an \<open>api_key:\<close> line (no quote or newline inside) is replaced by
  \<open>REDACTED\<close>, the quotes and the key kept; the result is reported as changed.
\<close>

lemma redact_quoted_secret:
  assumes "\<forall>c \<in> set v. \<not> is_quote c \<and> not_newline c"
  shows "redact_text (''api_key: '' @ CHR 0x22 # v @ [CHR 0x22]) =
           (''api_key: '' @ CHR 0x22 # ''REDACTED'' @ [CHR 0x22], True)"
  using redact_api_key_line[OF assms, of "CHR 0x22" "[]"] by (simp add: is_quote_def)

text \<open>
  C16. The closing quote of \<open>KEY_PATTERN\<close> may differ from the opening one, and \<open>.*?\<close> stops at
  the first quote of either kind: in a double-quoted value containing an apostrophe only the
  part before the apostrophe is redacted and the rest of the secret stays in the file.
\<close>

theorem redact_mismatched_quote_leaks:
  assumes "\<forall>c \<in> set v. \<not> is_quote c \<and> not_newline c" and "\<forall>c \<in> set w. \<not> is_quote c \<and> not_newline c"
  shows "redact_text (''api_key: '' @ CHR 0x22 # v @ CHR 0x27 # w @ [CHR 0x22]) =
           (''api_key: '' @ CHR 0x22 # ''REDACTED'' @ CHR 0x27 # w @ [CHR 0x22], True)"
proof -
  have "length (filter is_quote (w @ [CHR 0x22])) < 2" "CHR ''\<newline>'' \<notin> set (w @ [CHR 0x22])"
    using assms(2) by (auto simp: is_quote_def not_newline_def filter_empty_conv)
  then show ?thesis using redact_api_key_line[OF assms(1), of "CHR 0x27" "w @ [CHR 0x22]"]
    by (simp add: is_quote_def)
qed

theorem redact_mismatched_quote_leaks_witness:
  "redact_text ''api_key: \"my'secret\"'' = (''api_key: \"REDACTED'secret\"'', True)"
  using redact_mismatched_quote_leaks[of "''my''" "''secret''"] by (simp add: is_quote_def not_newline_def)

text \<open>
  C17. \<open>ENV_PATTERN\<close>'s \<open>\s*\<close> after \<open>=\<close> also consumes a newline: a \<open>PASSWORD=\<close> line with an
  empty value makes the next line the value, and that line is replaced by \<open>REDACTED\<close> (after
  its leading blanks).
\<close>

theorem env_redacts_next_line:
  assumes l: "CHR ''\<newline>'' \<notin> set l" "\<forall>c \<in> set l. \<not> is_quote c"
  shows "redact_text (''PASSWORD='' @ CHR ''\<newline>'' # l) =
           (''PASSWORD='' @ CHR ''\<newline>'' # takeWhile is_space l @ ''REDACTED'', True)"
proof -
  have key: "subn KEY_PATTERN key_repl (''PASSWORD='' @ CHR ''\<newline>'' # l) = (''PASSWORD='' @ CHR ''\<newline>'' # l, 0)"
  proof -
    have "length (filter is_quote (''PASSWORD='' @ CHR ''\<newline>'' # l)) < 2"
      using no_quotes_password[OF l(2)] by (simp only: list.size)
    from key_scan_few_quotes[OF this] show ?thesis unfolding subn_def .
  qed
  obtain M ms where m: "mt ENV_PATTERN (start None 0 (''PASSWORD='' @ CHR ''\<newline>'' # l)) = M # ms"
    "pos M = 0 + 10 + length l" "env_repl M = ''PASSWORD='' @ CHR ''\<newline>'' # takeWhile is_space l @ ''REDACTED''"
    using env_match_password[OF l(1), of 0] by blast
  define cs where "cs = ''ASSWORD='' @ CHR ''\<newline>'' # l"
  have t: "''PASSWORD='' @ CHR ''\<newline>'' # l = CHR ''P'' # cs" by (simp add: cs_def)
  have k: "pos M = 0 + Suc (length cs)" "length cs \<le> length cs" using m(2) by (simp_all add: cs_def)
  have "scan ENV_PATTERN env_repl None 0 0 (CHR ''P'' # cs) = (env_repl M, 1)"
    using scan_match[OF m(1)[unfolded t] k, of env_repl] patterns_at_end(2) by simp
  then have "subn ENV_PATTERN env_repl (''PASSWORD='' @ CHR ''\<newline>'' # l) =
               (''PASSWORD='' @ CHR ''\<newline>'' # takeWhile is_space l @ ''REDACTED'', 1)"
    using m(3) t by (simp add: subn_def)
  then show ?thesis using key by (simp add: redact_text_def)
qed

theorem env_redacts_next_line_witness:
  "redact_text (''PASSWORD='' @ CHR ''\<newline>'' # ''  keep_me'') =
     (''PASSWORD='' @ CHR ''\<newline>'' # ''  REDACTED'', True)"
  using env_redacts_next_line[of "''  keep_me''"] by (simp add: is_quote_def is_space_def)

text \<open>C19. Redaction never adds or removes a line: the text keeps its number of newlines.\<close>

theorem redact_text_keeps_lines:
  "count_list (fst (redact_text t)) CHR ''\<newline>'' = count_list t CHR ''\<newline>''"
proof -
  obtain t1 n1 where k: "subn KEY_PATTERN key_repl t = (t1, n1)" by fastforce
  obtain t2 n2 where e: "subn ENV_PATTERN env_repl t1 = (t2, n2)" by fastforce
  have "count_list t1 CHR ''\<newline>'' = count_list t CHR ''\<newline>''"
    using scan_count[of KEY_PATTERN key_repl, OF key_repl_lines, of None 0 0 t] k by (simp add: subn_def)
  moreover have "count_list t2 CHR ''\<newline>'' = count_list t1 CHR ''\<newline>''"
    using scan_count[of ENV_PATTERN env_repl, OF env_repl_lines, of None 0 0 t1] e by (simp add: subn_def)
  ultimately show ?thesis using k e by (simp add: redact_text_def)
qed

text \<open>
  C15. The docstring says the script keeps a \<open>.bak\<close> copy of each file it modifies. A redacted
  file still matches (\<open>REDACTED\<close> is quoted again), so a second run reports it changed and
  copies the already redacted text over the backup: after two runs the secret is gone from
  both the file and its backup.
\<close>

theorem rerun_overwrites_backup:
  assumes v: "\<forall>c \<in> set v. \<not> is_quote c \<and> not_newline c" and p: "is_text_file p"
    and fs: "fs p = Some (''api_key: '' @ CHR 0x22 # v @ [CHR 0x22])"
  shows "fst (sanitize_all fs [p]) (bak_path p) = Some (''api_key: '' @ CHR 0x22 # v @ [CHR 0x22]) \<and>
         fst (sanitize_all (fst (sanitize_all fs [p])) [p]) (bak_path p) =
           Some (''api_key: '' @ CHR 0x22 # ''REDACTED'' @ [CHR 0x22]) \<and>
         fst (sanitize_all (fst (sanitize_all fs [p])) [p]) p =
           Some (''api_key: '' @ CHR 0x22 # ''REDACTED'' @ [CHR 0x22])"
proof -
  have r1: "redact_text (''api_key: '' @ CHR 0x22 # v @ [CHR 0x22]) =
              (''api_key: '' @ CHR 0x22 # ''REDACTED'' @ [CHR 0x22], True)"
    using redact_quoted_secret[OF v] .
  have "\<forall>c \<in> set ''REDACTED''. \<not> is_quote c \<and> not_newline c" by (simp add: is_quote_def not_newline_def)
  then have r2: "redact_text (''api_key: '' @ CHR 0x22 # ''REDACTED'' @ [CHR 0x22]) =
              (''api_key: '' @ CHR 0x22 # ''REDACTED'' @ [CHR 0x22], True)"
    by (rule redact_quoted_secret)
  show ?thesis
    using fs p r1 r2 bak_path_neq[of p] by (simp add: sanitize_file_def)
qed

theorem rerun_overwrites_backup_witness:
  "fst (sanitize_all (fst (sanitize_all (\<lambda>q. if q = ''config.env'' then Some ''api_key: \"hunter2\"'' else None)
      [''config.env''])) [''config.env'']) (bak_path ''config.env'') = Some ''api_key: \"REDACTED\"''"
proof -
  have "is_text_file ''config.env''"
    by (simp add: is_text_file_def path_suffix_def path_name_def SKIP_EXT_def lower_def)
  then show ?thesis
    using rerun_overwrites_backup[of "''hunter2''" "''config.env''"
        "\<lambda>q. if q = ''config.env'' then Some ''api_key: \"hunter2\"'' else None"]
    by (simp add: is_quote_def not_newline_def)
qed

text \<open>
  A backup is never skipped as a binary file: its suffix is \<open>.bak\<close> (or empty), so a later
  run scans the backups too.
\<close>

lemma backup_is_text_file: "is_text_file (bak_path p)"
proof -
  have "path_suffix (bak_path p) = (if path_name p = [] then [] else ''.bak'')"
    by (simp add: path_suffix_def path_name_bak)
  then show ?thesis by (simp add: is_text_file_def SKIP_EXT_def lower_def)
qed

text \<open>
  C34. \<open>main\<close> writes only what it reports: every file whose content differs after the run
  is a file printed under \<open>Redacted values in:\<close> or the backup of one.
\<close>

theorem sanitize_main_reports_writes:
  assumes "sanitize_main fs walk = (fs', out)" and "fs' q \<noteq> fs q"
  shows "\<exists>p. '' - '' @ p \<in> set out \<and> (q = p \<or> q = bak_path p)"
proof -
  have "fs' = fst (sanitize_all fs walk)" "out = report (snd (sanitize_all fs walk))"
    using assms(1) by (simp_all add: sanitize_main_def split: prod.splits)
  then show ?thesis using sanitize_all_frame[of fs walk q] assms(2) report_lists by blast
qed

theorem sanitize_main_reports_writes_witness:
  "'' - config.env'' \<in> set (snd (sanitize_main (\<lambda>q. if q = ''config.env'' then Some ''api_key: \"hunter2\"'' else None)
      [''config.env'']))"
proof -
  define fs :: files where "fs = (\<lambda>q. if q = ''config.env'' then Some ''api_key: \"hunter2\"'' else None)"
  have t: "is_text_file ''config.env''"
    by (simp add: is_text_file_def path_suffix_def path_name_def SKIP_EXT_def lower_def)
  have "redact_text ''api_key: \"hunter2\"'' = (''api_key: \"REDACTED\"'', True)"
    using redact_api_key_line[of "''hunter2''" "CHR 0x22" "[]"] by (simp add: is_quote_def not_newline_def)
  then have "fst (sanitize_main fs [''config.env'']) ''config.env'' \<noteq> fs ''config.env''"
    using t by (simp add: fs_def sanitize_main_def sanitize_file_def)
  from sanitize_main_reports_writes[OF prod.collapse[symmetric] this]
  obtain p where p: "'' - '' @ p \<in> set (snd (sanitize_main fs [''config.env'']))"
    "''config.env'' = p \<or> ''config.env'' = bak_path p" by blast
  have "last (bak_path p) \<noteq> last ''config.env''" by (simp add: bak_path_def)
  then have "''config.env'' \<noteq> bak_path p" by metis
  with p have "p = ''config.env''" by simp
  with p(1) show ?thesis unfolding fs_def by simp
qed

text \<open>
  C18. On a first run the backups do what the docstring promises: when the walk lists each
  file once, no backup exists yet and no walked file is the backup of another, putting
  every reported file back from its \<open>.bak\<close> copy (the last one first) gives back exactly
  the files before the run.
\<close>

theorem sanitize_all_backups_restore:
  assumes "distinct walk" and "\<forall>p \<in> set walk. fs (bak_path p) = None"
    and "\<forall>p \<in> set walk. \<forall>q \<in> set walk. p \<noteq> bak_path q"
  shows "restore_all (fst (sanitize_all fs walk)) (snd (sanitize_all fs walk)) = fs"
  using assms
proof (induction walk arbitrary: fs)
  case Nil
  then show ?case by (simp add: restore_all_def)
next
  case (Cons p ps)
  obtain fs1 c1 where f: "sanitize_file fs p = (fs1, c1)" by fastforce
  have "fs1 (bak_path q) = None" if "q \<in> set ps" for q
  proof -
    have "bak_path q \<noteq> p" "bak_path q \<noteq> bak_path p" using Cons.prems that by (auto simp: bak_path_def)
    then show ?thesis using sanitize_file_other[of "bak_path q" p fs] f Cons.prems(2) that by simp
  qed
  moreover obtain fs2 c2 where g: "sanitize_all fs1 ps = (fs2, c2)" by fastforce
  ultimately have "restore_all fs2 c2 = fs1" using Cons.IH[of fs1] Cons.prems(1,3) by simp
  moreover have "restore_all fs1 c1 = fs" using restore_sanitize_file[of fs p] Cons.prems(2) f by simp
  ultimately show ?case using f g by (simp add: restore_all_append)
qed

theorem sanitize_all_backups_restore_witness:
  "restore_all (fst (sanitize_all (\<lambda>q. if q = ''config.env'' then Some ''api_key: \"hunter2\"'' else None) [''config.env'']))
     (snd (sanitize_all (\<lambda>q. if q = ''config.env'' then Some ''api_key: \"hunter2\"'' else None) [''config.env''])) =
   (\<lambda>q. if q = ''config.env'' then Some ''api_key: \"hunter2\"'' else None)"
  using sanitize_all_backups_restore[of "[''config.env'']" "\<lambda>q. if q = ''config.env'' then Some ''api_key: \"hunter2\"'' else None"]
  by (simp add: bak_path_def)

end
