(* ===== verification/Drivers.thy ===== *)
theory Drivers
  imports PerfectWorkflow ScraperWorkflow Sanitize
begin

text \<open>
  The module level of the two builder scripts around the document transformations of
  theories \<open>PerfectWorkflow\<close> and \<open>ScraperWorkflow\<close>: the paths under \<open>BASE_DIR\<close>, reading the
  legacy file and \<open>json.load\<close>, the \<open>print\<close> calls, and the final \<open>json.dump\<close> into the output
  file. A run of a script is the file system after it, the lines it printed and the exception
  it ended with, if any. \<open>json.load\<close> and \<open>json.dump\<close> are library functions and are parameters
  here; \<open>BASE_DIR\<close> depends on where the repository lies and is a parameter too.
\<close>

section \<open>Paths and runs\<close>

text \<open>\<open>os.path.join(a, b)\<close> for a relative \<open>b\<close> (posixpath.join).\<close>

definition path_join :: "string \<Rightarrow> string \<Rightarrow> string" where
  "path_join a b = (if a = [] \<or> last a = CHR ''/'' then a @ b else a @ ''/'' @ b)"

definition perfect_input :: "string \<Rightarrow> string" where
  "perfect_input base = path_join base ''KRONOS_V1_LEGACY.json''"

definition perfect_output :: "string \<Rightarrow> string" where
  "perfect_output base = path_join base ''KRONOS_V2_PERFECTED.json''"

definition scraper_output :: "string \<Rightarrow> string" where
  "scraper_output base = path_join base ''KRONOS_LEAD_SCRAPER_V1.json''"

text \<open>How a script run can end with an exception.\<close>

datatype script_error = FileNotFoundError string | JSONDecodeError | Raised py_error

record script_run =
  run_files :: files
  run_stdout :: "string list"
  run_error :: "script_error option"

definition raised_run :: "files \<Rightarrow> string list \<Rightarrow> script_error \<Rightarrow> script_run" where
  "raised_run fs out e = \<lparr>run_files = fs, run_stdout = out, run_error = Some e\<rparr>"

section \<open>perfect_workflow.py\<close>

text \<open>
  One prompt update of lines 147-155: \<open>get_node\<close>, and when the node is there its system
  message set and the line printed. The result carries the printed lines.
\<close>

definition prompt_phase :: "string \<Rightarrow> string \<Rightarrow> string \<Rightarrow> json \<Rightarrow> (json \<times> string list) result" where
  "prompt_phase name prompt msg doc =
     bind_res (get_node name doc)
       (\<lambda>r. case r of
              None \<Rightarrow> Inr (doc, [])
            | Some (i, n) \<Rightarrow>
                bind_res (jset_path n [''parameters'', ''options'', ''systemMessage''] (JStr prompt))
                  (\<lambda>n'. map_res (\<lambda>d. (d, [msg])) (put_node i n' doc)))"

text \<open>
  The script body of lines 129-258 with what it prints: an exception carries the lines
  printed before it.
\<close>

definition perfect_body :: "(nat \<Rightarrow> string) \<Rightarrow> json \<Rightarrow> (py_error \<times> string list) + (json \<times> string list)" where
  "perfect_body uid w =
     (case add_error_path uid w of
        Inl e \<Rightarrow> Inl (e, [])
      | Inr w1 \<Rightarrow>
          (case prompt_phase ''AI Agent'' SMS_SYSTEM_PROMPT ''Perfected SMS AI Agent Prompt'' w1 of
             Inl e \<Rightarrow> Inl (e, [])
           | Inr (w1', o1) \<Rightarrow>
               (case prompt_phase ''Email AI Agent'' EMAIL_SYSTEM_PROMPT ''Perfected Email AI Agent Prompt'' w1' of
                  Inl e \<Rightarrow> Inl (e, o1)
                | Inr (w2, o2) \<Rightarrow>
                    (case later_phases uid w2 of
                       Inl e \<Rightarrow> Inl (e, o1 @ o2)
                     | Inr w6 \<Rightarrow> Inr (w6, o1 @ o2)))))"

text \<open>The whole script: read and load the legacy file, run the body, dump and print.\<close>

definition perfect_main ::
  "(string \<Rightarrow> json option) \<Rightarrow> (json \<Rightarrow> string) \<Rightarrow> (nat \<Rightarrow> string) \<Rightarrow> string \<Rightarrow> files \<Rightarrow> script_run" where
  "perfect_main load dump uid base fs =
     (case fs (perfect_input base) of
        None \<Rightarrow> raised_run fs [] (FileNotFoundError (perfect_input base))
      | Some txt \<Rightarrow>
          (case load txt of
             None \<Rightarrow> raised_run fs [] JSONDecodeError
           | Some w \<Rightarrow>
               (case perfect_body uid w of
                  Inl (e, out) \<Rightarrow> raised_run fs out (Raised e)
                | Inr (w', out) \<Rightarrow>
                    \<lparr>run_files = fs(perfect_output base \<mapsto> dump w'),
                     run_stdout = out @ [''Perfected KRONOS workflow saved to '' @ perfect_output base],
                     run_error = None\<rparr>)))"

section \<open>build_scraper_workflow.py\<close>

definition scraper_main :: "(json \<Rightarrow> string) \<Rightarrow> (nat \<Rightarrow> string) \<Rightarrow> string \<Rightarrow> files \<Rightarrow> script_run" where
  "scraper_main dump uid base fs =
     (case build_scraper uid of
        Inl e \<Rightarrow> raised_run fs [] (Raised e)
      | Inr w \<Rightarrow>
          \<lparr>run_files = fs(scraper_output base \<mapsto> dump w),
           run_stdout = [''Elite Swiss Scraper JSON generated at '' @ scraper_output base],
           run_error = None\<rparr>)"

section \<open>Lemmas\<close>

lemma prompt_phase_doc: "map_res fst (prompt_phase name prompt msg doc) = set_system_message name prompt doc"
  by (cases "get_node name doc")
     (auto simp: prompt_phase_def set_system_message_def map_res_bind_res map_res_map_res
        o_def map_res_id split: option.splits)

lemma prompt_phase_Inr:
  "prompt_phase name prompt msg doc = Inr (d, out) \<Longrightarrow> set_system_message name prompt doc = Inr d"
  using prompt_phase_doc[of name prompt msg doc] by (simp add: map_res_def)

lemma prompt_phase_Inl:
  "prompt_phase name prompt msg doc = Inl e \<Longrightarrow> set_system_message name prompt doc = Inl e"
  using prompt_phase_doc[of name prompt msg doc] by (simp add: map_res_def)

lemma perfect_body_doc: "map_sum fst fst (perfect_body uid w) = perfect_workflow uid w"
  by (auto simp: perfect_body_def perfect_workflow_def update_prompts_def
      dest!: prompt_phase_Inr prompt_phase_Inl split: sum.splits)

lemma prompt_phase_of_set:
  assumes "set_system_message name p doc = Inr d"
  shows "\<exists>out. prompt_phase name p msg doc = Inr (d, out)"
  using prompt_phase_doc[of name p msg doc] assms
  by (cases "prompt_phase name p msg doc") (auto simp: map_res_def)

lemma prompt_phase_out:
  assumes "prompt_phase name p msg doc = Inr (d, out)" and "nodes_of doc = Some ns" and "list_all named ns"
  shows "out = (if name \<in> node_name ` set ns then [msg] else [])"
proof -
  note g = get_node_first[OF assms(2,3), of name]
  then obtain r where r: "get_node name doc = Inr r" by blast
  show ?thesis
  proof (cases r)
    case None
    then show ?thesis using assms(1) r g by (simp add: prompt_phase_def)
  next
    case (Some a)
    then show ?thesis using assms(1) r g
      by (auto simp: prompt_phase_def bind_res_eq_Inr map_res_def split: prod.splits)
  qed
qed

lemma scraper_main_run:
  "\<exists>d. build_scraper uid = Inr d \<and>
     nodes_of d = Some [trigger_node (uid 0), ua_node (uid 1), fetch_node (uid 2), parser_node (uid 3),
                        upsert_node (uid 4)] \<and> conns d = Some scraper_connections \<and>
     scraper_main dump uid base fs =
       \<lparr>run_files = fs(scraper_output base \<mapsto> dump d),
        run_stdout = [''Elite Swiss Scraper JSON generated at '' @ scraper_output base], run_error = None\<rparr>"
  using build_scraper_views[of uid] by (auto simp: scraper_main_def)

lemma path_join_inj [simp]: "path_join a x = path_join a y \<longleftrightarrow> x = y"
  by (simp add: path_join_def)

lemma perfect_paths_differ [simp]: "perfect_input base \<noteq> perfect_output base"
  by (simp add: perfect_input_def perfect_output_def)

section \<open>Properties\<close>

text \<open>
  C35. A run of perfect_workflow.py changes no file but \<open>KRONOS_V2_PERFECTED.json\<close>, and never
  the legacy input; it ends without an exception exactly when the input exists, loads, and the
  document transformation succeeds, and then the output holds the dump of the transformed
  document; a run that raises leaves the whole file system as it was.
\<close>

theorem perfect_main_files:
  "let r = perfect_main load dump uid base fs in
     (\<forall>q. q \<noteq> perfect_output base \<longrightarrow> run_files r q = fs q) \<and>
     run_files r (perfect_input base) = fs (perfect_input base) \<and>
     (run_error r = None \<longleftrightarrow>
        (\<exists>txt w w'. fs (perfect_input base) = Some txt \<and> load txt = Some w \<and> perfect_workflow uid w = Inr w')) \<and>
     (\<forall>txt w w'. fs (perfect_input base) = Some txt \<longrightarrow> load txt = Some w \<longrightarrow> perfect_workflow uid w = Inr w' \<longrightarrow>
        run_files r = fs(perfect_output base \<mapsto> dump w')) \<and>
     (run_error r \<noteq> None \<longrightarrow> run_files r = fs)"
proof -
  have body: "perfect_body uid w = Inr (w', out) \<Longrightarrow> perfect_workflow uid w = Inr w'" for w w' out
    using perfect_body_doc[of uid w] by simp
  have fail: "perfect_body uid w = Inl (e, out) \<Longrightarrow> \<exists>e'. perfect_workflow uid w = Inl e'" for w e out
    using perfect_body_doc[of uid w] by (metis map_sum.simps(1))
  show ?thesis
    unfolding Let_def perfect_main_def raised_run_def
    by (auto dest: body fail split: option.splits sum.splits prod.splits)
qed

theorem perfect_main_files_witness:
  "let r = perfect_main (\<lambda>_. Some (example_doc example_conns)) (\<lambda>_. ''{}'') (\<lambda>_. ''uuid'') ''/repo''
             [perfect_input ''/repo'' \<mapsto> ''legacy''] in
   perfect_input ''/repo'' = ''/repo/KRONOS_V1_LEGACY.json'' \<and> perfect_output ''/repo'' \<noteq> perfect_input ''/repo'' \<and>
   run_error r = None \<and> run_files r (perfect_input ''/repo'') = Some ''legacy'' \<and>
   run_files r (perfect_output ''/repo'') = Some ''{}''"
proof -
  define r where "r = perfect_main (\<lambda>_. Some (example_doc example_conns)) (\<lambda>_. ''{}'') (\<lambda>_. ''uuid'') ''/repo''
             [perfect_input ''/repo'' \<mapsto> ''legacy'']"
  obtain d where d: "perfect_workflow (\<lambda>_. ''uuid'') (example_doc example_conns) = Inr d"
    using perfect_workflow_views[OF example_views example_legacy_ok] by blast
  note f = perfect_main_files[where load = "\<lambda>_. Some (example_doc example_conns)" and dump = "\<lambda>_. ''{}''"
      and uid = "\<lambda>_. ''uuid''" and base = "''/repo''" and fs = "[perfect_input ''/repo'' \<mapsto> ''legacy'']",
      unfolded Let_def, folded r_def]
  have e: "run_error r = None" using f d by auto
  have "run_files r = [perfect_input ''/repo'' \<mapsto> ''legacy'', perfect_output ''/repo'' \<mapsto> ''{}'']"
    using f d by auto
  then show ?thesis using e f unfolding Let_def r_def[symmetric]
    by (simp add: perfect_input_def perfect_output_def path_join_def)
qed

text \<open>
  C36. On a legacy document the whole script succeeds: it writes the dump of the transformed
  document to the output file and prints the SMS line when the document has an AI Agent node,
  the email line when it has an Email AI Agent node, and then the line naming the output file.
\<close>

theorem perfect_main_legacy_run:
  assumes "fs (perfect_input base) = Some s" and "load s = Some doc"
    and "nodes_of doc = Some ns" and "conns doc = Some cs" and "legacy_ok ns cs"
  shows "\<exists>doc'. perfect_workflow uid doc = Inr doc' \<and>
     perfect_main load dump uid base fs =
       \<lparr>run_files = fs(perfect_output base \<mapsto> dump doc'),
        run_stdout = (if ''AI Agent'' \<in> node_name ` set ns then [''Perfected SMS AI Agent Prompt''] else []) @
                     (if ''Email AI Agent'' \<in> node_name ` set ns then [''Perfected Email AI Agent Prompt''] else []) @
                     [''Perfected KRONOS workflow saved to '' @ perfect_output base],
        run_error = None\<rparr>"
proof -
  note ok = assms(5)[unfolded legacy_ok_def]
  define errs where "errs = [error_trigger_node (uid 0), airtable_fail_node (uid 1), supabase_unlock_node (uid 2)]"
  obtain w1 cs1 where 1: "add_error_path uid doc = Inr w1" "nodes_of w1 = Some (ns @ errs)" "conns w1 = Some cs1"
    using add_error_path_views[OF assms(3,4), of uid] unfolding errs_def by blast
  have named: "list_all named (ns @ errs)" using ok node_literals_named by (simp add: errs_def)
  have opts: "\<forall>n \<in> set (ns @ errs). node_name n \<in> {''AI Agent'', ''Email AI Agent''} \<longrightarrow> has_options n"
    using ok error_nodes_not_agents unfolding errs_def by (auto simp: list_all_iff)
  have ne: "\<forall>n \<in> set errs. node_name n \<notin> {''AI Agent'', ''Email AI Agent''}"
    using error_nodes_not_agents unfolding errs_def .
  have agents: "name \<in> {''AI Agent'', ''Email AI Agent''} \<Longrightarrow>
      (name \<in> node_name ` set (ns @ errs)) = (name \<in> node_name ` set ns)" for name
    using ne by auto
  obtain w1' ns1 where 2: "set_system_message ''AI Agent'' SMS_SYSTEM_PROMPT w1 = Inr w1'"
    "nodes_of w1' = Some ns1" "length ns1 = length (ns @ errs)" "list_all named ns1"
    "\<forall>j < length (ns @ errs). if first_named ''AI Agent'' (ns @ errs) j
        then node_name (ns1 ! j) = ''AI Agent'' \<and> has_options (ns1 ! j) \<and> system_message (ns1 ! j) = Some SMS_SYSTEM_PROMPT
        else ns1 ! j = (ns @ errs) ! j"
    using set_system_message_views[OF 1(2,3) named, of "''AI Agent''" SMS_SYSTEM_PROMPT] opts by auto
  have names1: "node_name ` set ns1 = node_name ` set (ns @ errs)"
    using prompt_names[OF 2(3,5)] by (metis list.set_map)
  obtain w2 where 3: "update_prompts w1 = Inr w2"
    using update_prompts_views[OF 1(2,3) named opts] by blast
  have 4: "set_system_message ''Email AI Agent'' EMAIL_SYSTEM_PROMPT w1' = Inr w2"
    using 3 2(1) by (simp add: update_prompts_def)
  obtain o1 where p1: "prompt_phase ''AI Agent'' SMS_SYSTEM_PROMPT ''Perfected SMS AI Agent Prompt'' w1 = Inr (w1', o1)"
    using prompt_phase_of_set[OF 2(1)] by blast
  obtain o2 where p2: "prompt_phase ''Email AI Agent'' EMAIL_SYSTEM_PROMPT ''Perfected Email AI Agent Prompt'' w1' = Inr (w2, o2)"
    using prompt_phase_of_set[OF 4] by blast
  have o1: "o1 = (if ''AI Agent'' \<in> node_name ` set ns then [''Perfected SMS AI Agent Prompt''] else [])"
    using prompt_phase_out[OF p1 1(2) named] agents by simp
  have o2: "o2 = (if ''Email AI Agent'' \<in> node_name ` set ns then [''Perfected Email AI Agent Prompt''] else [])"
    using prompt_phase_out[OF p2 2(2,4)] names1 agents by simp
  obtain doc' where run: "perfect_workflow uid doc = Inr doc'"
    using perfect_workflow_views[OF assms(3-5), of uid] by blast
  then have "later_phases uid w2 = Inr doc'" using 1(1) 3 by (simp add: perfect_workflow_def)
  then have "perfect_body uid doc = Inr (doc', o1 @ o2)" using 1(1) p1 p2 by (simp add: perfect_body_def)
  then show ?thesis using run assms(1,2) o1 o2 by (simp add: perfect_main_def)
qed

theorem perfect_main_legacy_run_witness:
  "run_stdout (perfect_main (\<lambda>_. Some (example_doc example_conns)) (\<lambda>_. ''{}'') (\<lambda>_. ''uuid'') ''/repo''
      [perfect_input ''/repo'' \<mapsto> ''legacy'']) =
   [''Perfected SMS AI Agent Prompt'', ''Perfected Email AI Agent Prompt'',
    ''Perfected KRONOS workflow saved to /repo/KRONOS_V2_PERFECTED.json'']"
proof -
  have i: "[perfect_input ''/repo'' \<mapsto> ''legacy''] (perfect_input ''/repo'') = Some ''legacy''" by simp
  obtain d where "perfect_main (\<lambda>_. Some (example_doc example_conns)) (\<lambda>_. ''{}'') (\<lambda>_. ''uuid'') ''/repo''
      [perfect_input ''/repo'' \<mapsto> ''legacy''] =
    \<lparr>run_files = [perfect_input ''/repo'' \<mapsto> ''legacy'', perfect_output ''/repo'' \<mapsto> ''{}''],
     run_stdout = (if ''AI Agent'' \<in> node_name ` set example_nodes then [''Perfected SMS AI Agent Prompt''] else []) @
       (if ''Email AI Agent'' \<in> node_name ` set example_nodes then [''Perfected Email AI Agent Prompt''] else []) @
       [''Perfected KRONOS workflow saved to '' @ perfect_output ''/repo''],
     run_error = None\<rparr>"
    using perfect_main_legacy_run[where load = "\<lambda>_. Some (example_doc example_conns)" and s = "''legacy''" and base = "''/repo''" and fs = "[perfect_input ''/repo'' \<mapsto> ''legacy'']"
        and doc = "example_doc example_conns" and ns = example_nodes and cs = example_conns
        and dump = "\<lambda>_. ''{}''" and uid = "\<lambda>_. ''uuid''", OF i refl example_views example_legacy_ok]
    by blast
  then show ?thesis
    by (simp add: example_nodes_def example_node_def node_name_def perfect_output_def path_join_def)
qed

end
