(* ===== verification/Spec2Isabelle.thy ===== *)
theory Spec2Isabelle
  imports Orchestrator Drivers
begin

text \<open>
  \<^bold>\<open>A verification model of the KRONOS lead-outreach workflows.\<close>

  \<^bold>\<open>The program.\<close> The repository holds three Python scripts. Two of them build n8n
  workflow documents: src/execution/build_scraper_workflow.py writes a scraper
  (random schedule trigger, user-agent rotator, HTTP fetch meant to retry, an LLM parser
  that scores agencies, and a Supabase upsert into the table \<open>leads\<close>), and
  src/execution/perfect_workflow.py patches a legacy outreach workflow: it adds an error
  path (Error Trigger, an Airtable update that marks the execution FAILED, a Supabase
  update that releases the lead) and inserts, before the legacy contact flow, a dynamic
  configuration fetch, a batch node of size 50, a lock of the lead (status IN_PROGRESS) and
  a random 2-5 second wait. The third script, src/scripts/sanitize_secrets.py, redacts
  secrets in the working tree with two regular expressions. The scripts' own logic is a
  JSON transformation; the behaviour that matters is what the nodes they add do to the
  shared lead table when the workflows run, concurrently, on a schedule.

  \<^bold>\<open>The theories.\<close>
  \<^item> \<open>Prelude\<close>: the Python error type and the result type \<open>py_error + 'a\<close> with its
    bind, Python dict assignment on association lists (\<open>dict_set\<close>, with its
    lookup/insert lemma), \<open>xs[0] = v\<close>, the named theorem collections, and
    \<open>floor_random\<close>, JavaScript's \<open>Math.floor(Math.random() * n)\<close> for the draw
    \<open>k / 2^p\<close>, with the count of the draws that give each value (\<open>floor_random_card\<close>).
  \<^item> \<open>LeadStore\<close>: the table \<open>leads\<close> as a list of \<open>lead\<close> records, its statuses
    (\<open>lead_status\<close>), and the three nodes that write it: \<open>lock_lead\<close> (Lock Lead Status,
    perfect_workflow.py 216-232), \<open>release_lock\<close> (Supabase - Release Lock, 103-127),
    both Supabase updates matched on \<open>airtable_id\<close> (\<open>set_status_where\<close>), and
    \<open>elite_upsert\<close> (Supabase - Elite Upsert, build_scraper_workflow.py 93-114) with the
    status rule \<open>classify\<close> (line 104). Lemmas: classification of a new row, the status
    re-derivation on conflict, idempotence with a url, duplication without one, and the
    invariant that a non-null url occurs in at most one row.
  \<^item> \<open>Orchestrator\<close>: the behaviour of the nodes perfect_workflow.py adds. The wait
    (\<open>wait_amount\<close>, line 238), the batch size (\<open>batch_size\<close>, line 193), what the
    \<open>splitInBatches\<close> node of typeVersion 3 (line 199) emits on its outputs
    (\<open>split_in_batches_v3\<close>), the error path
    (\<open>mark_failed\<close> for Airtable - Mark Failed, lines 73-101; \<open>compensate\<close> for the
    connections Error Trigger \<open>\<rightarrow>\<close> Mark Failed \<open>\<rightarrow>\<close> Release Lock, lines 136-142),
    one lead through Lock \<open>\<rightarrow>\<close> Wait \<open>\<rightarrow>\<close> contact flow (\<open>process_item\<close>, wiring of
    lines 249-258), one batch (\<open>run_items\<close>) and one run with its configuration fetch
    (\<open>batch_run\<close>, lines 163-187). \<open>run_items\<close> and \<open>batch_run\<close> follow the script's
    comments and let the batch reach Split Leads1; the claim \<open>batch_node_starves_split\<close>
    shows that the v3 node sends it to its other output. Concurrent runs are the step relation \<open>sys_step\<close>,
    parametrised by the lease operations (\<open>lease_ops\<close>): \<open>code_ops\<close> are the code's
    (blind lock, no write-back on success, release keyed by the execution id or none when
    the audit write fails); \<open>conditional_ops\<close> replaces the lock by the spec's conditional
    \<open>try_claim\<close>. The mutual-exclusion argument is stated once for any operations that
    meet \<open>lease_contract\<close> (an invariant \<open>lease_inv\<close> proved by rule induction over
    \<open>sys_step\<close>) and discharged for \<open>conditional_ops\<close>.
  \<^item> \<open>Workflow\<close>: the n8n document as a JSON value (\<open>json\<close>) and the Python operations
    perfect_workflow.py applies to it, each failing as Python does (\<open>jget\<close>, \<open>jset\<close>,
    \<open>jhas\<close>, \<open>jappend\<close>, \<open>jset0\<close>, \<open>jset_path\<close>); the script's helpers \<open>get_node\<close>
    (lines 15-16, returning the position of the node so that the in-place prompt update is a
    write at that position, \<open>put_node\<close>) and \<open>add_node\<close> (18-20); the three statement
    shapes the script repeats (\<open>set_connection\<close>, \<open>rewire_main0\<close>, \<open>set_system_message\<close>);
    and reading functions for a document's nodes, connections and links (\<open>nodes_of\<close>,
    \<open>conns\<close>, \<open>main0\<close>, \<open>feeds\<close>, and \<open>main_at\<close> with \<open>items_into\<close>, the items that
    reach a node along the links of each output of another). Lemmas: what each operation does to the node list and
    the connections, and that \<open>get_node\<close> returns the first node with a name
    (\<open>get_node_first\<close>).
  \<^item> \<open>PerfectWorkflow\<close>: the script itself, its prompts and seven node literals, its six
    phases (\<open>add_error_path\<close>, \<open>update_prompts\<close>, \<open>lookup_anchors\<close>, \<open>insert_config\<close>,
    \<open>insert_batch\<close>, \<open>insert_lock_wait\<close>; the last four grouped as \<open>later_phases\<close>) and
    their composition \<open>perfect_workflow\<close>, with the first exception ending the script. \<open>legacy_ok\<close> names the documents the script runs
    through; one lemma per phase gives its effect, and \<open>perfect_workflow_views\<close> the whole
    result: the node list and the exact connections dict.
  \<^item> \<open>ScraperWorkflow\<close>: build_scraper_workflow.py. The document the script writes
    (\<open>scraper_init\<close>, lines 9-14; \<open>add_node_named\<close>, 16-18, which returns the name where
    perfect_workflow.py's \<open>add_node\<close> returns the id; the five node literals
    \<open>trigger_node\<close>, \<open>ua_node\<close> with the rotator's code \<open>UA_ROTATOR_JS\<close> and its pool
    \<open>UAS\<close>, \<open>fetch_node\<close>, \<open>parser_node\<close> with \<open>PARSING_PROMPT\<close>, \<open>upsert_node\<close>;
    \<open>scraper_connections\<close>, 117-122; their sequence \<open>build_scraper\<close>), and the same nodes
    at run time: \<open>trigger_interval\<close> (line 23), \<open>ua_rotator\<close> (line 41),
    the fetch as the one request the node makes (it sets no node-level \<open>retryOnFail\<close>,
    \<open>retry_on_fail\<close>, and the HTTP node has no option \<open>retry\<close>, so line 62 is not read)
    and the whole linear flow \<open>scrape_run\<close>, which ends in \<open>LeadStore.elite_upsert\<close> for
    each parsed candidate. \<open>fetch_spec\<close> is the spec's fetch contract (section 6, five
    retries), \<open>retry_options\<close> reads the contract the node carries in its parameters, and
    \<open>wired_ok\<close> is the well-formedness of a document's connections.
  \<^item> \<open>Regex\<close>: the part of Python's \<open>re\<close> the sanitizer's two patterns use, as a
    backtracking matcher \<open>mt\<close> that lists the matches of a pattern (\<open>rx\<close>) from a match
    state (\<open>mstate\<close>: rest of the text, position, previous character, groups) in Python's
    backtracking order, so that the first element is the match \<open>re\<close> returns: classes,
    concatenation, alternation, greedy and lazy \<open>?\<close> and \<open>*\<close>, groups, the MULTILINE
    anchors, IGNORECASE on ASCII letters (\<open>lit_ci\<close>). \<open>scan\<close> and \<open>subn\<close> are
    \<open>pattern.subn(repl, text)\<close>: the left-to-right scan that replaces every
    non-overlapping match, with Python 3.7's rule for empty matches. Lemmas: the suffix
    invariant of the matcher, the text a match consumes, lazy and greedy repetition, and
    three facts about the scan (it preserves any count the replacement preserves, it copies
    a text where nothing matches, it replaces a match at the scan position).
  \<^item> \<open>Sanitize\<close>: src/scripts/sanitize_secrets.py. \<open>KEY_PATTERN\<close> and \<open>ENV_PATTERN\<close>
    (lines 14-15) built from their parts, the replacement functions \<open>key_repl\<close> and
    \<open>env_repl\<close>, \<open>redact_text\<close> (20-30), \<open>is_text_file\<close> with \<open>SKIP_EXT\<close> and
    \<open>path_suffix\<close> (12, 17-18), and \<open>main\<close> as \<open>sanitize_file\<close> and \<open>sanitize_all\<close>
    (32-45) over a file system \<open>files\<close> (a map from paths to texts), with the printed
    summary \<open>report\<close> and the whole of \<open>main\<close>, \<open>sanitize_main\<close> (32-55);
    \<open>restore_all\<close> is the undo the docstring's backups are for. The model of
    \<open>redact_text\<close> was compared with Python's on 650 random texts and agrees on all of them.
  \<^item> \<open>Drivers\<close>: the module level of the two builder scripts, with the file system as the
    map \<open>files\<close> of theory \<open>Sanitize\<close>. A run is a \<open>script_run\<close> record: the files after it,
    the lines it printed and the exception that ended it (\<open>script_error\<close>: the
    \<open>FileNotFoundError\<close> of \<open>open\<close>, the decode error of \<open>json.load\<close>, or a Python error of
    the body). \<open>perfect_main\<close> is perfect_workflow.py: the paths under \<open>BASE_DIR\<close>
    (\<open>path_join\<close> is \<open>os.path.join\<close>, lines 8-9), the read and load (11-12), the body
    \<open>perfect_body\<close> with the two prompt updates and their prints (\<open>prompt_phase\<close>,
    147-155), and the dump and the last print (260-264). \<open>perfect_body_doc\<close> shows that
    the body computes \<open>perfect_workflow\<close>. \<open>scraper_main\<close> is the dump and print of
    build_scraper_workflow.py (124-127).
  \<^item> This theory: the scraper's upserts as steps between the steps of concurrent batch
    runs (\<open>ingest_step\<close>, extending \<open>sys_step\<close>; spec section 5), with the invariant
    \<open>lease_inv\<close> carried over them by rule induction; and the acceptance scenario of spec
    section 8 run through the three
    components that take part in it, the scraper (\<open>scrape_run\<close>), the table
    (\<open>elite_upsert\<close>) and the batch run (\<open>batch_run\<close>, with the lemma
    \<open>batch_run_keeps_unkeyed\<close>: a run never changes a row without \<open>airtable_id\<close>).
  \<^bold>\<open>What the lemmas show.\<close> With the code's blind lock two overlapping runs deliver the
  same lead twice (spec P1 fails); with a conditional claim no two runs ever hold the same
  lead. The error path cannot release the lead in flight (it only knows the execution id),
  it skips the release when the audit update fails, and it is idempotent (spec P4). No node
  writes DONE, so a delivered lead stays IN_PROGRESS (spec P2 fails on both paths). A
  failed configuration fetch locks nothing (spec P5). And as wired, no lead reaches the
  lock at all: the batch node, a \<open>splitInBatches\<close> of typeVersion 3, sends its first 50
  leads on its loop output, which has no link, and nothing on its done output, the one the
  script connects to Split Leads1. The wait is 2 to 5 seconds, each value for exactly a quarter of the draws.
  The upsert classifies a new lead by \<open>score > 7\<close> (spec P3), but re-derives the status of
  a lead it matches and, since the items carry no url, inserts duplicates on every scrape.
  On the document side: on every legacy document the script succeeds, appends the seven
  nodes in order, replaces exactly the two prompts, wires the new nodes as its comments
  say, and leaves every other connection alone; but without a Webhook entry the
  configuration fetch is unreachable, nothing closes the batch loop (so the batch node runs
  once per execution), and an empty \<open>main\<close> list aborts the script
  with \<open>IndexError\<close>. As a program, perfect_workflow.py writes no file but its output
  and never its input; it ends without an exception exactly when the input exists, loads and
  transforms, and then the output holds the dump of the result; every exception leaves the
  file system as it was. On a legacy document it prints one line per agent node present and
  the path of the output.
  The scraper's script always builds a well-wired linear flow of its five nodes. At run time
  the trigger interval is one of 0 to 59 minutes (0 included: the code draws an interval
  where the spec asks for an offset), the user agent always comes from the pool, each value
  within one draw of uniform. The fetch does not meet the spec's contract: the node carries
  five retries 10 s apart under \<open>options.retry\<close>, which the HTTP node does not read, so
  a failed first request ends the run with \<open>FetchFailed\<close> even when a retry would have
  returned the page; a failed fetch leaves the table untouched.
  Every scrape run keeps urls unique (\<open>scrape_run_urls_unique\<close>). For the sanitizer: a quoted \<open>api_key\<close> value is
  replaced by \<open>REDACTED\<close>; \<open>main\<close> writes only the files it reports and their backups,
  and after a first run the backups give back exactly the original files, but a second run
  overwrites the backup with the redacted text; a double-quoted secret containing an apostrophe is redacted only
  up to it; a \<open>PASSWORD=\<close> line with an empty value redacts the next line; redaction never
  changes the number of lines; and the backups are themselves scanned again. The
  IGNORECASE literal matcher is equivalent to a comparison up to ASCII case (a lemma of the
  matcher, \<open>lit_ci_matches_case_insensitively\<close>).
  Across the components: the conditional claim keeps its mutual exclusion when the code's
  scrape runs interleave with the batch runs, but only because the scraper's items carry no
  url; with the url that \<open>upsertByUrl\<close> is specified for, the upsert re-derives the status
  of a held lead and a second run claims it. And the spec's acceptance scenario cannot run: the scraped lead is
  stored as \<open>PRIORITY\<close>, but its row has no \<open>airtable_id\<close>, so no batch run ever
  claims or releases it.

  \<^bold>\<open>Bounds and parameters.\<close> \<open>Math.random()\<close> is a draw \<open>k / 2^p\<close> with \<open>k < 2^p\<close>;
  the lemmas hold for every \<open>p \<ge> 2\<close> and the witnesses use \<open>p = 53\<close>. The batch size is
  the script's literal 50. Runs are numbered by \<open>nat\<close> and any number of them may
  interleave. No fuel is needed: every loop of the model is structural recursion, over a
  finite batch, over the pattern and the text
  (\<open>mt\<close>, \<open>scan\<close>: \<open>re.subn\<close> always ends), or over the walk of the sanitizer. The
  scraper's draws are \<open>k / 2^p\<close> as well; its fetch is one attempt, and the spec's
  contract \<open>fetch_spec\<close> looks at the literal count 5 of retries after the first try. Sanitizer texts are char lists, i.e. code points below 256, which covers
  the ASCII keywords of the patterns and the Latin-1 whitespace \<open>\s\<close> matches.

  \<^bold>\<open>Not modelled.\<close> The content of the prompts and the LLM calls (external,
  natural language: the parser is a parameter \<open>parse\<close> of \<open>scrape_run\<close> that yields
  candidates or fails); the HTTP server
  (the reply to each attempt is a parameter; an error status counts as a failed request) and the suspension of the waits (only their
  lengths are modelled); \<open>json.load\<close> and \<open>json.dump\<close>, library functions that are
  parameters of \<open>perfect_main\<close> and \<open>scraper_main\<close> (the text of a document is not
  modelled, nor a partial write by \<open>json.dump\<close>, which cannot fail on the values the scripts
  build); \<open>BASE_DIR\<close>, which depends on the checkout and is a parameter;
  \<open>Path.read_text\<close> with \<open>errors='ignore'\<close> (taken to yield the text), \<open>rglob\<close> (its walk order is the list
  \<open>sanitize_all\<close> is given) and \<open>shutil.copy2\<close> beyond the copy of the contents; the
  \<open>uuid4\<close> values (a parameter \<open>uid\<close>); the legacy contact flow after Check if Mobile
  Number, an external collaborator whose result is an \<open>outcome\<close>; and the parts of \<open>re\<close>
  the two patterns do not use.
\<close>


section \<open>Scrape runs between batch runs\<close>

text \<open>
  The scraper's runs are scheduled on their own and write the same table while batch runs
  hold leads (spec section 5). Each upsert of a scrape run is one request to the table, so
  it is one step between any two steps of the batch runs: \<open>ingest_step\<close> extends
  \<open>Orchestrator.sys_step\<close> by the upserts of the candidates \<open>A\<close> allows. With the parser
  of the code, whose fields include no url, that is \<open>\<lambda>c. cand_url c = None\<close>.
\<close>

inductive ingest_step :: "(candidate \<Rightarrow> bool) \<Rightarrow> lease_ops \<Rightarrow> sys \<Rightarrow> sys \<Rightarrow> bool" for A ops where
  run: "sys_step ops s t \<Longrightarrow> ingest_step A ops s t"
| upsert: "A c \<Longrightarrow> ingest_step A ops s (s\<lparr>store := elite_upsert c (store s)\<rparr>)"

section \<open>The scenario of the spec across the components\<close>

text \<open>
  The acceptance scenario of spec section 8: a scraped lead \<open>{url: "a.ch/1", LeadScore: 9}\<close>,
  then a batch run that claims it.
\<close>

definition scenario_candidate :: candidate where
  "scenario_candidate = \<lparr>AgencyName = ''Agency'', LeadScore = 9, Sector = ''Luxury'', City = ''Lugano'',
     Phone = ''+41 91 000 00 00'', cand_url = Some ''a.ch/1''\<rparr>"

text \<open>The same lead as a row the batch run can claim: keyed \<open>rec1\<close> in Airtable, with its url.\<close>

definition scenario_row :: lead where
  "scenario_row = \<lparr>airtable_id = Some ''rec1'', url = Some ''a.ch/1'', company_name = ''Agency'',
     lead_score = 9, sector = ''Luxury'', status = PRIORITY\<rparr>"

section \<open>Lemmas\<close>

lemma claimable_append_unkeyed:
  "airtable_id x = None \<Longrightarrow> claimable j (rows @ [x]) = claimable j rows"
  by (simp add: claimable_def)

lemma claimable_upsert_no_url:
  "cand_url c = None \<Longrightarrow> claimable j (elite_upsert c rows) = claimable j rows"
  by (simp add: elite_upsert_def claimable_append_unkeyed new_lead_def)

lemma ingest_step_lease_inv:
  assumes "ingest_step A ops s t" and "lease_contract K ops" and "\<forall>c. A c \<longrightarrow> cand_url c = None"
    and "lease_inv K s"
  shows "lease_inv K t"
  using assms(1)
proof cases
  case run
  then show ?thesis using sys_step_lease_inv assms(2,4) by blast
next
  case (upsert c)
  then show ?thesis using assms(3,4) by (simp add: lease_inv_def claimable_upsert_no_url)
qed

lemma reach_ingest_lease_inv:
  assumes "(ingest_step A ops)\<^sup>*\<^sup>* s0 s" and "lease_contract K ops" and "\<forall>c. A c \<longrightarrow> cand_url c = None"
    and "lease_inv K s0"
  shows "lease_inv K s"
  using assms(1,4)
proof (induction rule: rtranclp_induct)
  case base
  then show ?case .
next
  case (step t u)
  then show ?case using ingest_step_lease_inv assms(2,3) by blast
qed

section \<open>Properties across the components\<close>

text \<open>
  C3. The scraper as written does not disturb the conditional claim: with the upserts of
  url-less candidates interleaved anywhere between the steps of the batch runs, no two runs
  ever hold the same lead (same side conditions as \<open>conditional_claim_mutual_exclusion\<close>).
  An upsert without url only appends a row without \<open>airtable_id\<close>, which no claim sees.
\<close>

theorem conditional_claim_exclusion_with_scraper:
  assumes "\<forall>r. ex r \<notin> K" and "\<forall>r. set (qs r) \<subseteq> K"
    and "(ingest_step (\<lambda>c. cand_url c = None) (conditional_ops ex))\<^sup>*\<^sup>* (init_sys rows qs) s"
    and "holds s r k" and "holds s r' k"
  shows "r = r'"
proof -
  have "lease_inv K s"
    using reach_ingest_lease_inv[OF assms(3) conditional_ops_contract[OF assms(1)] _ lease_inv_init[OF assms(2)]]
    by simp
  with assms(4,5) show ?thesis by (auto simp: lease_inv_def)
qed

theorem conditional_claim_exclusion_with_scraper_witness:
  "(ingest_step (\<lambda>c. cand_url c = None) (conditional_ops (\<lambda>_. ''exec1'')))\<^sup>*\<^sup>*
      (init_sys [scenario_row] (\<lambda>_. [''rec1'']))
      ((init_sys [scenario_row] (\<lambda>_. [''rec1'']))
         \<lparr>store := elite_upsert (scenario_candidate\<lparr>cand_url := None\<rparr>) [scenario_row\<lparr>status := IN_PROGRESS\<rparr>],
          pcs := (\<lambda>_. Ready)(0 := Holding ''rec1''), queue := (\<lambda>_. [''rec1''])(0 := [])\<rparr>) \<and>
   \<not> holds ((init_sys [scenario_row] (\<lambda>_. [''rec1'']))
         \<lparr>store := elite_upsert (scenario_candidate\<lparr>cand_url := None\<rparr>) [scenario_row\<lparr>status := IN_PROGRESS\<rparr>],
          pcs := (\<lambda>_. Ready)(0 := Holding ''rec1''), queue := (\<lambda>_. [''rec1''])(0 := [])\<rparr>) 1 ''rec1''"
proof -
  let ?ops = "conditional_ops (\<lambda>_. ''exec1'')"
  let ?s0 = "init_sys [scenario_row] (\<lambda>_. [''rec1''])"
  let ?s1 = "?s0\<lparr>store := [scenario_row\<lparr>status := IN_PROGRESS\<rparr>],
          pcs := (\<lambda>_. Ready)(0 := Holding ''rec1''), queue := (\<lambda>_. [''rec1''])(0 := [])\<rparr>"
  let ?s2 = "?s0\<lparr>store := elite_upsert (scenario_candidate\<lparr>cand_url := None\<rparr>) [scenario_row\<lparr>status := IN_PROGRESS\<rparr>],
          pcs := (\<lambda>_. Ready)(0 := Holding ''rec1''), queue := (\<lambda>_. [''rec1''])(0 := [])\<rparr>"
  have "sys_step ?ops ?s0 ?s1"
    using sys_step.claim[of ?s0 0 "''rec1''" "[]" ?ops "[scenario_row\<lparr>status := IN_PROGRESS\<rparr>]"]
    by (simp add: init_sys_def conditional_ops_def code_ops_def try_claim_def claimable_def eligible_def
        scenario_row_def)
  moreover have "ingest_step (\<lambda>c. cand_url c = None) ?ops ?s1 ?s2"
    using ingest_step.upsert[of "\<lambda>c. cand_url c = None" "scenario_candidate\<lparr>cand_url := None\<rparr>" ?ops ?s1]
    by (simp add: init_sys_def)
  ultimately have reach: "(ingest_step (\<lambda>c. cand_url c = None) ?ops)\<^sup>*\<^sup>* ?s0 ?s2"
    by (meson ingest_step.run rtranclp.rtrancl_into_rtrancl rtranclp.rtrancl_refl)
  have h0: "holds ?s2 0 ''rec1''" by (simp add: holds_def)
  have "\<not> holds ?s2 1 ''rec1''"
    using conditional_claim_exclusion_with_scraper[of "\<lambda>_. ''exec1''" "{''rec1''}" "\<lambda>_. [''rec1'']"
        "[scenario_row]" ?s2 0 "''rec1''" 1] reach h0 by auto
  with reach show ?thesis by simp
qed

text \<open>
  C4. A scraper whose items carry the url, the input \<open>upsertByUrl\<close> is specified for (spec
  4.1), breaks the conditional claim: an upsert that matches a lead held by a run re-derives
  its status from the score (\<open>PRIORITY\<close> or \<open>READY_TO_PROCESS\<close>), the lead is claimable again,
  and a second run claims it while the first still holds it.
\<close>

theorem url_upsert_breaks_exclusion:
  fixes r0 :: lead and c :: candidate
  assumes r0: "airtable_id r0 = Some k" "url r0 = Some u" "eligible (status r0)"
    and c: "cand_url c = Some u"
  shows "\<exists>s. (ingest_step (\<lambda>_. True) (conditional_ops ex))\<^sup>*\<^sup>* (init_sys [r0] (\<lambda>_. [k])) s \<and>
             holds s 0 k \<and> holds s 1 k"
proof -
  let ?ops = "conditional_ops ex"
  let ?s0 = "init_sys [r0] (\<lambda>_. [k])"
  let ?r1 = "r0\<lparr>status := IN_PROGRESS\<rparr>"
  let ?s1 = "?s0\<lparr>store := [?r1], pcs := (pcs ?s0)(0 := Holding k), queue := (queue ?s0)(0 := [])\<rparr>"
  let ?r2 = "upsert_fields c ?r1"
  let ?s2 = "?s1\<lparr>store := [?r2]\<rparr>"
  let ?s3 = "?s2\<lparr>store := [?r2\<lparr>status := IN_PROGRESS\<rparr>], pcs := (pcs ?s2)(1 := Holding k),
               queue := (queue ?s2)(1 := [])\<rparr>"
  have "sys_step ?ops ?s0 ?s1"
    by (rule sys_step.claim) (use r0 in \<open>simp_all add: init_sys_def conditional_ops_def code_ops_def
        try_claim_def claimable_def\<close>)
  moreover have "ingest_step (\<lambda>_. True) ?ops ?s1 ?s2"
    using ingest_step.upsert[of "\<lambda>_. True" c ?ops ?s1] r0 c by (simp add: elite_upsert_def)
  moreover have "eligible (status ?r2)"
    by (simp add: upsert_fields_def classify_def eligible_def)
  then have "sys_step ?ops ?s2 ?s3"
    by (intro sys_step.claim) (use r0 in \<open>simp_all add: init_sys_def conditional_ops_def code_ops_def
        try_claim_def claimable_def upsert_fields_def\<close>)
  ultimately have "(ingest_step (\<lambda>_. True) ?ops)\<^sup>*\<^sup>* ?s0 ?s3"
    by (meson ingest_step.run rtranclp.rtrancl_into_rtrancl rtranclp.rtrancl_refl)
  then show ?thesis by (intro exI[of _ ?s3]) (simp add: holds_def init_sys_def)
qed

theorem url_upsert_breaks_exclusion_witness:
  "\<exists>s. (ingest_step (\<lambda>_. True) (conditional_ops (\<lambda>_. ''exec1'')))\<^sup>*\<^sup>*
         (init_sys [scenario_row] (\<lambda>_. [''rec1''])) s \<and> holds s 0 ''rec1'' \<and> holds s 1 ''rec1''"
  using url_upsert_breaks_exclusion[of scenario_row "''rec1''" "''a.ch/1''" scenario_candidate]
  by (simp add: scenario_row_def scenario_candidate_def eligible_def)

text \<open>
  C24. Across the scraper, the lead table and the batch run, the scenario stops after its
  first step: the scrape stores the lead as \<open>PRIORITY\<close>, as the spec expects, but the row
  it writes has no \<open>airtable_id\<close>, and a batch run, whatever its execution id, items,
  configuration fetch and outcomes, matches its lock and release on \<open>airtable_id\<close>: the
  row is never claimed, never \<open>IN_PROGRESS\<close> and never released to \<open>READY_RETRY\<close>.
\<close>

theorem spec_scenario_lead_never_claimed:
  "scrape_run p k (\<lambda>_ _. Page page) (\<lambda>_. Some [scenario_candidate]) [] = (Stored, [new_lead scenario_candidate]) \<and>
   status (new_lead scenario_candidate) = PRIORITY \<and>
   leads (fst (batch_run exec p' cfg items
     \<lparr>leads = [new_lead scenario_candidate], tracking = t, waited = w, handed = h\<rparr>)) = [new_lead scenario_candidate]"
proof (intro conjI)
  show "scrape_run p k (\<lambda>_ _. Page page) (\<lambda>_. Some [scenario_candidate]) [] = (Stored, [new_lead scenario_candidate])"
    by (simp add: scrape_run_def elite_upsert_def scenario_candidate_def)
  show "status (new_lead scenario_candidate) = PRIORITY"
    by (simp add: new_lead_def classify_def scenario_candidate_def)
  let ?s = "\<lparr>leads = [new_lead scenario_candidate], tracking = t, waited = w, handed = h\<rparr>"
  have "keeps_unkeyed (leads ?s) (leads (fst (batch_run exec p' cfg items ?s)))"
    by (rule batch_run_keeps_unkeyed)
  then show "leads (fst (batch_run exec p' cfg items ?s)) = [new_lead scenario_candidate]"
    by (cases "leads (fst (batch_run exec p' cfg items ?s))")
       (auto simp: keeps_unkeyed_def new_lead_def)
qed

text \<open>
  C9. The patched workflow never hands a lead to Split Leads1. The script wires Split Leads1
  to output 0 of Batch Leads (Volume) and nothing to output 1 (lines 210-214), but the node is
  a \<open>splitInBatches\<close> of typeVersion 3 (line 199), whose output 0 is \<open>done\<close>: on its first
  run it sends the first 50 leads on output 1, where no link leads, and nothing on output 0.
  Since no connection returns to the batch node (C14), it does not run again, and the lock,
  the wait and the contact flow after Split Leads1 never see a lead.
\<close>

theorem batch_node_starves_split:
  assumes "nodes_of doc = Some ns" and "conns doc = Some cs" and "legacy_ok ns cs"
  shows "\<exists>doc' cs'. perfect_workflow uid doc = Inr doc' \<and> conns doc' = Some cs' \<and>
     snd (split_in_batches_v3 batch_size fetched) = take 50 fetched \<and>
     (\<forall>k. items_into cs' ''Batch Leads (Volume)'' k
            [fst (split_in_batches_v3 batch_size fetched), snd (split_in_batches_v3 batch_size fetched)] = [])"
proof -
  obtain doc' ns' where d: "perfect_workflow uid doc = Inr doc'" "conns doc' = Some (script_conns cs)"
    using perfect_workflow_views[OF assms] by blast
  have "items_into (script_conns cs) ''Batch Leads (Volume)'' k
          [fst (split_in_batches_v3 batch_size fetched), snd (split_in_batches_v3 batch_size fetched)] = []" for k
    by (simp add: items_into_def script_conns_batch main_at_def main_to_def split_in_batches_v3_def Let_def
        numeral_2_eq_2 upt_rec)
  then show ?thesis using d by (simp add: split_in_batches_v3_def batch_size_def Let_def)
qed

theorem batch_node_starves_split_witness:
  "\<exists>doc' cs'. perfect_workflow (\<lambda>_. ''uuid'') (example_doc example_conns) = Inr doc' \<and>
     conns doc' = Some cs' \<and>
     snd (split_in_batches_v3 batch_size (replicate 60 ''rec1'')) = replicate 50 ''rec1'' \<and>
     items_into cs' ''Batch Leads (Volume)'' ''Split Leads1''
       [fst (split_in_batches_v3 batch_size (replicate 60 ''rec1'')),
        snd (split_in_batches_v3 batch_size (replicate 60 ''rec1''))] = []"
  using batch_node_starves_split[OF example_views example_legacy_ok,
      where uid = "\<lambda>_. ''uuid''" and fetched = "replicate 60 ''rec1''"]
  by auto

end
